(* ===== verification/Prelude.thy ===== *)
theory Prelude
  imports Complex_Main "HOL-Library.Sublist" "HOL-Library.Word"
begin

text \<open>
  Shared vocabulary of the development: the theorem collections the component proofs draw on,
  the result type of fallible Go code, two's complement 64-bit integers written out over
  \<^typ>\<open>int\<close>, and generic lemmas on lists and maps.
\<close>

section \<open>Collections\<close>

named_theorems frame \<open>which parts of the state an operation leaves alone\<close>
named_theorems nofault \<open>what an operation does when no service call fails\<close>
named_theorems golib \<open>behaviour of the modelled standard library\<close>

section \<open>Errors as values\<close>

text \<open>
  The sentinel errors of the program and of the drivers it tests for with \<open>errors.Is\<close>, plain
  \<open>errors.New\<close> messages, and \<open>fmt.Errorf("...: %w", err)\<close> wrapping.
\<close>

datatype error =
    ErrNotFound | ErrInvalid | ErrInactive | ErrExpired
  | ErrUnauthorized
  | ErrNoRows
  | Err string
  | ErrWrap string error

type_synonym 'a result = "error + 'a"

fun errors_is :: "error \<Rightarrow> error \<Rightarrow> bool" where
  "errors_is (ErrWrap m e) t = (ErrWrap m e = t \<or> errors_is e t)"
| "errors_is e t = (e = t)"

section \<open>64-bit signed integers\<close>

text \<open>Go's \<open>int\<close> and \<open>int64\<close> on the 64-bit targets the image is built for.\<close>

definition wrap64 :: "int \<Rightarrow> int" where
  "wrap64 x = (x + 2 ^ 63) mod 2 ^ 64 - 2 ^ 63"

definition int64_range :: "int \<Rightarrow> bool" where
  "int64_range x \<longleftrightarrow> - (2 ^ 63) \<le> x \<and> x < 2 ^ 63"

lemma wrap64_id [simp]: "int64_range x \<Longrightarrow> wrap64 x = x"
  by (simp add: wrap64_def int64_range_def)

lemma wrap64_range [simp]: "int64_range (wrap64 x)"
  by (simp add: wrap64_def int64_range_def)

lemma wrap64_sint: "wrap64 x = sint (word_of_int x :: 64 word)"
  by (simp add: wrap64_def sint_sbintrunc' signed_take_bit_eq_take_bit_shift take_bit_eq_mod)

text \<open>Go's integer division truncates towards zero.\<close>

definition go_quot :: "int \<Rightarrow> int \<Rightarrow> int" where
  "go_quot x y = (if (0 \<le> x) = (0 \<le> y) then \<bar>x\<bar> div \<bar>y\<bar> else - (\<bar>x\<bar> div \<bar>y\<bar>))"

lemma go_quot_nonneg [simp]: "0 \<le> x \<Longrightarrow> 0 < y \<Longrightarrow> go_quot x y = x div y"
  by (simp add: go_quot_def)

text \<open>The range of an \<open>INTEGER\<close> column.\<close>

definition int4_range :: "int \<Rightarrow> bool" where
  "int4_range x \<longleftrightarrow> - (2 ^ 31) \<le> x \<and> x < 2 ^ 31"

section \<open>Lists\<close>

text \<open>The last \<open>n\<close> elements of a list.\<close>

definition lastn :: "nat \<Rightarrow> 'a list \<Rightarrow> 'a list" where
  "lastn n xs = drop (length xs - n) xs"

lemma length_lastn [simp]: "length (lastn n xs) = min n (length xs)"
  by (simp add: lastn_def)

lemma lastn_all [simp]: "length xs \<le> n \<Longrightarrow> lastn n xs = xs"
  by (simp add: lastn_def)

lemma lastn_append_lastn: "lastn n (lastn n xs @ ys) = lastn n (xs @ ys)"
proof (cases "length xs \<le> n")
  case False
  then have "drop (length xs - n) xs @ ys = drop (length xs - n) (xs @ ys)"
    by simp
  with False show ?thesis
    by (simp add: lastn_def add.commute)
qed simp

lemma suffix_lastn: "suffix (lastn n xs) xs"
  by (simp add: lastn_def suffix_drop)

lemma distinct_map_filter_single:
  assumes "distinct (map f xs)" "x \<in> set xs"
  shows "filter (\<lambda>y. f y = f x) xs = [x]"
  using assms
proof (induction xs)
  case (Cons y ys)
  show ?case
  proof (cases "y = x")
    case True
    with Cons.prems(1) have "\<forall>z \<in> set ys. f z \<noteq> f x"
      by (metis distinct.simps(2) image_eqI list.set_map list.simps(9))
    with True show ?thesis by simp
  next
    case False
    with Cons.prems have "x \<in> set ys" by simp
    with Cons.prems(1) have "f y \<noteq> f x" by (metis distinct.simps(2) image_eqI list.set_map list.simps(9))
    with Cons \<open>x \<in> set ys\<close> show ?thesis by simp
  qed
qed simp

lemma find_distinct_map:
  assumes "distinct (map f xs)" "x \<in> set xs"
  shows "find (\<lambda>y. f y = f x) xs = Some x"
  using assms by (induction xs) (auto simp: image_iff)

lemma find_eq_None: "find P xs = None \<longleftrightarrow> (\<forall>x \<in> set xs. \<not> P x)"
  by (induction xs) auto

lemma find_SomeD: "find P xs = Some x \<Longrightarrow> x \<in> set xs \<and> P x"
  by (induction xs) (auto split: if_splits)

lemma map_if_id: "\<forall>x \<in> set xs. \<not> P x \<Longrightarrow> map (\<lambda>x. if P x then f x else x) xs = xs"
  by (induction xs) auto

section \<open>Interfaces\<close>

text \<open>A transition system with a property of its start states that every move keeps.\<close>

locale invariant_system =
  fixes start :: "'s \<Rightarrow> bool" and move :: "'s \<Rightarrow> 's \<Rightarrow> bool" and inv :: "'s \<Rightarrow> bool"
  assumes start_inv: "start s \<Longrightarrow> inv s"
    and move_inv: "inv s \<Longrightarrow> move s t \<Longrightarrow> inv t"
begin

lemma move_many: "move\<^sup>*\<^sup>* s t \<Longrightarrow> inv s \<Longrightarrow> inv t"
  by (induction rule: rtranclp_induct) (auto intro: move_inv)

lemma always: "start s \<Longrightarrow> move\<^sup>*\<^sup>* s t \<Longrightarrow> inv t"
  using start_inv move_many by blast

end

end
