(* ===== verification/GoLib.thy ===== *)
theory GoLib
  imports Prelude
begin

text \<open>
  The part of Go's standard library the program calls on strings: \<open>strings\<close>, \<open>bytes\<close>, \<open>strconv\<close>,
  \<open>encoding/hex\<close>, \<open>encoding/base64\<close> and \<open>crypto/subtle\<close>.  A Go string is a byte sequence, and so is
  a HOL \<^typ>\<open>string\<close> (a \<^typ>\<open>char\<close> is one byte), so \<open>len\<close> is \<^const>\<open>length\<close> and slicing is
  \<^const>\<open>take\<close>/\<^const>\<open>drop\<close>.
\<close>

section \<open>strings and bytes\<close>

definition HasPrefix :: "string \<Rightarrow> string \<Rightarrow> bool" where
  "HasPrefix s p \<longleftrightarrow> prefix p s"

definition HasSuffix :: "string \<Rightarrow> string \<Rightarrow> bool" where
  "HasSuffix s p \<longleftrightarrow> suffix p s"

definition Contains :: "string \<Rightarrow> string \<Rightarrow> bool" where
  "Contains s p \<longleftrightarrow> sublist p s"

definition CutPrefix :: "string \<Rightarrow> string \<Rightarrow> string \<times> bool" where
  "CutPrefix s p = (if HasPrefix s p then (drop (length p) s, True) else (s, False))"

definition TrimSuffix :: "string \<Rightarrow> string \<Rightarrow> string" where
  "TrimSuffix s p = (if HasSuffix s p then take (length s - length p) s else s)"

definition Repeat :: "string \<Rightarrow> nat \<Rightarrow> string" where
  "Repeat s n = concat (replicate n s)"

text \<open>\<open>strings.Split\<close> and \<open>strings.SplitN(_, _, 2)\<close> with a separator of one byte.\<close>

fun Split :: "string \<Rightarrow> char \<Rightarrow> string list" where
  "Split [] c = [[]]"
| "Split (x # xs) c =
     (if x = c then [] # Split xs c
      else (case Split xs c of [] \<Rightarrow> [[x]] | p # ps \<Rightarrow> (x # p) # ps))"

definition SplitN2 :: "string \<Rightarrow> char \<Rightarrow> string list" where
  "SplitN2 s c =
     (if c \<in> set s then [takeWhile (\<lambda>x. x \<noteq> c) s, tl (dropWhile (\<lambda>x. x \<noteq> c) s)] else [s])"

text \<open>\<open>strings.LastIndex\<close> with a separator of one byte: \<open>-1\<close> when it does not occur.\<close>

fun LastIndex :: "string \<Rightarrow> char \<Rightarrow> int" where
  "LastIndex [] c = -1"
| "LastIndex (x # xs) c =
     (let i = LastIndex xs c in if 0 \<le> i then i + 1 else if x = c then 0 else -1)"

text \<open>
  \<open>TrimSpace\<close> removes the code points with the Unicode property White_Space from both ends; these are
  their UTF-8 encodings.
\<close>

definition space_seqs :: "string list" where
  "space_seqs =
     [[CHR 0x09], [CHR 0x0A], [CHR 0x0B], [CHR 0x0C], [CHR 0x0D], [CHR 0x20],
      [CHR 0xC2, CHR 0x85], [CHR 0xC2, CHR 0xA0], [CHR 0xE1, CHR 0x9A, CHR 0x80]]
     @ map (\<lambda>c. [CHR 0xE2, CHR 0x80, c])
         [CHR 0x80, CHR 0x81, CHR 0x82, CHR 0x83, CHR 0x84, CHR 0x85, CHR 0x86,
          CHR 0x87, CHR 0x88, CHR 0x89, CHR 0x8A, CHR 0xA8, CHR 0xA9, CHR 0xAF]
     @ [[CHR 0xE2, CHR 0x81, CHR 0x9F], [CHR 0xE3, CHR 0x80, CHR 0x80]]"

fun trim_with :: "nat \<Rightarrow> string list \<Rightarrow> string \<Rightarrow> string" where
  "trim_with 0 seqs s = s"
| "trim_with (Suc n) seqs s =
     (case find (\<lambda>p. prefix p s) seqs of
        None \<Rightarrow> s
      | Some p \<Rightarrow> trim_with n seqs (drop (length p) s))"

definition TrimLeftSpace :: "string \<Rightarrow> string" where
  "TrimLeftSpace s = trim_with (length s) space_seqs s"

definition TrimRightSpace :: "string \<Rightarrow> string" where
  "TrimRightSpace s = rev (trim_with (length s) (map rev space_seqs) (rev s))"

definition TrimSpace :: "string \<Rightarrow> string" where
  "TrimSpace s = TrimRightSpace (TrimLeftSpace s)"

text \<open>\<open>subtle.ConstantTimeCompare\<close> returns 1 exactly when the two slices have equal contents.\<close>

definition ConstantTimeCompare :: "string \<Rightarrow> string \<Rightarrow> int" where
  "ConstantTimeCompare a b = (if a = b then 1 else 0)"

section \<open>strconv\<close>

definition digit_char :: "nat \<Rightarrow> char" where
  "digit_char d = char_of (48 + d)"

definition is_digit :: "char \<Rightarrow> bool" where
  "is_digit c \<longleftrightarrow> 48 \<le> (of_char c :: nat) \<and> (of_char c :: nat) \<le> 57"

definition digit_val :: "char \<Rightarrow> nat" where
  "digit_val c = of_char c - 48"

fun dec_digits :: "nat \<Rightarrow> string" where
  "dec_digits n = (if n < 10 then [digit_char n] else dec_digits (n div 10) @ [digit_char (n mod 10)])"

declare dec_digits.simps [simp del]

definition FormatInt :: "int \<Rightarrow> string" where
  "FormatInt n = (if n < 0 then CHR ''-'' # dec_digits (nat (- n)) else dec_digits (nat n))"

definition dec_value :: "string \<Rightarrow> nat" where
  "dec_value s = foldl (\<lambda>n c. 10 * n + digit_val c) 0 s"

definition ParseUint :: "string \<Rightarrow> nat option" where
  "ParseUint s = (if s \<noteq> [] \<and> list_all is_digit s then Some (dec_value s) else None)"

text \<open>\<open>strconv.ParseInt(s, 10, 64)\<close>, and \<open>strconv.Atoi\<close>, which agrees with it; \<^term>\<open>None\<close> is any error.\<close>

definition ParseInt :: "string \<Rightarrow> int option" where
  "ParseInt s =
     (case s of
        [] \<Rightarrow> None
      | c # cs \<Rightarrow>
         if c = CHR ''-'' then
           (case ParseUint cs of
              None \<Rightarrow> None
            | Some u \<Rightarrow> if u \<le> 2 ^ 63 then Some (- int u) else None)
         else
           (case ParseUint (if c = CHR ''+'' then cs else s) of
              None \<Rightarrow> None
            | Some u \<Rightarrow> if u < 2 ^ 63 then Some (int u) else None))"

abbreviation Atoi :: "string \<Rightarrow> int option" where
  "Atoi \<equiv> ParseInt"

section \<open>encoding/hex\<close>

definition hex_digit :: "nat \<Rightarrow> char" where
  "hex_digit d = (if d < 10 then char_of (48 + d) else char_of (87 + d))"

definition hex_val :: "char \<Rightarrow> nat option" where
  "hex_val c =
     (let n = (of_char c :: nat) in
      if 48 \<le> n \<and> n \<le> 57 then Some (n - 48)
      else if 97 \<le> n \<and> n \<le> 102 then Some (n - 87)
      else if 65 \<le> n \<and> n \<le> 70 then Some (n - 55)
      else None)"

fun hex_encode :: "string \<Rightarrow> string" where
  "hex_encode [] = []"
| "hex_encode (c # cs) =
     hex_digit (of_char c div 16) # hex_digit (of_char c mod 16) # hex_encode cs"

fun hex_decode :: "string \<Rightarrow> string option" where
  "hex_decode [] = Some []"
| "hex_decode [_] = None"
| "hex_decode (a # b # cs) =
     (case (hex_val a, hex_val b, hex_decode cs) of
        (Some x, Some y, Some r) \<Rightarrow> Some (char_of (16 * x + y) # r)
      | _ \<Rightarrow> None)"

section \<open>encoding/base64: RawURLEncoding\<close>

definition b64_alphabet :: string where
  "b64_alphabet =
     ''ABCDEFGHIJKLMNOPQRSTUVWXYZabcdefghijklmnopqrstuvwxyz0123456789-_''"

definition b64 :: "nat \<Rightarrow> char" where
  "b64 n = b64_alphabet ! (n mod 64)"

definition byte :: "char \<Rightarrow> nat" where
  "byte c = of_char c"

fun b64_encode :: "string \<Rightarrow> string" where
  "b64_encode [] = []"
| "b64_encode [a] = [b64 (byte a div 4), b64 (byte a mod 4 * 16)]"
| "b64_encode [a, b] =
     [b64 (byte a div 4), b64 (byte a mod 4 * 16 + byte b div 16), b64 (byte b mod 16 * 4)]"
| "b64_encode (a # b # c # r) =
     [b64 (byte a div 4), b64 (byte a mod 4 * 16 + byte b div 16),
      b64 (byte b mod 16 * 4 + byte c div 64), b64 (byte c mod 64)] @ b64_encode r"

section \<open>Laws\<close>

subsection \<open>Prefixes, cutting and splitting\<close>

lemma HasPrefix_append [simp, golib]: "HasPrefix (p @ s) p"
  by (simp add: HasPrefix_def)

lemma HasPrefix_conv: "HasPrefix s p \<longleftrightarrow> (\<exists>t. s = p @ t)"
  by (simp add: HasPrefix_def prefix_def)

lemma CutPrefix_append [simp, golib]: "CutPrefix (p @ s) p = (s, True)"
  by (simp add: CutPrefix_def)

lemma CutPrefix_True: "CutPrefix s p = (r, True) \<longleftrightarrow> s = p @ r"
  by (auto simp: CutPrefix_def HasPrefix_conv split: if_splits)

lemma Split_nonempty [simp]: "Split s c \<noteq> []"
  by (induction s) (auto split: list.splits)

lemma Split_notin [golib]: "c \<notin> set s \<Longrightarrow> Split s c = [s]"
  by (induction s) auto

lemma Split_append [golib]: "c \<notin> set p \<Longrightarrow> Split (p @ c # s) c = p # Split s c"
  by (induction p) auto

lemma Split_parts_notin: "p \<in> set (Split s c) \<Longrightarrow> c \<notin> set p"
  by (induction s arbitrary: p) (auto split: if_splits list.splits)

lemma takeWhile_neq_append: "c \<notin> set a \<Longrightarrow> takeWhile (\<lambda>x. x \<noteq> c) (a @ c # b) = a"
  by (induction a) auto

lemma dropWhile_neq_append: "c \<notin> set a \<Longrightarrow> dropWhile (\<lambda>x. x \<noteq> c) (a @ c # b) = c # b"
  by (induction a) auto

lemma SplitN2_append [golib]: "c \<notin> set a \<Longrightarrow> SplitN2 (a @ c # b) c = [a, b]"
  by (simp add: SplitN2_def takeWhile_neq_append dropWhile_neq_append)

lemma SplitN2_two: "SplitN2 s c = [a, b] \<longleftrightarrow> s = a @ c # b \<and> c \<notin> set a"
proof
  assume l: "SplitN2 s c = [a, b]"
  then have c: "c \<in> set s" and a: "a = takeWhile (\<lambda>x. x \<noteq> c) s"
    and b: "b = tl (dropWhile (\<lambda>x. x \<noteq> c) s)"
    by (auto simp: SplitN2_def split: if_splits)
  from c obtain p q where s: "s = p @ c # q" and "c \<notin> set p"
    by (meson split_list_first)
  with a b show "s = a @ c # b \<and> c \<notin> set a"
    by (simp add: takeWhile_neq_append dropWhile_neq_append)
qed (auto simp: SplitN2_append)

lemma LastIndex_bounds: "-1 \<le> LastIndex s c \<and> LastIndex s c < int (length s)"
  by (induction s) (auto simp: Let_def)

lemma LastIndex_ge: "-1 \<le> LastIndex s c"
  by (simp add: LastIndex_bounds)

lemma LastIndex_less: "LastIndex s c < int (length s)"
  by (simp add: LastIndex_bounds)

lemma LastIndex_neg_iff: "LastIndex s c < 0 \<longleftrightarrow> c \<notin> set s"
proof (induction s)
  case (Cons x xs)
  then show ?case using LastIndex_ge [of xs c] by (auto simp: Let_def)
qed simp

lemma ConstantTimeCompare_1 [simp, golib]: "ConstantTimeCompare a b = 1 \<longleftrightarrow> a = b"
  by (simp add: ConstantTimeCompare_def)

subsection \<open>Trimming\<close>

lemma space_seqs_nonempty: "[] \<notin> set space_seqs"
  by (simp add: space_seqs_def)

lemma space_seqs_rev_nonempty: "[] \<notin> set (map rev space_seqs)"
  using space_seqs_nonempty by auto

lemma trim_with_done:
  assumes "[] \<notin> set seqs" "length s \<le> n" "p \<in> set seqs"
  shows "\<not> prefix p (trim_with n seqs s)"
  using assms(2)
proof (induction n arbitrary: s)
  case 0
  with assms(1,3) show ?case by auto
next
  case (Suc n)
  show ?case
  proof (cases "find (\<lambda>p. prefix p s) seqs")
    case None
    with assms(3) have "\<not> prefix p s" by (simp add: find_eq_None)
    with None show ?thesis by simp
  next
    case (Some q)
    then have "q \<in> set seqs" by (auto dest: find_SomeD)
    with assms(1) have "length q > 0" by auto
    with Suc.prems have "length s - length q \<le> n" by linarith
    then have "length (drop (length q) s) \<le> n" by simp
    then show ?thesis using Suc.IH Some by simp
  qed
qed

lemma trim_with_id: "\<forall>p \<in> set seqs. \<not> prefix p s \<Longrightarrow> trim_with n seqs s = s"
  by (cases n) (auto simp: find_eq_None [THEN iffD2])

lemma trim_with_suffix: "suffix (trim_with n seqs s) s"
  by (induction n arbitrary: s)
     (auto split: option.splits intro: suffix_drop suffix_order.trans)

lemma TrimLeftSpace_done: "p \<in> set space_seqs \<Longrightarrow> \<not> prefix p (TrimLeftSpace s)"
  by (simp add: TrimLeftSpace_def trim_with_done space_seqs_nonempty)

lemma TrimRightSpace_prefix: "prefix (TrimRightSpace s) s"
  using trim_with_suffix [of "length s" "map rev space_seqs" "rev s"]
  by (simp add: TrimRightSpace_def suffix_to_prefix)

lemma TrimRightSpace_done:
  assumes "p \<in> set space_seqs"
  shows "\<not> suffix p (TrimRightSpace s)"
proof -
  from assms have "\<not> prefix (rev p) (trim_with (length s) (map rev space_seqs) (rev s))"
    by (intro trim_with_done space_seqs_rev_nonempty) auto
  then show ?thesis by (simp add: TrimRightSpace_def suffix_to_prefix)
qed

lemma TrimSpace_left: "p \<in> set space_seqs \<Longrightarrow> \<not> prefix p (TrimSpace s)"
  using TrimLeftSpace_done TrimRightSpace_prefix
  by (metis TrimSpace_def prefix_order.trans)

lemma TrimSpace_right: "p \<in> set space_seqs \<Longrightarrow> \<not> suffix p (TrimSpace s)"
  by (simp add: TrimSpace_def TrimRightSpace_done)

lemma TrimSpace_idem [simp, golib]: "TrimSpace (TrimSpace s) = TrimSpace s"
proof -
  have "TrimLeftSpace (TrimSpace s) = TrimSpace s"
    by (simp add: TrimLeftSpace_def trim_with_id TrimSpace_left)
  moreover have "TrimRightSpace (TrimSpace s) = TrimSpace s"
    unfolding TrimRightSpace_def
    by (subst trim_with_id) (auto simp: suffix_to_prefix [symmetric] TrimSpace_right)
  ultimately show ?thesis by (simp add: TrimSpace_def [of "TrimSpace s"])
qed

lemma TrimSpace_sublist: "sublist (TrimSpace s) s"
  using TrimRightSpace_prefix [of "TrimLeftSpace s"] trim_with_suffix [of "length s" space_seqs s]
  by (metis TrimLeftSpace_def TrimSpace_def prefix_imp_sublist sublist_order.order.trans suffix_imp_sublist)

subsection \<open>Decimal numbers\<close>

lemma of_char_digit_char [simp]: "d < 10 \<Longrightarrow> of_char (digit_char d) = 48 + d"
  by (simp add: digit_char_def)

lemma is_digit_digit_char [simp]: "d < 10 \<Longrightarrow> is_digit (digit_char d)"
  by (simp add: is_digit_def)

lemma digit_val_digit_char [simp]: "d < 10 \<Longrightarrow> digit_val (digit_char d) = d"
  by (simp add: digit_val_def)

lemma dec_digits_digits: "list_all is_digit (dec_digits n)"
proof (induction n rule: dec_digits.induct)
  case (1 n)
  then show ?case by (subst dec_digits.simps) auto
qed

lemma dec_digits_nonempty [simp]: "dec_digits n \<noteq> []"
  by (subst dec_digits.simps) simp

lemma dec_value_snoc: "dec_value (s @ [c]) = 10 * dec_value s + digit_val c"
  by (simp add: dec_value_def)

lemma dec_value_digits [simp]: "dec_value (dec_digits n) = n"
proof (induction n rule: dec_digits.induct)
  case (1 n)
  show ?case
  proof (cases "n < 10")
    case True
    then show ?thesis by (subst dec_digits.simps) (simp add: dec_value_def)
  next
    case False
    with 1 have "dec_value (dec_digits (n div 10)) = n div 10" by simp
    with False show ?thesis by (subst dec_digits.simps) (simp add: dec_value_snoc)
  qed
qed

lemma ParseUint_digits [simp]: "ParseUint (dec_digits n) = Some n"
  by (simp add: ParseUint_def dec_digits_digits)

lemma hd_dec_digits: "is_digit (hd (dec_digits n))"
  using dec_digits_digits [of n] by (cases "dec_digits n") auto

lemma not_digit_punct [simp]:
  "\<not> is_digit (CHR ''-'')" "\<not> is_digit (CHR ''+'')" "\<not> is_digit (CHR ''.'')" "\<not> is_digit (CHR '':'')"
  by (simp_all add: is_digit_def)

theorem ParseInt_FormatInt [golib]: "int64_range n \<Longrightarrow> ParseInt (FormatInt n) = Some n"
proof (cases "n < 0")
  case True
  assume "int64_range n"
  with True show ?thesis by (simp add: ParseInt_def FormatInt_def int64_range_def)
next
  case False
  assume r: "int64_range n"
  obtain c cs where d: "dec_digits (nat n) = c # cs" by (cases "dec_digits (nat n)") auto
  with hd_dec_digits [of "nat n"] have "is_digit c" by simp
  then have "c \<noteq> CHR ''-''" "c \<noteq> CHR ''+''" by auto
  with False d r show ?thesis
    using ParseUint_digits [of "nat n"]
    by (auto simp: ParseInt_def FormatInt_def int64_range_def)
qed

lemma FormatInt_inj: "FormatInt m = FormatInt n \<longleftrightarrow> m = n"
proof
  assume e: "FormatInt m = FormatInt n"
  have h: "hd (dec_digits k) \<noteq> CHR ''-''" for k
    using hd_dec_digits [of k] by auto
  have inj: "dec_digits i = dec_digits j \<longleftrightarrow> i = j" for i j
    by (metis dec_value_digits)
  from e h show "m = n"
    by (auto simp: FormatInt_def inj split: if_splits) (metis list.sel(1))+
qed simp

lemma FormatInt_chars: "c \<in> set (FormatInt n) \<Longrightarrow> is_digit c \<or> c = CHR ''-''"
  using dec_digits_digits by (auto simp: FormatInt_def list_all_iff split: if_splits)

lemma FormatInt_nonempty [simp]: "FormatInt n \<noteq> []"
  by (simp add: FormatInt_def)

lemma FormatInt_no_dot [simp]: "CHR ''.'' \<notin> set (FormatInt n)"
  using FormatInt_chars by fastforce

lemma ParseInt_range: "ParseInt s = Some n \<Longrightarrow> int64_range n"
  by (auto simp: ParseInt_def int64_range_def split: list.splits if_splits option.splits)

subsection \<open>Hexadecimal and base64\<close>

lemma hex_val_digit [simp]: "d < 16 \<Longrightarrow> hex_val (hex_digit d) = Some d"
  by (simp add: hex_val_def hex_digit_def Let_def)

lemma of_char_div16 [simp]: "(of_char c :: nat) div 16 < 16"
  by (rule less_mult_imp_div_less) simp

lemma hex_decode_encode [simp, golib]: "hex_decode (hex_encode s) = Some s"
proof (induction s)
  case (Cons c s)
  then show ?case by simp
qed simp

lemma length_hex_encode [simp]: "length (hex_encode s) = 2 * length s"
  by (induction s) auto

lemma hex_digit_not_dollar: "d < 16 \<Longrightarrow> hex_digit d \<noteq> CHR ''$''"
proof
  assume "d < 16" "hex_digit d = CHR ''$''"
  then have "hex_val (CHR ''$'') = Some d" using hex_val_digit by metis
  then show False by (simp add: hex_val_def)
qed

lemma hex_encode_no_dollar [simp]: "CHR ''$'' \<notin> set (hex_encode s)"
proof (induction s)
  case (Cons c s)
  have "hex_digit (of_char c div 16) \<noteq> CHR ''$''" "hex_digit (of_char c mod 16) \<noteq> CHR ''$''"
    by (simp_all add: hex_digit_not_dollar)
  with Cons show ?case by auto
qed simp

lemma hex_decode_length: "hex_decode s = Some r \<Longrightarrow> length s = 2 * length r"
  by (induction s arbitrary: r rule: hex_decode.induct) (auto split: option.splits)

lemma length_b64_alphabet: "length b64_alphabet = 64"
  by (simp add: b64_alphabet_def)

lemma b64_in_alphabet: "b64 n \<in> set b64_alphabet"
  by (simp add: b64_def length_b64_alphabet)

lemma set_b64_encode: "set (b64_encode s) \<subseteq> set b64_alphabet"
  by (induction s rule: b64_encode.induct) (auto simp: b64_in_alphabet)

lemma length_b64_encode_3: "length s = 3 * n \<Longrightarrow> length (b64_encode s) = 4 * n"
proof (induction s arbitrary: n rule: b64_encode.induct)
  case (4 a b c r)
  then obtain m where "n = Suc m" by (cases n) auto
  with 4 show ?case by simp
qed auto

lemma byte_less [simp]: "byte c < 256"
  by (simp add: byte_def)

lemma b64_alphabet_distinct: "distinct b64_alphabet"
  by (simp add: b64_alphabet_def)

lemma b64_eq: "m < 64 \<Longrightarrow> n < 64 \<Longrightarrow> b64 m = b64 n \<longleftrightarrow> m = n"
  by (simp add: b64_def nth_eq_iff_index_eq b64_alphabet_distinct length_b64_alphabet)

lemma byte_inj: "byte a = byte b \<longleftrightarrow> a = b"
  by (simp add: byte_def)

subsection \<open>Evaluation\<close>

text \<open>The conversions computed on \<^typ>\<open>int\<close>, so that concrete numerals evaluate in binary.\<close>

definition dec_value_int :: "string \<Rightarrow> int" where
  "dec_value_int s = foldl (\<lambda>n c. 10 * n + (of_char c - 48)) 0 s"

lemma of_char_int: "int (of_char c) = of_char c"
  by (cases c) (simp add: of_char_def)

lemma dec_value_int_append: "dec_value_int (s @ [c]) = 10 * dec_value_int s + (of_char c - 48)"
  by (simp add: dec_value_int_def)

lemma dec_value_int: "list_all is_digit s \<Longrightarrow> int (dec_value s) = dec_value_int s"
proof (induction s rule: rev_induct)
  case (snoc c s)
  have "int (digit_val c) = of_char c - 48"
    using snoc.prems by (auto simp: digit_val_def is_digit_def of_nat_diff of_char_int)
  with snoc show ?case by (simp add: dec_value_int_append) (simp add: dec_value_def)
qed (simp add: dec_value_def dec_value_int_def)

lemma is_digit_code [code]: "is_digit c \<longleftrightarrow> 48 \<le> (of_char c :: int) \<and> (of_char c :: int) \<le> 57"
  unfolding is_digit_def using of_char_int [of c] by linarith

lemma ParseInt_code [code]:
  "ParseInt s =
     (case s of
        [] \<Rightarrow> None
      | c # cs \<Rightarrow>
         if c = CHR ''-'' then
           if cs \<noteq> [] \<and> list_all is_digit cs \<and> dec_value_int cs \<le> 2 ^ 63 then Some (- dec_value_int cs) else None
         else
           let ds = (if c = CHR ''+'' then cs else s) in
           if ds \<noteq> [] \<and> list_all is_digit ds \<and> dec_value_int ds < 2 ^ 63 then Some (dec_value_int ds) else None)"
proof -
  have U: "ParseUint ds = (if ds \<noteq> [] \<and> list_all is_digit ds then Some (nat (dec_value_int ds)) else None)" for ds
    using dec_value_int [of ds] by (auto simp: ParseUint_def)
  have pos: "list_all is_digit ds \<Longrightarrow> 0 \<le> dec_value_int ds" for ds
    using dec_value_int [of ds] by linarith
  have le: "list_all is_digit ds \<Longrightarrow> nat (dec_value_int ds) \<le> 2 ^ 63 \<longleftrightarrow> dec_value_int ds \<le> 2 ^ 63"
    "list_all is_digit ds \<Longrightarrow> nat (dec_value_int ds) < 2 ^ 63 \<longleftrightarrow> dec_value_int ds < 2 ^ 63" for ds
    using pos [of ds] by (simp_all add: nat_le_iff nat_less_iff)
  show ?thesis
    by (cases s) (simp_all only: ParseInt_def U Let_def list.case, auto simp: pos le simp del: list_all_iff list.pred_inject power_numeral)
qed

function dec_digits_int :: "int \<Rightarrow> string" where
  "dec_digits_int n =
     (if n < 10 then [char_of (48 + n)] else dec_digits_int (n div 10) @ [char_of (48 + n mod 10)])"
  by auto
termination by (relation "measure nat") auto

declare dec_digits_int.simps [simp del]

lemma char_of_int: "char_of (int n) = char_of n"
  by (simp add: char_of_def bit_of_nat_iff_bit)

lemma dec_digits_int: "dec_digits_int (int n) = dec_digits n"
proof (induction n rule: dec_digits.induct)
  case (1 n)
  have d: "char_of (48 + int m) = digit_char m" for m
    using char_of_int [of "48 + m"] by (simp add: digit_char_def)
  show ?case
  proof (cases "n < 10")
    case True
    then show ?thesis by (simp add: dec_digits_int.simps [of "int n"] dec_digits.simps [of n] d)
  next
    case False
    have "int n div 10 = int (n div 10)" "int n mod 10 = int (n mod 10)" by (simp_all add: zdiv_int zmod_int)
    with False 1 show ?thesis
      by (simp add: dec_digits_int.simps [of "int n"] dec_digits.simps [of n] d)
  qed
qed

lemma FormatInt_code [code]:
  "FormatInt n = (if n < 0 then CHR ''-'' # dec_digits_int (- n) else dec_digits_int n)"
  using dec_digits_int [of "nat n"] dec_digits_int [of "nat (- n)"] by (auto simp: FormatInt_def)

end
