(* ===== verification/Float64.thy ===== *)
theory Float64
  imports Prelude "HOL-Library.Log_Nat"
begin

text \<open>
  Go's \<open>float64\<close> arithmetic.  A finite double is represented by its exact rational value, and every
  operation is the exact operation followed by IEEE 754 rounding to nearest, ties to even
  (\<open>round64\<close>, executable).  Overflow to infinity and the sign of zero are outside this representation.
  The client interface is the locale \<open>rounding\<close>: what the cost computation needs of a rounding function,
  interpreted here on \<open>round64\<close>.  Also here: the decimal roundings the program's money values go through,
  \<open>%f\<close> of package \<open>fmt\<close> and the columns of type \<open>NUMERIC(14,8)\<close>.
\<close>

section \<open>Definitions\<close>

text \<open>The binary exponent of a positive rational.\<close>

definition ilog2 :: "rat \<Rightarrow> int" where
  "ilog2 x =
     (case quotient_of x of (p, q) \<Rightarrow>
        let e = bitlen p - bitlen q in if 2 powi e \<le> x then e else e - 1)"

text \<open>Round to the nearest integer, ties to even.\<close>

definition rne :: "rat \<Rightarrow> int" where
  "rne x =
     (let f = \<lfloor>x\<rfloor>; r = x - of_int f in
      if r < 1/2 then f else if 1/2 < r then f + 1 else if even f then f else f + 1)"

text \<open>Exponent of the unit in the last place: 53 significant bits, least exponent -1074.\<close>

definition ulp_exp :: "rat \<Rightarrow> int" where
  "ulp_exp x = max (ilog2 \<bar>x\<bar>) (-1022) - 52"

definition round64 :: "rat \<Rightarrow> rat" where
  "round64 x =
     (if x = 0 then 0 else of_int (rne (x / 2 powi ulp_exp x)) * 2 powi ulp_exp x)"

text \<open>The unit roundoff and the least positive normal number.\<close>

definition unit_roundoff :: rat where
  "unit_roundoff = 2 powi (-53)"

definition min_normal :: rat where
  "min_normal = 2 powi (-1022)"

definition float_of_int :: "int \<Rightarrow> rat" where
  "float_of_int n = round64 (of_int n)"

definition fadd :: "rat \<Rightarrow> rat \<Rightarrow> rat" where
  "fadd x y = round64 (x + y)"

definition fmul :: "rat \<Rightarrow> rat \<Rightarrow> rat" where
  "fmul x y = round64 (x * y)"

definition fdiv :: "rat \<Rightarrow> rat \<Rightarrow> rat" where
  "fdiv x y = round64 (x / y)"

text \<open>\<open>fmt.Sprintf("%f", x)\<close> read back as a number: six decimals, exact ties to even.\<close>

definition fmt_f :: "rat \<Rightarrow> rat" where
  "fmt_f x = of_int (rne (x * 10 ^ 6)) / 10 ^ 6"

text \<open>Assignment to a column of type \<open>NUMERIC(14,8)\<close>: eight decimals, ties away from zero, at most six
  integer digits (\<^term>\<open>None\<close> is the server's numeric field overflow error).\<close>

definition numeric_14_8 :: "rat \<Rightarrow> rat option" where
  "numeric_14_8 x =
     (let n = \<lfloor>\<bar>x\<bar> * 10 ^ 8 + 1/2\<rfloor>; v = (if x < 0 then - of_int n else of_int n) / 10 ^ 8 in
      if n < 10 ^ 14 then Some v else None)"

section \<open>Integer rounding\<close>

lemma rne_of_int [simp]: "rne (of_int n) = n"
  by (simp add: rne_def)

lemma rne_bounds: "\<lfloor>x\<rfloor> \<le> rne x \<and> rne x \<le> \<lfloor>x\<rfloor> + 1"
  by (auto simp: rne_def Let_def)

lemma rne_error: "\<bar>of_int (rne x) - x\<bar> \<le> 1/2"
  unfolding rne_def Let_def abs_le_iff by (simp; linarith)

lemma rne_mono: "x \<le> y \<Longrightarrow> rne x \<le> rne y"
proof -
  assume le: "x \<le> y"
  show ?thesis
  proof (cases "\<lfloor>x\<rfloor> = \<lfloor>y\<rfloor>")
    case True
    with le show ?thesis by (auto simp: rne_def Let_def)
  next
    case False
    with le have "\<lfloor>x\<rfloor> + 1 \<le> \<lfloor>y\<rfloor>" by (meson antisym_conv1 floor_mono zless_imp_add1_zle)
    then show ?thesis using rne_bounds [of x] rne_bounds [of y] by linarith
  qed
qed

lemma rne_uminus [simp]: "rne (- x) = - rne x"
proof (cases "x = of_int \<lfloor>x\<rfloor>")
  case True
  then show ?thesis by (metis of_int_minus rne_of_int)
next
  case False
  have l: "of_int \<lfloor>x\<rfloor> \<le> x" "x < of_int \<lfloor>x\<rfloor> + 1" by linarith+
  with False have "of_int \<lfloor>x\<rfloor> < x" by linarith
  with l have f: "\<lfloor>- x\<rfloor> = - \<lfloor>x\<rfloor> - 1"
    by (intro floor_unique) auto
  show ?thesis unfolding rne_def f by (auto simp: Let_def)
qed

section \<open>The binary exponent\<close>

lemma power2_int: "(2 :: rat) powi e > 0"
  by simp

lemma powi_split: "(2 :: rat) powi (a + b) = 2 powi a * 2 powi b"
  by (simp add: power_int_add)

lemma powi_mono: "a \<le> b \<Longrightarrow> (2 :: rat) powi a \<le> 2 powi b"
  by (simp add: power_int_increasing)

lemma powi_less_iff: "(2 :: rat) powi a < 2 powi b \<longleftrightarrow> a < b"
  by (metis linorder_not_less powi_mono one_less_numeral_iff power_int_strict_increasing semiring_norm(76))

lemma bitlen_powi:
  assumes "0 < p"
  shows "2 powi (bitlen p - 1) \<le> (of_int p :: rat)" "(of_int p :: rat) < 2 powi (bitlen p)"
proof -
  have b: "1 \<le> bitlen p" using assms by (metis bitlen_eq_zero_iff bitlen_nonneg int_one_le_iff_zero_less le_less not_less)
  have "2 ^ nat (bitlen p - 1) \<le> p" "p < 2 ^ nat (bitlen p)"
    using bitlen_bounds assms by auto
  then have "(2 :: rat) ^ nat (bitlen p - 1) \<le> of_int p" "of_int p < (2 :: rat) ^ nat (bitlen p)"
    by (metis of_int_le_iff of_int_numeral of_int_power, metis of_int_less_iff of_int_numeral of_int_power)
  with b show "2 powi (bitlen p - 1) \<le> (of_int p :: rat)" "(of_int p :: rat) < 2 powi (bitlen p)"
    by (simp_all add: power_int_def)
qed

lemma ilog2_bounds:
  assumes "0 < x"
  shows "2 powi ilog2 x \<le> x" "x < 2 powi (ilog2 x + 1)"
proof -
  obtain p q where pq: "quotient_of x = (p, q)" by (cases "quotient_of x")
  then have q: "0 < q" and x: "x = of_int p / of_int q"
    using quotient_of_denom_pos quotient_of_div by auto
  with assms have p: "0 < p" by (simp add: zero_less_divide_iff)
  let ?e = "bitlen p - bitlen q"
  note P = bitlen_powi [OF p] and Q = bitlen_powi [OF q]
  have "2 powi (?e - 1) * of_int q \<le> (2 powi (?e - 1) * 2 powi bitlen q :: rat)"
    using Q(2) by (intro mult_left_mono) auto
  also have "\<dots> = 2 powi (bitlen p - 1)" by (simp flip: powi_split)
  also have "\<dots> \<le> of_int p" by (rule P(1))
  finally have lo: "2 powi (?e - 1) \<le> x" using q by (simp add: x pos_le_divide_eq)
  have "of_int p < (2 powi bitlen p :: rat)" by (rule P(2))
  also have "\<dots> = 2 powi (?e + 1) * 2 powi (bitlen q - 1)" by (simp flip: powi_split)
  also have "\<dots> \<le> 2 powi (?e + 1) * of_int q"
    using Q(1) by (intro mult_left_mono) auto
  finally have hi: "x < 2 powi (?e + 1)" using q by (simp add: x pos_divide_less_eq)
  show "2 powi ilog2 x \<le> x" "x < 2 powi (ilog2 x + 1)"
    using lo hi by (auto simp: ilog2_def pq Let_def)
qed

lemma ilog2_mono: "0 < x \<Longrightarrow> x \<le> y \<Longrightarrow> ilog2 x \<le> ilog2 y"
proof -
  assume "0 < x" "x \<le> y"
  then have "(2 :: rat) powi ilog2 x < 2 powi (ilog2 y + 1)"
    using ilog2_bounds [of x] ilog2_bounds [of y] by linarith
  then show ?thesis by (simp add: powi_less_iff)
qed

section \<open>Rounding to double precision\<close>

lemma round64_0 [simp]: "round64 0 = 0"
  by (simp add: round64_def)

lemma ulp_exp_uminus [simp]: "ulp_exp (- x) = ulp_exp x"
  by (simp add: ulp_exp_def)

lemma round64_uminus [simp]: "round64 (- x) = - round64 x"
  by (simp add: round64_def)

text \<open>A value that is an integer multiple of some \<open>2 powi u\<close> is a fixed point of rounding at \<open>u\<close>.\<close>

lemma scaled_rne_mono:
  "x \<le> y \<Longrightarrow> of_int (rne (x / 2 powi u)) * 2 powi u \<le> (of_int (rne (y / 2 powi u)) * 2 powi u :: rat)"
  by (intro mult_right_mono) (auto intro!: rne_mono divide_right_mono)

lemma scaled_rne_power:
  assumes "u \<le> L"
  shows "of_int (rne (2 powi L / 2 powi u)) * 2 powi u = (2 powi L :: rat)"
proof -
  have "(2 powi L / 2 powi u :: rat) = 2 powi (L - u)" by (simp add: power_int_diff)
  also have "\<dots> = of_int (2 ^ nat (L - u))" using assms by (simp add: power_int_def)
  finally have d: "(2 powi L / 2 powi u :: rat) = of_int (2 ^ nat (L - u))" .
  then have "of_int (rne (2 powi L / 2 powi u)) = (2 powi L / 2 powi u :: rat)"
    by (metis rne_of_int)
  then show ?thesis by simp
qed

lemma round64_pos_mono:
  assumes "0 < x" "x \<le> y"
  shows "round64 x \<le> round64 y"
proof (cases "ulp_exp x = ulp_exp y")
  case True
  with assms show ?thesis by (simp add: round64_def scaled_rne_mono)
next
  case False
  let ?L = "ilog2 y"
  from assms have y: "0 < y" by simp
  have m: "ilog2 x \<le> ?L" by (rule ilog2_mono [OF assms])
  with False assms have lt: "ilog2 x < ?L" and ge: "-1022 \<le> ?L"
    by (auto simp: ulp_exp_def max_def split: if_splits)
  have ux: "ulp_exp x \<le> ?L" and uy: "ulp_exp y \<le> ?L"
    using assms y lt ge by (auto simp: ulp_exp_def)
  have "x < 2 powi (ilog2 x + 1)" by (rule ilog2_bounds(2) [OF assms(1)])
  also have "\<dots> \<le> 2 powi ?L" using lt by (intro powi_mono) simp
  finally have "x \<le> 2 powi ?L" by simp
  then have "round64 x \<le> 2 powi ?L"
    using scaled_rne_mono [of x "2 powi ?L" "ulp_exp x"] scaled_rne_power [OF ux] assms(1)
    by (simp add: round64_def)
  also have "\<dots> \<le> round64 y"
    using scaled_rne_mono [of "2 powi ?L" y "ulp_exp y"] scaled_rne_power [OF uy] y ilog2_bounds(1) [OF y]
    by (simp add: round64_def)
  finally show ?thesis .
qed

lemma round64_nonneg: "0 \<le> x \<Longrightarrow> 0 \<le> round64 x"
  using rne_mono [of 0 "x / 2 powi ulp_exp x"] rne_of_int [of 0]
  by (simp add: round64_def)

lemma round64_mono: "x \<le> y \<Longrightarrow> round64 x \<le> round64 y"
proof -
  assume le: "x \<le> y"
  consider "0 < x" | "y < 0" | "x \<le> 0" "0 \<le> y" by linarith
  then show ?thesis
  proof cases
    case 1
    with le show ?thesis by (simp add: round64_pos_mono)
  next
    case 2
    with le have "round64 (- y) \<le> round64 (- x)" by (intro round64_pos_mono) auto
    then show ?thesis by simp
  next
    case 3
    then have "0 \<le> round64 (- x)" by (intro round64_nonneg) simp
    moreover from 3 have "0 \<le> round64 y" by (simp add: round64_nonneg)
    ultimately show ?thesis by simp
  qed
qed

text \<open>In the normal range the relative error is at most the unit roundoff.\<close>

lemma round64_rel:
  assumes "min_normal \<le> x"
  shows "\<bar>round64 x - x\<bar> \<le> x * unit_roundoff"
proof -
  have "0 < min_normal" by (simp only: min_normal_def power2_int)
  with assms have x: "0 < x" by linarith
  have "min_normal < 2 powi (ilog2 x + 1)"
    using assms ilog2_bounds(2) [OF x] by linarith
  then have "-1022 < ilog2 x + 1" by (simp only: min_normal_def powi_less_iff)
  with x have u: "ulp_exp x = ilog2 x - 52" by (simp add: ulp_exp_def)
  define s where "s = (2 powi ulp_exp x :: rat)"
  have s: "0 < s" by (simp add: s_def)
  have "round64 x - x = (of_int (rne (x / s)) - x / s) * s"
    using x s by (simp add: round64_def s_def field_simps)
  then have "\<bar>round64 x - x\<bar> = \<bar>of_int (rne (x / s)) - x / s\<bar> * s"
    using s by (simp add: abs_mult)
  also have "\<dots> \<le> 1/2 * s"
    using s rne_error [of "x / s"] by (intro mult_right_mono) auto
  also have "\<dots> = 2 powi (ilog2 x + -53)"
    by (simp add: s_def u power_int_diff power_int_add power_int_minus)
  also have "\<dots> = 2 powi ilog2 x * unit_roundoff"
    by (simp only: powi_split unit_roundoff_def)
  also have "\<dots> \<le> x * unit_roundoff"
    using ilog2_bounds(1) [OF x] by (intro mult_right_mono) (auto simp: unit_roundoff_def)
  finally show ?thesis .
qed

lemma ilog2_power [simp]: "ilog2 (2 powi L) = L"
proof -
  have "(2 :: rat) powi ilog2 (2 powi L) \<le> 2 powi L" "(2 :: rat) powi L < 2 powi (ilog2 (2 powi L) + 1)"
    using ilog2_bounds [of "2 powi L"] by simp_all
  then show ?thesis by (metis powi_less_iff linorder_not_less zless_add1_eq order_antisym_conv)
qed

lemma round64_power: "-1022 \<le> L \<Longrightarrow> round64 (2 powi L) = 2 powi L"
  using scaled_rne_power [of "ulp_exp (2 powi L)" L] by (simp add: round64_def ulp_exp_def)

section \<open>The rounding interface\<close>

text \<open>
  What a computation over nonnegative amounts relies on: rounding is monotone, fixes zero, and is
  relatively accurate on zero and on values of at least \<open>tiny\<close>.
\<close>

locale rounding =
  fixes rnd :: "rat \<Rightarrow> rat" and eps tiny :: rat
  assumes rnd_0: "rnd 0 = 0"
    and rnd_mono: "x \<le> y \<Longrightarrow> rnd x \<le> rnd y"
    and eps: "0 \<le> eps" "eps < 1"
    and tiny: "0 < tiny"
    and rnd_rel: "tiny \<le> x \<Longrightarrow> \<bar>rnd x - x\<bar> \<le> x * eps"
begin

lemma rnd_nonneg: "0 \<le> x \<Longrightarrow> 0 \<le> rnd x"
  using rnd_mono [of 0 x] by (simp add: rnd_0)

text \<open>\<open>near k r x\<close>: \<open>r\<close> approximates \<open>x\<close> up to \<open>k\<close> roundings.\<close>

definition near :: "nat \<Rightarrow> rat \<Rightarrow> rat \<Rightarrow> bool" where
  "near k r x \<longleftrightarrow> x * (1 - eps) ^ k \<le> r \<and> r \<le> x * (1 + eps) ^ k"

lemma near_refl: "near 0 x x"
  by (simp add: near_def)

lemma near_weaken:
  assumes "near k r x" "0 \<le> x" "k \<le> m"
  shows "near m r x"
proof -
  have "(1 - eps) ^ m \<le> (1 - eps) ^ k" using assms eps by (intro power_decreasing) auto
  moreover have "(1 + eps) ^ k \<le> (1 + eps) ^ m" using assms eps by (intro power_increasing) auto
  ultimately have "x * (1 - eps) ^ m \<le> x * (1 - eps) ^ k" "x * (1 + eps) ^ k \<le> x * (1 + eps) ^ m"
    using assms(2) by (auto intro: mult_left_mono)
  with assms(1) show ?thesis by (auto simp: near_def)
qed

lemma near_rnd:
  assumes "near k r x" "r = 0 \<or> tiny \<le> r"
  shows "near (Suc k) (rnd r) x"
proof (cases "r = 0")
  case True
  then have z: "x * (1 - eps) ^ k \<le> 0" "0 \<le> x * (1 + eps) ^ k" using assms(1) by (auto simp: near_def)
  have "0 < (1 + eps) ^ k" "0 < (1 - eps) ^ k" using eps by simp_all
  with z have "x = 0" by (auto simp: zero_le_mult_iff mult_le_0_iff)
  with True show ?thesis by (simp add: near_def rnd_0)
next
  case False
  with assms have "\<bar>rnd r - r\<bar> \<le> r * eps" by (simp add: rnd_rel)
  then have "r * (1 - eps) \<le> rnd r" "rnd r \<le> r * (1 + eps)" by (auto simp: algebra_simps)
  moreover have "x * (1 - eps) ^ k * (1 - eps) \<le> r * (1 - eps)" "r * (1 + eps) \<le> x * (1 + eps) ^ k * (1 + eps)"
    using assms(1) eps by (auto simp: near_def intro: mult_right_mono)
  ultimately have "x * (1 - eps) ^ k * (1 - eps) \<le> rnd r" "rnd r \<le> x * (1 + eps) ^ k * (1 + eps)"
    by linarith+
  then show ?thesis by (simp add: near_def mult_ac)
qed

lemma near_add: "near k r x \<Longrightarrow> near k s y \<Longrightarrow> near k (r + s) (x + y)"
  by (simp add: near_def distrib_right)

lemma near_mult:
  assumes "near k r x" "0 \<le> c"
  shows "near k (r * c) (x * c)"
proof -
  have "x * (1 - eps) ^ k * c \<le> r * c" "r * c \<le> x * (1 + eps) ^ k * c"
    using assms by (auto simp: near_def intro: mult_right_mono)
  then show ?thesis by (simp add: near_def mult_ac)
qed

lemma near_div: "near k r x \<Longrightarrow> 0 < c \<Longrightarrow> near k (r / c) (x / c)"
  using near_mult [of k r x "1 / c"] by simp

end

interpretation fl: rounding round64 unit_roundoff min_normal
proof unfold_locales
  show "unit_roundoff < 1"
    using powi_less_iff [of "-53" 0] by (simp add: unit_roundoff_def)
  show "0 \<le> unit_roundoff" by (simp add: unit_roundoff_def)
  show "0 < min_normal" by (simp only: min_normal_def power2_int)
qed (auto simp: round64_mono round64_rel)

section \<open>Decimal roundings\<close>

lemma fmt_f_error: "\<bar>fmt_f x - x\<bar> \<le> 1 / (2 * 10 ^ 6)"
proof -
  have "fmt_f x - x = (of_int (rne (x * 10 ^ 6)) - x * 10 ^ 6) / 10 ^ 6"
    by (simp add: fmt_f_def field_simps)
  then have "\<bar>fmt_f x - x\<bar> = \<bar>of_int (rne (x * 10 ^ 6)) - x * 10 ^ 6\<bar> / 10 ^ 6"
    by (simp only: abs_divide) simp
  also have "\<dots> \<le> (1/2) / 10 ^ 6"
    using rne_error by (intro divide_right_mono) auto
  finally show ?thesis by simp
qed

lemma numeric_14_8_error:
  assumes "numeric_14_8 x = Some v"
  shows "\<bar>v - x\<bar> \<le> 1 / (2 * 10 ^ 8)"
proof -
  let ?n = "\<lfloor>\<bar>x\<bar> * 10 ^ 8 + 1/2\<rfloor>"
  have "of_int ?n \<le> \<bar>x\<bar> * 10 ^ 8 + 1/2" "\<bar>x\<bar> * 10 ^ 8 + 1/2 < of_int ?n + 1" by linarith+
  moreover have "v = (if x < 0 then - of_int ?n else of_int ?n) / 10 ^ 8"
    using assms by (simp add: numeric_14_8_def Let_def split: if_splits)
  ultimately show ?thesis by (auto simp: abs_if field_simps split: if_splits)
qed

end
