(* ===== verification/Json.thy ===== *)
theory Json
  imports GoLib Float64
begin

text \<open>
  The part of Go's \<open>encoding/json\<close> the program uses, on byte strings: the scanner and parser (white space, string
  escapes with surrogate pairs, replacement of invalid UTF-8, the number grammar, the nesting limit), the
  conversion of a document to \<open>map[string]any\<close> values, and \<open>Marshal\<close> of such values (sorted keys, HTML-safe
  escapes, the shortest number that reads back).  Struct decoding is built on the parsed document where it is used.
\<close>

section \<open>Documents\<close>

datatype json =
    JNull
  | JBool bool
  | JNum string
  | JStr string
  | JArr "json list"
  | JObj "(string \<times> json) list"

section \<open>Bytes, UTF-8\<close>

definition ord :: "char \<Rightarrow> int" where
  "ord c = of_char c"

definition chr :: "int \<Rightarrow> char" where
  "chr n = char_of n"

definition cont :: "char \<Rightarrow> bool" where
  "cont c = (128 \<le> ord c \<and> ord c < 192)"

text \<open>The length of the valid UTF-8 sequence a string of bytes starts with, \<open>0\<close> when there is none.\<close>

definition utf8_len :: "string \<Rightarrow> nat" where
  "utf8_len s =
     (case s of
        [] \<Rightarrow> 0
      | a # t \<Rightarrow>
         if ord a < 128 then 1 else
         (case t of
            [] \<Rightarrow> 0
          | b # t \<Rightarrow>
             if 194 \<le> ord a \<and> ord a < 224 then (if cont b then 2 else 0) else
             (case t of
                [] \<Rightarrow> 0
              | c # t \<Rightarrow>
                 if 224 \<le> ord a \<and> ord a < 240 then
                   (if (if ord a = 224 then 160 \<le> ord b \<and> ord b < 192
                        else if ord a = 237 then 128 \<le> ord b \<and> ord b < 160 else cont b) \<and> cont c then 3 else 0)
                 else
                 (case t of
                    [] \<Rightarrow> 0
                  | d # _ \<Rightarrow>
                     if 240 \<le> ord a \<and> ord a < 245 then
                       (if (if ord a = 240 then 144 \<le> ord b \<and> ord b < 192
                            else if ord a = 244 then 128 \<le> ord b \<and> ord b < 144 else cont b)
                           \<and> cont c \<and> cont d then 4 else 0)
                     else 0))))"

text \<open>\<open>utf8.AppendRune\<close> of a code point that is not a surrogate.\<close>

definition utf8 :: "int \<Rightarrow> string" where
  "utf8 r =
     (if r < 128 then [chr r]
      else if r < 2048 then [chr (192 + r div 64), chr (128 + r mod 64)]
      else if r < 65536 then [chr (224 + r div 4096), chr (128 + r div 64 mod 64), chr (128 + r mod 64)]
      else [chr (240 + r div 262144), chr (128 + r div 4096 mod 64), chr (128 + r div 64 mod 64), chr (128 + r mod 64)])"

definition rune_error :: string where
  "rune_error = [CHR 0xEF, CHR 0xBF, CHR 0xBD]"

section \<open>Scanner\<close>

definition is_ws :: "char \<Rightarrow> bool" where
  "is_ws c = (c = CHR 0x20 \<or> c = CHR 0x09 \<or> c = CHR 0x0D \<or> c = CHR 0x0A)"

definition skip_ws :: "string \<Rightarrow> string" where
  "skip_ws = dropWhile is_ws"

definition simple_escape :: "char \<Rightarrow> char option" where
  "simple_escape c =
     (if c = CHR 0x22 \<or> c = CHR 0x5C \<or> c = CHR ''/'' then Some c
      else if c = CHR ''b'' then Some (CHR 0x08)
      else if c = CHR ''f'' then Some (CHR 0x0C)
      else if c = CHR ''n'' then Some (CHR 0x0A)
      else if c = CHR ''r'' then Some (CHR 0x0D)
      else if c = CHR ''t'' then Some (CHR 0x09)
      else None)"

definition hex4 :: "char \<Rightarrow> char \<Rightarrow> char \<Rightarrow> char \<Rightarrow> int option" where
  "hex4 a b c d =
     (case (hex_val a, hex_val b, hex_val c, hex_val d) of
        (Some w, Some x, Some y, Some z) \<Rightarrow> Some (4096 * int w + 256 * int x + 16 * int y + int z)
      | _ \<Rightarrow> None)"

definition surrogate :: "int \<Rightarrow> bool" where
  "surrogate r = (55296 \<le> r \<and> r < 57344)"

text \<open>The second half of a pair: the code point, when the next escape is a low surrogate and the first was high.\<close>

definition surrogate_pair :: "int \<Rightarrow> string \<Rightarrow> int option" where
  "surrogate_pair r s =
     (case s of
        b # u # a1 # a2 # a3 # a4 # _ \<Rightarrow>
          if b = CHR 0x5C \<and> u = CHR ''u'' then
            (case hex4 a1 a2 a3 a4 of
               Some r2 \<Rightarrow> if r < 56320 \<and> 56320 \<le> r2 \<and> r2 < 57344
                          then Some ((r - 55296) * 1024 + (r2 - 56320) + 65536) else None
             | None \<Rightarrow> None)
          else None
      | _ \<Rightarrow> None)"

definition cons_str :: "string \<Rightarrow> (string \<times> string) option \<Rightarrow> (string \<times> string) option" where
  "cons_str x r = map_option (\<lambda>(y, s). (x @ y, s)) r"

text \<open>A string literal after its opening quote: the decoded bytes and what follows the closing quote.\<close>

function (sequential) pstr :: "string \<Rightarrow> (string \<times> string) option" where
  "pstr [] = None"
| "pstr (c # s) =
     (if c = CHR 0x22 then Some ([], s)
      else if c = CHR 0x5C then
        (case s of
           [] \<Rightarrow> None
         | x # t \<Rightarrow>
            (case simple_escape x of
               Some y \<Rightarrow> cons_str [y] (pstr t)
             | None \<Rightarrow>
                if x \<noteq> CHR ''u'' then None else
                (case t of
                   a1 # a2 # a3 # a4 # t2 \<Rightarrow>
                     (case hex4 a1 a2 a3 a4 of
                        None \<Rightarrow> None
                      | Some r \<Rightarrow>
                         if surrogate r then
                           (case surrogate_pair r t2 of
                              Some r2 \<Rightarrow> cons_str (utf8 r2) (pstr (drop 6 t2))
                            | None \<Rightarrow> cons_str rune_error (pstr t2))
                         else cons_str (utf8 r) (pstr t2))
                 | _ \<Rightarrow> None)))
      else if ord c < 32 then None
      else if utf8_len (c # s) = 0 then cons_str rune_error (pstr s)
      else cons_str (take (utf8_len (c # s)) (c # s)) (pstr (drop (utf8_len (c # s) - 1) s)))"
  by pat_completeness auto
termination by (relation "measure length") auto

text \<open>A number literal; the empty result means that there is none.\<close>

definition num_int :: "string \<Rightarrow> string" where
  "num_int s =
     (case s of
        [] \<Rightarrow> []
      | c # t \<Rightarrow> if c = CHR ''0'' then [c] else takeWhile is_digit s)"

definition num_frac :: "string \<Rightarrow> string option" where
  "num_frac s =
     (case s of
        c # t \<Rightarrow>
          if c = CHR ''.'' then (let ds = takeWhile is_digit t in if ds = [] then None else Some (c # ds)) else Some []
      | [] \<Rightarrow> Some [])"

definition num_exp :: "string \<Rightarrow> string option" where
  "num_exp s =
     (case s of
        c # t \<Rightarrow>
          if c = CHR ''e'' \<or> c = CHR ''E'' then
            (let sg = (case t of x # _ \<Rightarrow> if x = CHR ''+'' \<or> x = CHR ''-'' then [x] else [] | [] \<Rightarrow> []);
                 ds = takeWhile is_digit (drop (length sg) t)
             in if ds = [] then None else Some (c # sg @ ds))
          else Some []
      | [] \<Rightarrow> Some [])"

definition num_sign :: "string \<Rightarrow> string" where
  "num_sign s = (case s of c # _ \<Rightarrow> if c = CHR ''-'' then [c] else [] | [] \<Rightarrow> [])"

definition pnum :: "string \<Rightarrow> (json \<times> string) option" where
  "pnum s =
     (let sg = num_sign s;
          s1 = drop (length sg) s;
          i = num_int s1;
          s2 = drop (length i) s1
      in if i = [] then None else
      (case num_frac s2 of
         None \<Rightarrow> None
       | Some f \<Rightarrow>
          (case num_exp (drop (length f) s2) of
             None \<Rightarrow> None
           | Some x \<Rightarrow> Some (JNum (sg @ i @ f @ x), drop (length f + length x) s2))))"

definition plit :: "string \<Rightarrow> json \<Rightarrow> string \<Rightarrow> (json \<times> string) option" where
  "plit lit v s = (if HasPrefix s lit then Some (v, drop (length lit) s) else None)"

text \<open>
  Values.  The first argument is fuel, the second how many brackets may still be opened
  (\<open>maxNestingDepth\<close>); \<open>parr\<close> reads a nonempty list of elements, \<open>pobj\<close> a nonempty list of members.
\<close>

fun pval :: "nat \<Rightarrow> int \<Rightarrow> string \<Rightarrow> (json \<times> string) option"
and parr :: "nat \<Rightarrow> int \<Rightarrow> string \<Rightarrow> (json list \<times> string) option"
and pobj :: "nat \<Rightarrow> int \<Rightarrow> string \<Rightarrow> ((string \<times> json) list \<times> string) option" where
  "pval 0 d s = None"
| "pval (Suc n) d s =
     (case skip_ws s of
        [] \<Rightarrow> None
      | c # t \<Rightarrow>
         if c = CHR 0x22 then map_option (\<lambda>(x, r). (JStr x, r)) (pstr t)
         else if c = CHR ''{'' then
           (if d \<le> 0 then None else
            (case skip_ws t of
               [] \<Rightarrow> None
             | x # r \<Rightarrow> if x = CHR ''}'' then Some (JObj [], r)
                        else map_option (\<lambda>(ms, r). (JObj ms, r)) (pobj n (d - 1) t)))
         else if c = CHR ''['' then
           (if d \<le> 0 then None else
            (case skip_ws t of
               [] \<Rightarrow> None
             | x # r \<Rightarrow> if x = CHR '']'' then Some (JArr [], r)
                        else map_option (\<lambda>(vs, r). (JArr vs, r)) (parr n (d - 1) t)))
         else if c = CHR ''t'' then plit ''rue'' (JBool True) t
         else if c = CHR ''f'' then plit ''alse'' (JBool False) t
         else if c = CHR ''n'' then plit ''ull'' JNull t
         else pnum (c # t))"
| "parr 0 d s = None"
| "parr (Suc n) d s =
     (case pval n d s of
        None \<Rightarrow> None
      | Some (v, r) \<Rightarrow>
         (case skip_ws r of
            [] \<Rightarrow> None
          | x # t \<Rightarrow>
             if x = CHR '']'' then Some ([v], t)
             else if x = CHR '','' then map_option (\<lambda>(vs, r). (v # vs, r)) (parr n d t)
             else None))"
| "pobj 0 d s = None"
| "pobj (Suc n) d s =
     (case skip_ws s of
        [] \<Rightarrow> None
      | q # t \<Rightarrow>
         if q \<noteq> CHR 0x22 then None else
         (case pstr t of
            None \<Rightarrow> None
          | Some (k, r) \<Rightarrow>
             (case skip_ws r of
                [] \<Rightarrow> None
              | x # t \<Rightarrow>
                 if x \<noteq> CHR '':'' then None else
                 (case pval n d t of
                    None \<Rightarrow> None
                  | Some (v, r) \<Rightarrow>
                     (case skip_ws r of
                        [] \<Rightarrow> None
                      | y # t \<Rightarrow>
                         if y = CHR ''}'' then Some ([(k, v)], t)
                         else if y = CHR '','' then map_option (\<lambda>(ms, r). ((k, v) # ms, r)) (pobj n d t)
                         else None)))))"

definition maxNestingDepth :: int where
  "maxNestingDepth = 10000"

definition json_fuel :: "string \<Rightarrow> nat" where
  "json_fuel s = Suc (Suc (length s + length s))"

text \<open>\<open>json.Unmarshal\<close> reads the whole input, \<open>Decoder.Decode\<close> the first value of it.\<close>

definition json_parse :: "string \<Rightarrow> json option" where
  "json_parse s =
     (case pval (json_fuel s) maxNestingDepth s of
        None \<Rightarrow> None
      | Some (v, r) \<Rightarrow> if skip_ws r = [] then Some v else None)"

definition json_first :: "string \<Rightarrow> json option" where
  "json_first s = map_option fst (pval (json_fuel s) maxNestingDepth s)"

section \<open>Consumption and fuel\<close>

lemma skip_ws_length: "length (skip_ws s) \<le> length s"
  by (simp add: skip_ws_def length_dropWhile_le)

lemma skip_ws_Cons: "skip_ws s = c # t \<Longrightarrow> length t < length s"
  using skip_ws_length [of s] by simp

declare pstr.simps(2) [simp del]

lemma pstr_length: "pstr s = Some (x, r) \<Longrightarrow> length r < length s"
proof (induction s arbitrary: x r rule: length_induct)
  case (1 s)
  have IH: "length r < length t" if "pstr t = Some (y, r)" "length t < length s" for t y
    using 1(1) that by blast
  show ?case
  proof (cases s)
    case (Cons c u)
    have le: "length r < length s" if "pstr t = Some (y, r)" "length t \<le> length u" for t y
      using IH [OF that(1)] that(2) Cons by simp
    from 1(2) show ?thesis
      unfolding Cons pstr.simps(2)
      by (auto simp: cons_str_def Cons split: if_splits list.splits option.splits dest!: le)
  qed (use 1(2) in simp)
qed

lemma num_int_nonempty: "num_int s \<noteq> [] \<Longrightarrow> s \<noteq> []"
  by (auto simp: num_int_def)

lemma pnum_length:
  assumes "pnum s = Some (v, r)"
  shows "length r < length s"
proof -
  define s1 where "s1 = drop (length (num_sign s)) s"
  have i: "num_int s1 \<noteq> []" and r: "\<exists>k. r = drop k (drop (length (num_int s1)) s1)"
    using assms by (auto simp: pnum_def Let_def s1_def [symmetric] simp del: drop_drop split: if_splits option.splits)
  from i have "s1 \<noteq> []" by (rule num_int_nonempty)
  moreover have "length r \<le> length s1 - length (num_int s1)" using r by auto
  moreover have "length s1 \<le> length s" by (simp add: s1_def)
  ultimately show ?thesis using i by (cases "num_int s1"; cases s1) auto
qed

lemma plit_length: "plit lit v s = Some (w, r) \<Longrightarrow> length r \<le> length s"
  by (auto simp: plit_def split: if_splits)

lemma parse_length_all:
  "(\<forall>d s v r. pval n d s = Some (v, r) \<longrightarrow> length r < length s)
   \<and> (\<forall>d s vs r. parr n d s = Some (vs, r) \<longrightarrow> length r < length s)
   \<and> (\<forall>d s ms r. pobj n d s = Some (ms, r) \<longrightarrow> length r < length s)"
proof (induction n)
  case (Suc n)
  then have IH: "\<And>d s v r. pval n d s = Some (v, r) \<Longrightarrow> length r < length s"
    "\<And>d s v r. parr n d s = Some (v, r) \<Longrightarrow> length r < length s"
    "\<And>d s v r. pobj n d s = Some (v, r) \<Longrightarrow> length r < length s" by blast+
  have "length r < length s" if "pval (Suc n) d s = Some (v, r)" for d s v r
    using that
    by (auto split: if_splits list.splits dest!: pstr_length pnum_length plit_length IH skip_ws_Cons)
  moreover have "length r < length s" if "parr (Suc n) d s = Some (v, r)" for d s v r
    using that by (auto split: if_splits list.splits option.splits dest!: IH skip_ws_Cons)
  moreover have "length r < length s" if "pobj (Suc n) d s = Some (v, r)" for d s v r
    using that by (auto split: if_splits list.splits option.splits dest!: IH skip_ws_Cons pstr_length)
  ultimately show ?case by blast
qed simp

lemma parse_length:
  "pval n d s = Some (v, r) \<Longrightarrow> length r < length s"
  "parr n d s = Some (vs, r) \<Longrightarrow> length r < length s"
  "pobj n d s = Some (ms, r) \<Longrightarrow> length r < length s"
  using parse_length_all by blast+

text \<open>Fuel twice the length is enough: whatever any fuel finds is found with it.\<close>

lemma parse_fuel_all:
  "(\<forall>d s x m. pval n d s = Some x \<longrightarrow> 2 * length s < m \<longrightarrow> pval m d s = Some x)
   \<and> (\<forall>d s x m. parr n d s = Some x \<longrightarrow> 2 * length s + 1 < m \<longrightarrow> parr m d s = Some x)
   \<and> (\<forall>d s x m. pobj n d s = Some x \<longrightarrow> 2 * length s < m \<longrightarrow> pobj m d s = Some x)"
proof (induction n)
  case (Suc n)
  then have IH: "\<And>d s x m. pval n d s = Some x \<Longrightarrow> 2 * length s < m \<Longrightarrow> pval m d s = Some x"
    "\<And>d s x m. parr n d s = Some x \<Longrightarrow> 2 * length s + 1 < m \<Longrightarrow> parr m d s = Some x"
    "\<And>d s x m. pobj n d s = Some x \<Longrightarrow> 2 * length s < m \<Longrightarrow> pobj m d s = Some x" by blast+
  have "pval m d s = Some x" if p: "pval (Suc n) d s = Some x" and m: "2 * length s < m" for d s x m
  proof -
    obtain k where k: "m = Suc k" using m by (cases m) auto
    obtain c t where t: "skip_ws s = c # t" using p by (auto split: list.splits)
    have "2 * length t + 1 < k" using skip_ws_Cons [OF t] m k by simp
    then have "parr n (d - 1) t \<noteq> None \<Longrightarrow> parr k (d - 1) t = parr n (d - 1) t"
      "pobj n (d - 1) t \<noteq> None \<Longrightarrow> pobj k (d - 1) t = pobj n (d - 1) t" by (auto intro!: IH(2,3))
    with p show ?thesis
      unfolding k
      by (cases "parr n (d - 1) t"; cases "pobj n (d - 1) t") (simp_all add: t split: if_split_asm list.split_asm)
  qed
  moreover have "parr m d s = Some x" if p: "parr (Suc n) d s = Some x" and m: "2 * length s + 1 < m" for d s x m
  proof -
    obtain k where k: "m = Suc k" using m by (cases m) auto
    from p obtain v r where v: "pval n d s = Some (v, r)" by (auto split: option.splits)
    have v': "pval k d s = Some (v, r)" by (rule IH(1) [OF v]) (use m k in simp)
    from p v obtain y t where t: "skip_ws r = y # t" by (auto split: list.splits)
    have "2 * length t + 1 < k" using skip_ws_Cons [OF t] parse_length(1) [OF v] m k by simp
    then have "parr n d t \<noteq> None \<Longrightarrow> parr k d t = parr n d t" by (auto intro!: IH(2))
    with p show ?thesis
      unfolding k by (cases "parr n d t") (simp_all add: v v' t split: if_split_asm)
  qed
  moreover have "pobj m d s = Some x" if p: "pobj (Suc n) d s = Some x" and m: "2 * length s < m" for d s x m
  proof -
    obtain k where k: "m = Suc k" using m by (cases m) auto
    obtain t where t: "skip_ws s = CHR 0x22 # t" using p by (auto split: list.splits if_splits)
    with p obtain key r where r: "pstr t = Some (key, r)" by (auto split: option.splits)
    with p t obtain t2 where t2: "skip_ws r = CHR '':'' # t2" by (auto split: list.splits if_splits)
    have l2: "length t2 < length s" using skip_ws_Cons [OF t] pstr_length [OF r] skip_ws_Cons [OF t2] by simp
    from p t r t2 obtain v r2 where v: "pval n d t2 = Some (v, r2)" by (auto split: option.splits)
    have v': "pval k d t2 = Some (v, r2)" by (rule IH(1) [OF v]) (use l2 m k in simp)
    from p t r t2 v obtain y t3 where t3: "skip_ws r2 = y # t3" by (auto split: list.splits)
    have "2 * length t3 < k" using skip_ws_Cons [OF t3] parse_length(1) [OF v] l2 m k by simp
    then have "pobj n d t3 \<noteq> None \<Longrightarrow> pobj k d t3 = pobj n d t3" by (auto intro: IH(3))
    with p show ?thesis
      unfolding k by (cases "pobj n d t3") (simp_all add: t r t2 v v' t3 split: if_split_asm)
  qed
  ultimately show ?case by blast
qed simp

lemma json_fuel_enough: "pval n d s = Some x \<Longrightarrow> pval (json_fuel s) d s = Some x"
proof -
  assume "pval n d s = Some x"
  moreover have "2 * length s < json_fuel s" by (simp add: json_fuel_def)
  ultimately show ?thesis using parse_fuel_all [of n] by blast
qed

end
