(* ===== verification/Json_Value.thy ===== *)
theory Json_Value
  imports Json
begin

text \<open>
  Decoding into \<open>any\<close> and encoding back.  A decoded document is a value of \<open>gov\<close>; a \<open>map[string]any\<close> is an
  association list with strictly increasing keys, which is the order \<open>Marshal\<close> writes them in.  A \<open>float64\<close> is
  the rational it denotes (the sign of a zero is not kept).  Integers and structs occur only on the encoding side:
  a struct is the list of its members in the order of its fields.
\<close>

section \<open>Values\<close>

datatype gov =
    VNull
  | VBool bool
  | VNum rat
  | VInt int
  | VStr string
  | VArr "gov list"
  | VMap "(string \<times> gov) list"

text \<open>Strings are ordered bytewise.\<close>

fun str_less :: "string \<Rightarrow> string \<Rightarrow> bool" where
  "str_less _ [] = False"
| "str_less [] (_ # _) = True"
| "str_less (x # xs) (y # ys) = (ord x < ord y \<or> (x = y \<and> str_less xs ys))"

text \<open>Assignment \<open>m[k] = v\<close>.\<close>

fun map_set :: "string \<Rightarrow> 'v \<Rightarrow> (string \<times> 'v) list \<Rightarrow> (string \<times> 'v) list" where
  "map_set k v [] = [(k, v)]"
| "map_set k v ((k', v') # m) =
     (if k = k' then (k, v) # m
      else if str_less k k' then (k, v) # (k', v') # m
      else (k', v') # map_set k v m)"

section \<open>Numbers\<close>

text \<open>The exact value of a number literal.\<close>

definition exp_value :: "string \<Rightarrow> int" where
  "exp_value x =
     (case x of
        _ # c # ds \<Rightarrow>
          if c = CHR ''-'' then - dec_value_int ds
          else if c = CHR ''+'' then dec_value_int ds
          else dec_value_int (c # ds)
      | _ \<Rightarrow> 0)"

definition lit_value :: "string \<Rightarrow> rat" where
  "lit_value s =
     (let sg = num_sign s;
          s1 = drop (length sg) s;
          i = num_int s1;
          s2 = drop (length i) s1;
          f = (case num_frac s2 of None \<Rightarrow> [] | Some f \<Rightarrow> f);
          x = drop (length f) s2;
          m = of_int (dec_value_int (i @ tl f)) * 10 powi (exp_value x - int (length (tl f)))
      in if sg = [] then m else - m)"

text \<open>\<open>strconv.ParseFloat(s, 64)\<close>: \<^term>\<open>None\<close> is the range error.\<close>

definition lit_float :: "string \<Rightarrow> rat option" where
  "lit_float s = (let v = round64 (lit_value s) in if \<bar>v\<bar> < 2 ^ 1024 then Some v else None)"

fun to_any :: "json \<Rightarrow> gov option"
and to_any_list :: "json list \<Rightarrow> gov list option"
and to_any_map :: "(string \<times> json) list \<Rightarrow> (string \<times> gov) list \<Rightarrow> (string \<times> gov) list option" where
  "to_any JNull = Some VNull"
| "to_any (JBool b) = Some (VBool b)"
| "to_any (JNum s) = map_option VNum (lit_float s)"
| "to_any (JStr s) = Some (VStr s)"
| "to_any (JArr vs) = map_option VArr (to_any_list vs)"
| "to_any (JObj ms) = map_option VMap (to_any_map ms [])"
| "to_any_list [] = Some []"
| "to_any_list (v # vs) =
     (case to_any v of None \<Rightarrow> None | Some x \<Rightarrow> map_option (\<lambda>xs. x # xs) (to_any_list vs))"
| "to_any_map [] m = Some m"
| "to_any_map ((k, v) # ms) m = (case to_any v of None \<Rightarrow> None | Some x \<Rightarrow> to_any_map ms (map_set k x m))"

text \<open>\<open>json.Unmarshal\<close> into a \<open>map[string]any\<close>: \<open>null\<close> gives the nil map.\<close>

definition Unmarshal_map :: "string \<Rightarrow> (string \<times> gov) list option" where
  "Unmarshal_map s =
     (case json_parse s of
        Some JNull \<Rightarrow> Some []
      | Some (JObj ms) \<Rightarrow> to_any_map ms []
      | _ \<Rightarrow> None)"

section \<open>Encoding numbers\<close>

text \<open>
  The shortest decimal \<open>d * 10 powi k\<close> that reads back as \<open>x\<close>: the first of the roundings to 1 to 17 significant
  digits that does (the exact expansion, which always does, if none).
\<close>

fun dec_exp_down :: "nat \<Rightarrow> rat \<Rightarrow> int" where
  "dec_exp_down 0 x = 0"
| "dec_exp_down (Suc n) x = (if 1 \<le> x then 0 else dec_exp_down n (x * 10) - 1)"

definition dec_exp :: "rat \<Rightarrow> int" where
  "dec_exp x = (if 1 \<le> x then int (length (dec_digits_int \<lfloor>x\<rfloor>)) - 1 else dec_exp_down 330 x)"

definition dec_round :: "rat \<Rightarrow> nat \<Rightarrow> int \<times> int" where
  "dec_round x n = (let k = dec_exp x - int n + 1 in (rne (x / 10 powi k), k))"

definition dec_exact :: "rat \<Rightarrow> int \<times> int" where
  "dec_exact x = (case quotient_of x of (p, q) \<Rightarrow> let j = bitlen q - 1 in (p * 5 ^ nat j, - j))"

definition reads_back :: "rat \<Rightarrow> int \<times> int \<Rightarrow> bool" where
  "reads_back x dk = (case dk of (d, k) \<Rightarrow> round64 (of_int d * 10 powi k) = x)"

definition shortest :: "rat \<Rightarrow> int \<times> int" where
  "shortest x =
     (case find (reads_back x) (map (dec_round x) [1..<18]) of
        Some dk \<Rightarrow> dk
      | None \<Rightarrow> dec_exact x)"

text \<open>Its significant digits, and the position of the decimal point among them.\<close>

definition zeros :: "int \<Rightarrow> string" where
  "zeros n = replicate (nat n) (CHR ''0'')"

definition strip_zeros :: "string \<Rightarrow> string" where
  "strip_zeros ds = rev (dropWhile (\<lambda>c. c = CHR ''0'') (rev ds))"

definition fmt_exp :: "int \<Rightarrow> string" where
  "fmt_exp x =
     (if x < 0 then ''e-'' @ dec_digits_int (- x)
      else ''e+'' @ (if x < 10 then ''0'' else []) @ dec_digits_int x)"

text \<open>The number encoder: decimal notation between \<open>1e-6\<close> and \<open>1e21\<close>, scientific outside.\<close>

definition fmt_num :: "rat \<Rightarrow> string" where
  "fmt_num v =
     (if v = 0 then ''0'' else
      let x = \<bar>v\<bar>; (d, k) = shortest x;
          ds = strip_zeros (dec_digits_int d);
          p = int (length (dec_digits_int d)) + k;
          body =
            (if 1 / 10 ^ 6 \<le> x \<and> x < 10 ^ 21 then
               if p \<le> 0 then ''0.'' @ zeros (- p) @ ds
               else if int (length ds) \<le> p then ds @ zeros (p - int (length ds))
               else take (nat p) ds @ ''.'' @ drop (nat p) ds
             else take 1 ds @ (if length ds = 1 then [] else ''.'' @ drop 1 ds) @ fmt_exp (p - 1))
      in if v < 0 then CHR ''-'' # body else body)"

section \<open>Encoding strings\<close>

definition hex2 :: "char \<Rightarrow> string" where
  "hex2 c = hex_encode [c]"

text \<open>\<open>appendString\<close> with HTML escaping; U+2028 and U+2029 are \<open>E2 80 A8\<close> and \<open>E2 80 A9\<close>.\<close>

definition esc_ascii :: "char \<Rightarrow> string" where
  "esc_ascii c =
     (if c = CHR 0x22 \<or> c = CHR 0x5C then [CHR 0x5C, c]
      else if c = CHR 0x08 then [CHR 0x5C, CHR ''b'']
      else if c = CHR 0x0C then [CHR 0x5C, CHR ''f'']
      else if c = CHR 0x0A then [CHR 0x5C, CHR ''n'']
      else if c = CHR 0x0D then [CHR 0x5C, CHR ''r'']
      else if c = CHR 0x09 then [CHR 0x5C, CHR ''t'']
      else if ord c < 32 \<or> c = CHR ''<'' \<or> c = CHR ''>'' \<or> c = CHR ''&'' then CHR 0x5C # ''u00'' @ hex2 c
      else [c])"

function (sequential) esc :: "string \<Rightarrow> string" where
  "esc [] = []"
| "esc (c # s) =
     (if ord c < 128 then esc_ascii c @ esc s
      else if utf8_len (c # s) = 0 then CHR 0x5C # ''ufffd'' @ esc s
      else if take 3 (c # s) = [CHR 0xE2, CHR 0x80, CHR 0xA8] then CHR 0x5C # ''u2028'' @ esc (drop 2 s)
      else if take 3 (c # s) = [CHR 0xE2, CHR 0x80, CHR 0xA9] then CHR 0x5C # ''u2029'' @ esc (drop 2 s)
      else take (utf8_len (c # s)) (c # s) @ esc (drop (utf8_len (c # s) - 1) s))"
  by pat_completeness auto
termination by (relation "measure length") auto

declare esc.simps(2) [simp del]

definition quote_str :: "string \<Rightarrow> string" where
  "quote_str s = CHR 0x22 # esc s @ [CHR 0x22]"

section \<open>Marshal\<close>

fun join_with :: "string \<Rightarrow> string list \<Rightarrow> string" where
  "join_with sep [] = []"
| "join_with sep [x] = x"
| "join_with sep (x # y # xs) = x @ sep @ join_with sep (y # xs)"

fun marshal :: "gov \<Rightarrow> string" where
  "marshal VNull = ''null''"
| "marshal (VBool b) = (if b then ''true'' else ''false'')"
| "marshal (VNum x) = fmt_num x"
| "marshal (VInt n) = FormatInt n"
| "marshal (VStr s) = quote_str s"
| "marshal (VArr vs) = ''['' @ join_with '','' (map marshal vs) @ '']''"
| "marshal (VMap m) = ''{'' @ join_with '','' (map (\<lambda>(k, v). quote_str k @ '':'' @ marshal v) m) @ ''}''"

end
