(* ===== verification/Http.thy ===== *)
theory Http
  imports Json_Value
begin

text \<open>
  The part of \<open>net/http\<close> the handlers use: header maps with canonical keys, requests as the server hands them to a
  handler, and the response a handler leaves behind.  A header is an association list; the order stands for the
  order in which \<open>range\<close> visits the map.
\<close>

section \<open>Header keys\<close>

definition upper :: "char \<Rightarrow> char" where
  "upper c = (if 97 \<le> ord c \<and> ord c \<le> 122 then chr (ord c - 32) else c)"

definition lower :: "char \<Rightarrow> char" where
  "lower c = (if 65 \<le> ord c \<and> ord c \<le> 90 then chr (ord c + 32) else c)"

text \<open>The bytes of an HTTP token.\<close>

definition token_char :: "char \<Rightarrow> bool" where
  "token_char c =
     ((48 \<le> ord c \<and> ord c \<le> 57) \<or> (65 \<le> ord c \<and> ord c \<le> 90) \<or> (97 \<le> ord c \<and> ord c \<le> 122)
      \<or> c \<in> set [CHR ''!'', CHR 0x23, CHR ''$'', CHR ''%'', CHR ''&'', CHR 0x27, CHR ''*'', CHR ''+'', CHR ''-'',
                  CHR ''.'', CHR 0x5E, CHR ''_'', CHR 0x60, CHR ''|'', CHR ''~''])"

fun canon_from :: "bool \<Rightarrow> string \<Rightarrow> string" where
  "canon_from up [] = []"
| "canon_from up (c # s) = (if up then upper c else lower c) # canon_from (c = CHR ''-'') s"

definition CanonicalHeaderKey :: "string \<Rightarrow> string" where
  "CanonicalHeaderKey k = (if list_all token_char k then canon_from True k else k)"

section \<open>Headers\<close>

type_synonym header = "(string \<times> string list) list"

definition header_Values :: "header \<Rightarrow> string \<Rightarrow> string list" where
  "header_Values h k = (case map_of h (CanonicalHeaderKey k) of None \<Rightarrow> [] | Some vs \<Rightarrow> vs)"

definition header_Get :: "header \<Rightarrow> string \<Rightarrow> string" where
  "header_Get h k = (case header_Values h k of [] \<Rightarrow> [] | v # _ \<Rightarrow> v)"

fun header_upd :: "string \<Rightarrow> (string list \<Rightarrow> string list) \<Rightarrow> header \<Rightarrow> header" where
  "header_upd k f [] = [(k, f [])]"
| "header_upd k f ((k', vs) # h) = (if k' = k then (k', f vs) # h else (k', vs) # header_upd k f h)"

definition header_Add :: "string \<Rightarrow> string \<Rightarrow> header \<Rightarrow> header" where
  "header_Add k v h = header_upd (CanonicalHeaderKey k) (\<lambda>vs. vs @ [v]) h"

definition header_Set :: "string \<Rightarrow> string \<Rightarrow> header \<Rightarrow> header" where
  "header_Set k v h = header_upd (CanonicalHeaderKey k) (\<lambda>_. [v]) h"

definition header_Del :: "string \<Rightarrow> header \<Rightarrow> header" where
  "header_Del k h = filter (\<lambda>(k', _). k' \<noteq> CanonicalHeaderKey k) h"

section \<open>Requests and responses\<close>

text \<open>A body is the bytes that can be read, and how reading ends: with the end of the body or with an error.\<close>

type_synonym body = "string \<times> error option"

definition ReadAll :: "body \<Rightarrow> string result" where
  "ReadAll b = (case snd b of None \<Rightarrow> Inr (fst b) | Some err \<Rightarrow> Inl err)"

text \<open>\<open>URL_EscapedPath\<close> is the path as it was sent, \<open>URL_Path\<close> the decoded one.\<close>

record Request =
  Method :: string
  URL_Path :: string
  URL_EscapedPath :: string
  URL_RawQuery :: string
  URL_Query :: "string \<Rightarrow> string"
  PathValue :: "string \<Rightarrow> string"
  Header :: header
  Body :: body
  ContentLength :: int

text \<open>What the client receives: status, header, and the chunks of the body.\<close>

record Response =
  rs_status :: int
  rs_header :: header
  rs_body :: "string list"

section \<open>Laws\<close>

lemma map_of_header_upd:
  "map_of (header_upd k f h) k' = (if k' = k then Some (f (case map_of h k of None \<Rightarrow> [] | Some vs \<Rightarrow> vs)) else map_of h k')"
  by (induction h) auto

lemma header_Values_Add:
  "header_Values (header_Add k v h) k' =
     (if CanonicalHeaderKey k' = CanonicalHeaderKey k then header_Values h k @ [v] else header_Values h k')"
  by (auto simp: header_Values_def header_Add_def map_of_header_upd split: option.splits)

lemma header_Values_Set:
  "header_Values (header_Set k v h) k' =
     (if CanonicalHeaderKey k' = CanonicalHeaderKey k then [v] else header_Values h k')"
  by (auto simp: header_Values_def header_Set_def map_of_header_upd split: option.splits)

lemma header_Values_Del:
  "header_Values (header_Del k h) k' =
     (if CanonicalHeaderKey k' = CanonicalHeaderKey k then [] else header_Values h k')"
proof -
  have "map_of (filter (\<lambda>(k', _). k' \<noteq> c) h) k' = (if k' = c then None else map_of h k')" for c k'
    by (induction h) auto
  then show ?thesis by (simp add: header_Values_def header_Del_def)
qed

lemmas header_Values_simps = header_Values_Add header_Values_Set header_Values_Del

lemma header_Get_Values: "header_Get h k = (case header_Values h k of [] \<Rightarrow> [] | v # _ \<Rightarrow> v)"
  by (simp add: header_Get_def)

end
