(* ===== verification/Services.thy ===== *)
theory Services
  imports GoLib Float64
begin

text \<open>
  The data types of \<open>internal/keys\<close> and the two services they live in.  Postgres is a record of tables
  whose columns and constraints are those of \<open>internal/store/migrations\<close>; Redis is a map from keys to
  values with an expiry time.  Both are driven by an environment record: the clock, the outcome of every
  service call (each call may fail), the bytes of \<open>crypto/rand\<close>, and the functions of third-party code
  (argon2, uuid, the number conversions of pgx and Redis).  Every call of a service, of the clock or of
  the random source is an event; events are numbered, and the environment answers by event number, so a
  theorem that holds for every environment holds for every pattern of failures and every clock.
\<close>

section \<open>Data\<close>

text \<open>Times are nanoseconds since the Unix epoch.  A UUID is its canonical text.\<close>

type_synonym time = int
type_synonym uuid = string

definition Second :: int where
  "Second = 1000000000"

record Key =
  ID :: uuid
  Prefix :: string
  Owner :: string
  Note :: string
  ExpiresAt :: "time option"
  RPMLimit :: "int option"
  TokenQuota :: "int option"
  DollarQuota :: "rat option"
  Active :: bool
  CreatedAt :: time
  LastUsedAt :: "time option"

record KeyWithUsage =
  KeyOf :: Key
  TotalTokens :: int
  TotalCostUSD :: rat

record IssueParams =
  p_Owner :: string
  p_Note :: string
  p_ExpiresAt :: "time option"
  p_RPMLimit :: "int option"
  p_TokenQuota :: "int option"
  p_DollarQuota :: "rat option"

record IssuedKey =
  ik_Key :: Key
  ik_Plain :: string

record Stats =
  TotalKeys :: int
  ActiveKeys :: int
  TodayTokens :: int
  TodayCostUSD :: rat

record UsageRecord =
  u_KeyID :: uuid
  u_RequestID :: string
  u_Endpoint :: string
  u_Model :: string
  u_Streaming :: bool
  u_InputTokens :: int
  u_OutputTokens :: int
  u_CachedTokens :: int
  u_CostUSD :: rat
  u_Status :: int
  u_Duration :: int
  u_ErrorMessage :: string

record cacheEntry =
  ce_Key :: "Key option"
  ce_Plain :: string

section \<open>Tables\<close>

text \<open>A row of \<open>api_keys\<close>: the columns of \<^typ>\<open>Key\<close> (with \<open>dollar_quota\<close> as the exact decimal) and \<open>hash\<close>.\<close>

record api_key_row =
  row_key :: Key
  row_hash :: string

record quota_row =
  total_tokens :: int
  total_cost_usd :: rat
  updated_at :: time

record usage_row =
  ur_key_id :: uuid
  ur_request_id :: "string option"
  ur_endpoint :: string
  ur_model :: "string option"
  ur_streaming :: bool
  ur_input_tokens :: int
  ur_output_tokens :: int
  ur_cached_tokens :: int
  ur_cost_usd :: rat
  ur_status :: int
  ur_duration_ms :: int
  ur_error_message :: "string option"
  ur_created_at :: time

record upstream_row =
  up_id :: int
  up_encrypted :: string
  up_prefix :: string
  up_note :: string
  up_active :: bool
  up_created_at :: time
  up_retired_at :: "time option"

text \<open>
  Redis values: integers (\<open>INCR\<close>, \<open>INCRBY\<close>), decimals (\<open>INCRBYFLOAT\<close>, \<open>SET\<close> of a formatted float) and
  JSON documents of a \<^typ>\<open>cacheEntry\<close>.  An entry carries its expiry time, if any.  \<open>upstream_seq\<close> is the next
  value of the sequence behind \<open>upstream_keys.id\<close>, which a rolled-back transaction does not put back.
\<close>

datatype rval = RInt int | RDec rat | REntry cacheEntry

record world =
  ev :: nat
  api_keys :: "api_key_row list"
  quota_totals :: "uuid \<rightharpoonup> quota_row"
  usage_records :: "usage_row list"
  upstream_keys :: "upstream_row list"
  upstream_seq :: int
  redis :: "string \<rightharpoonup> rval \<times> time option"

record env =
  clock :: "nat \<Rightarrow> time"
  db_fault :: "nat \<Rightarrow> string option"
  rdb_fault :: "nat \<Rightarrow> string option"
  rand_fault :: "nat \<Rightarrow> string option"
  rand_bytes :: "nat \<Rightarrow> nat \<Rightarrow> string"
  uuid_New :: "nat \<Rightarrow> uuid"
  argon2_IDKey :: "string \<Rightarrow> string \<Rightarrow> nat \<Rightarrow> int \<Rightarrow> nat \<Rightarrow> nat \<Rightarrow> string"
  pg_decimal :: "rat \<Rightarrow> rat"
  pg_float :: "rat \<Rightarrow> rat"
  pg_time :: "time \<Rightarrow> time"
  pg_today :: "time \<Rightarrow> time"
  incrbyfloat :: "rat \<Rightarrow> rat \<Rightarrow> rat"

text \<open>
  The third-party functions: \<open>pg_decimal\<close> is the decimal pgx sends for a \<open>float64\<close>, \<open>pg_float\<close> the
  \<open>float64\<close> it scans from a \<open>NUMERIC\<close>, \<open>pg_time\<close> the instant a \<open>TIMESTAMPTZ\<close> column keeps of a
  \<open>time.Time\<close>, \<open>pg_today\<close> the instant \<open>CURRENT_DATE\<close> begins, \<open>incrbyfloat\<close> the decimal Redis stores after \<open>INCRBYFLOAT\<close>.
\<close>

section \<open>Events\<close>

definition tick :: "world \<Rightarrow> world" where
  "tick w = w\<lparr>ev := Suc (ev w)\<rparr>"

definition time_Now :: "env \<Rightarrow> world \<Rightarrow> time \<times> world" where
  "time_Now e w = (clock e (ev w), tick w)"

definition rand_Read :: "env \<Rightarrow> nat \<Rightarrow> world \<Rightarrow> string result \<times> world" where
  "rand_Read e n w =
     ((case rand_fault e (ev w) of Some m \<Rightarrow> Inl (Err m) | None \<Rightarrow> Inr (rand_bytes e (ev w) n)), tick w)"

text \<open>One statement: it fails without effect, or runs atomically at the clock's time.\<close>

definition db_call :: "env \<Rightarrow> (time \<Rightarrow> world \<Rightarrow> 'a result \<times> world) \<Rightarrow> world \<Rightarrow> 'a result \<times> world" where
  "db_call e stmt w =
     (case db_fault e (ev w) of
        Some m \<Rightarrow> (Inl (Err m), tick w)
      | None \<Rightarrow> stmt (clock e (ev w)) (tick w))"

definition rdb_call :: "env \<Rightarrow> (time \<Rightarrow> world \<Rightarrow> 'a result \<times> world) \<Rightarrow> world \<Rightarrow> 'a result \<times> world" where
  "rdb_call e cmd w =
     (case rdb_fault e (ev w) of
        Some m \<Rightarrow> (Inl (Err m), tick w)
      | None \<Rightarrow> cmd (clock e (ev w)) (tick w))"

section \<open>Redis commands\<close>

definition live :: "time \<Rightarrow> rval \<times> time option \<Rightarrow> bool" where
  "live now x = (case snd x of None \<Rightarrow> True | Some d \<Rightarrow> now < d)"

definition rget :: "time \<Rightarrow> world \<Rightarrow> string \<Rightarrow> (rval \<times> time option) option" where
  "rget now w k = (case redis w k of None \<Rightarrow> None | Some x \<Rightarrow> if live now x then Some x else None)"

definition rput :: "string \<Rightarrow> rval \<times> time option \<Rightarrow> world \<Rightarrow> world" where
  "rput k x w = w\<lparr>redis := (redis w)(k \<mapsto> x)\<rparr>"

definition redis_nil :: error where
  "redis_nil = Err ''redis: nil''"

definition wrong_type :: error where
  "wrong_type = Err ''ERR value is not an integer or out of range''"

definition rdb_Get :: "env \<Rightarrow> string \<Rightarrow> world \<Rightarrow> rval result \<times> world" where
  "rdb_Get e k = rdb_call e (\<lambda>now w.
     (case rget now w k of None \<Rightarrow> Inl redis_nil | Some (v, _) \<Rightarrow> Inr v, w))"

text \<open>
  \<open>SET\<close> with go-redis's reading of the expiration: positive durations expire (in milliseconds, at least
  one), \<open>-1\<close> keeps the time to live the key has, anything else means no expiry.
\<close>

definition set_expiry :: "time \<Rightarrow> int \<Rightarrow> (rval \<times> time option) option \<Rightarrow> time option" where
  "set_expiry now ttl old =
     (if ttl > 0 then Some (now + max 1 (ttl div 1000000) * 1000000)
      else if ttl = -1 then (case old of None \<Rightarrow> None | Some x \<Rightarrow> snd x)
      else None)"

definition rdb_Set :: "env \<Rightarrow> string \<Rightarrow> rval \<Rightarrow> int \<Rightarrow> world \<Rightarrow> unit result \<times> world" where
  "rdb_Set e k v ttl = rdb_call e (\<lambda>now w.
     (Inr (), rput k (v, set_expiry now ttl (rget now w k)) w))"

definition rdb_Del :: "env \<Rightarrow> string \<Rightarrow> world \<Rightarrow> unit result \<times> world" where
  "rdb_Del e k = rdb_call e (\<lambda>now w. (Inr (), w\<lparr>redis := (redis w)(k := None)\<rparr>))"

definition incr_by :: "time \<Rightarrow> string \<Rightarrow> int \<Rightarrow> world \<Rightarrow> int result \<times> world" where
  "incr_by now k n w =
     (case rget now w k of
        None \<Rightarrow> (Inr n, rput k (RInt n, None) w)
      | Some (RInt v, x) \<Rightarrow>
          if int64_range (v + n) then (Inr (v + n), rput k (RInt (v + n), x) w) else (Inl wrong_type, w)
      | Some _ \<Rightarrow> (Inl wrong_type, w))"

definition rdb_IncrBy :: "env \<Rightarrow> string \<Rightarrow> int \<Rightarrow> world \<Rightarrow> int result \<times> world" where
  "rdb_IncrBy e k n = rdb_call e (\<lambda>now. incr_by now k n)"

text \<open>\<open>MULTI; INCR k; EXPIRE k ttl; EXEC\<close>\<close>

definition rdb_IncrExpire :: "env \<Rightarrow> string \<Rightarrow> int \<Rightarrow> world \<Rightarrow> int result \<times> world" where
  "rdb_IncrExpire e k ttl = rdb_call e (\<lambda>now w.
     (case incr_by now k 1 w of
        (Inl err, w') \<Rightarrow> (Inl err, w')
      | (Inr v, w') \<Rightarrow> (Inr v, rput k (RInt v, Some (now + ttl)) w')))"

definition rdb_IncrByFloat :: "env \<Rightarrow> string \<Rightarrow> rat \<Rightarrow> world \<Rightarrow> rat result \<times> world" where
  "rdb_IncrByFloat e k x = rdb_call e (\<lambda>now w.
     (case rget now w k of
        None \<Rightarrow> let v = incrbyfloat e 0 x in (Inr v, rput k (RDec v, None) w)
      | Some (RDec d, ex) \<Rightarrow> let v = incrbyfloat e d x in (Inr v, rput k (RDec v, ex) w)
      | Some (RInt n, ex) \<Rightarrow> let v = incrbyfloat e (of_int n) x in (Inr v, rput k (RDec v, ex) w)
      | Some (REntry _, _) \<Rightarrow> (Inl (Err ''ERR value is not a valid float''), w)))"

text \<open>The conversions \<open>Int64()\<close> and \<open>Float64()\<close> of a \<open>StringCmd\<close>.\<close>

definition cmd_Int64 :: "rval result \<Rightarrow> int result" where
  "cmd_Int64 r = (case r of Inl err \<Rightarrow> Inl err | Inr (RInt n) \<Rightarrow> Inr n | Inr _ \<Rightarrow> Inl wrong_type)"

definition cmd_Float64 :: "rval result \<Rightarrow> rat result" where
  "cmd_Float64 r =
     (case r of
        Inl err \<Rightarrow> Inl err
      | Inr (RDec d) \<Rightarrow> Inr (round64 d)
      | Inr (RInt n) \<Rightarrow> Inr (float_of_int n)
      | Inr (REntry _) \<Rightarrow> Inl (Err ''strconv.ParseFloat: invalid syntax''))"

section \<open>Assumptions on the environment\<close>

text \<open>No service call and no read of the random source fails.\<close>

definition no_faults :: "env \<Rightarrow> bool" where
  "no_faults e \<longleftrightarrow> (\<forall>n. db_fault e n = None \<and> rdb_fault e n = None \<and> rand_fault e n = None)"

text \<open>The clock does not go back.\<close>

definition monotone_clock :: "env \<Rightarrow> bool" where
  "monotone_clock e \<longleftrightarrow> mono (clock e)"

lemma no_faultsD [nofault]:
  "no_faults e \<Longrightarrow> db_fault e n = None"
  "no_faults e \<Longrightarrow> rdb_fault e n = None"
  "no_faults e \<Longrightarrow> rand_fault e n = None"
  by (auto simp: no_faults_def)

section \<open>Laws of the service calls\<close>

lemma tick_fields [simp, frame]:
  "ev (tick w) = Suc (ev w)" "api_keys (tick w) = api_keys w" "quota_totals (tick w) = quota_totals w"
  "usage_records (tick w) = usage_records w" "upstream_keys (tick w) = upstream_keys w"
  "upstream_seq (tick w) = upstream_seq w"
  "redis (tick w) = redis w"
  by (simp_all add: tick_def)

lemma rput_fields [simp, frame]:
  "ev (rput k x w) = ev w" "api_keys (rput k x w) = api_keys w" "quota_totals (rput k x w) = quota_totals w"
  "usage_records (rput k x w) = usage_records w" "upstream_keys (rput k x w) = upstream_keys w"
  "upstream_seq (rput k x w) = upstream_seq w"
  "redis (rput k x w) = (redis w)(k \<mapsto> x)"
  by (simp_all add: rput_def)

lemma rget_tick [simp]: "rget now (tick w) k = rget now w k"
  by (simp add: rget_def)

lemma rget_rput [simp]:
  "rget now (rput k x w) k' = (if k' = k then if live now x then Some x else None else rget now w k')"
  by (simp add: rget_def)

lemma rget_Some: "rget now w k = Some x \<longleftrightarrow> redis w k = Some x \<and> live now x"
  by (auto simp: rget_def split: option.splits)

lemma rget_None: "redis w k = None \<Longrightarrow> rget now w k = None"
  by (simp add: rget_def)

lemma live_None [simp]: "live now (v, None)"
  by (simp add: live_def)

lemma live_Some [simp]: "live now (v, Some d) \<longleftrightarrow> now < d"
  by (simp add: live_def)

text \<open>A Redis command touches only Redis, a database statement only the tables.\<close>

text \<open>The parts of the state that Redis commands cannot change.\<close>

definition same_tables :: "world \<Rightarrow> world \<Rightarrow> bool" where
  "same_tables w w' \<longleftrightarrow>
     api_keys w' = api_keys w \<and> quota_totals w' = quota_totals w
     \<and> usage_records w' = usage_records w \<and> upstream_keys w' = upstream_keys w"

lemma same_tables_refl [simp]: "same_tables w w"
  by (simp add: same_tables_def)

lemma same_tables_trans: "same_tables w w' \<Longrightarrow> same_tables w' w'' \<Longrightarrow> same_tables w w''"
  by (simp add: same_tables_def)

lemma same_tables_tick [simp]:
  "same_tables w (tick w') = same_tables w w'" "same_tables (tick w) w' = same_tables w w'"
  by (simp_all add: same_tables_def)

lemma same_tables_rput [simp]: "same_tables w (rput k x w') = same_tables w w'"
  by (simp add: same_tables_def)

lemma rdb_call_tables:
  "(\<And>now w. same_tables w (snd (cmd now w))) \<Longrightarrow> same_tables w (snd (rdb_call e cmd w))"
  by (auto simp: rdb_call_def same_tables_def split: option.splits)

lemma incr_by_tables: "same_tables w (snd (incr_by now k n w))"
  by (auto simp: incr_by_def split: option.splits rval.splits prod.splits)

lemma rdb_tables [frame]:
  "same_tables w (snd (rdb_Get e k w))"
  "same_tables w (snd (rdb_Set e k v ttl w))"
  "same_tables w (snd (rdb_Del e k w))"
  "same_tables w (snd (rdb_IncrBy e k n w))"
  "same_tables w (snd (rdb_IncrExpire e k ttl w))"
  "same_tables w (snd (rdb_IncrByFloat e k x w))"
proof -
  show "same_tables w (snd (rdb_IncrExpire e k ttl w))"
    unfolding rdb_IncrExpire_def
  proof (rule rdb_call_tables)
    fix now w
    show "same_tables w (snd (case incr_by now k 1 w of (Inl err, w') \<Rightarrow> (Inl err, w')
        | (Inr v, w') \<Rightarrow> (Inr v, rput k (RInt v, Some (now + ttl)) w')))"
      using incr_by_tables [of w now k 1] by (auto split: sum.splits prod.splits)
  qed
qed (auto simp: rdb_Get_def rdb_Set_def rdb_Del_def rdb_IncrBy_def rdb_IncrByFloat_def incr_by_tables Let_def
     same_tables_def [of _ "_\<lparr>redis := _\<rparr>"]
     intro!: rdb_call_tables split: option.splits rval.splits prod.splits)

section \<open>A concrete environment\<close>

text \<open>
  An environment without failures in which every function is simple enough to be evaluated: one millisecond passes
  between events, the random bytes and ids are the event numbers, the digest is the padded key and the
  number conversions are exact.  It shows that the assumptions on environments can be met.
\<close>

definition demo_env :: env where
  "demo_env = \<lparr>clock = (\<lambda>n. 1700000040000000000 + int n * 1000000), db_fault = (\<lambda>_. None), rdb_fault = (\<lambda>_. None), rand_fault = (\<lambda>_. None),
     rand_bytes = (\<lambda>n k. replicate k (char_of n)), uuid_New = (\<lambda>n. FormatInt (int n)),
     argon2_IDKey = (\<lambda>plain salt t m p n. take n (plain @ replicate n (CHR 0x00))),
     pg_decimal = (\<lambda>x. x), pg_float = round64, pg_time = (\<lambda>t. t div 1000 * 1000),
     pg_today = (\<lambda>t. t div 86400000000000 * 86400000000000), incrbyfloat = (+)\<rparr>"

lemma demo_no_faults [simp]: "no_faults demo_env"
  by (simp add: no_faults_def demo_env_def)

lemma demo_monotone_clock [simp]: "monotone_clock demo_env"
  by (simp add: monotone_clock_def demo_env_def mono_def)

end
