(* ===== verification/Upstream.thy ===== *)
theory Upstream
  imports Services
begin

text \<open>
  Package \<open>internal/keys\<close>, file \<open>upstream.go\<close>: the OpenAI key the proxy itself uses.  It is kept encrypted in
  the table \<open>upstream_keys\<close>, of which at most one row is active, and decrypted into an in-memory snapshot that
  requests read.  A rotation retires the active row and inserts the new one in one transaction; a refresher
  brings the other replicas up to date.  The AEAD is an interface value of the code and a parameter here.
\<close>

section \<open>State\<close>

text \<open>\<open>cipher.AEAD\<close>: \<open>Seal\<close> of a nonce and a plaintext, \<open>Open\<close> of a nonce and a ciphertext, without additional data.\<close>

record AEAD =
  NonceSize :: nat
  Seal :: "string \<Rightarrow> string \<Rightarrow> string"
  Open :: "string \<Rightarrow> string \<Rightarrow> string option"

record upstreamSnapshot =
  snap_plain :: string
  snap_prefix :: string
  snap_createdAt :: time

record UpstreamStore =
  gcm :: AEAD
  cache :: "upstreamSnapshot option"

record UpstreamKey =
  uk_ID :: int
  uk_Prefix :: string
  uk_Note :: string
  uk_Active :: bool
  uk_CreatedAt :: time
  uk_RetiredAt :: "time option"

text \<open>\<open>aes_gcm\<close> stands for \<open>cipher.NewGCM(aes.NewCipher(key))\<close>.\<close>

definition NewUpstreamStore :: "(string \<Rightarrow> AEAD result) \<Rightarrow> string \<Rightarrow> UpstreamStore result" where
  "NewUpstreamStore aes_gcm encryptionKeyHex =
     (case hex_decode encryptionKeyHex of
        None \<Rightarrow> Inl (ErrWrap (''KEY_ENCRYPTION_KEY: must be hex (got '' @ FormatInt (int (length encryptionKeyHex)) @ '' chars)'')
                     (Err ''encoding/hex''))
      | Some keyBytes \<Rightarrow>
         if length keyBytes \<noteq> 32
         then Inl (Err (''KEY_ENCRYPTION_KEY: must decode to 32 bytes, got '' @ FormatInt (int (length keyBytes))))
         else (case aes_gcm keyBytes of
                 Inl err \<Rightarrow> Inl err
               | Inr g \<Rightarrow> Inr \<lparr>gcm = g, cache = None\<rparr>))"

section \<open>Encryption\<close>

definition encrypt :: "env \<Rightarrow> UpstreamStore \<Rightarrow> string \<Rightarrow> world \<Rightarrow> string result \<times> world" where
  "encrypt e s plain w =
     (case rand_Read e (NonceSize (gcm s)) w of
        (Inl err, w) \<Rightarrow> (Inl err, w)
      | (Inr nonce, w) \<Rightarrow> (Inr (nonce @ Seal (gcm s) nonce plain), w))"

definition decrypt :: "UpstreamStore \<Rightarrow> string \<Rightarrow> string result" where
  "decrypt s blob =
     (let ns = NonceSize (gcm s) in
      if length blob < ns then Inl (Err ''ciphertext too short'')
      else (case Open (gcm s) (take ns blob) (drop ns blob) of
              None \<Rightarrow> Inl (Err ''cipher: message authentication failed'')
            | Some plain \<Rightarrow> Inr plain))"

text \<open>The bullet U+2022 and the ellipsis U+2026 in UTF-8.\<close>

definition bullet :: string where
  "bullet = [CHR 0xE2, CHR 0x80, CHR 0xA2]"

definition ellipsis :: string where
  "ellipsis = [CHR 0xE2, CHR 0x80, CHR 0xA6]"

definition maskPrefix :: "string \<Rightarrow> string" where
  "maskPrefix plain =
     (if length plain \<le> 16 then Repeat bullet (length plain)
      else take 12 plain @ ellipsis @ drop (length plain - 4) plain)"

section \<open>Reading\<close>

definition Current :: "UpstreamStore \<Rightarrow> string" where
  "Current s = (case cache s of None \<Rightarrow> [] | Some snap \<Rightarrow> snap_plain snap)"

text \<open>The zero \<open>time.Time\<close> is year 1; the callers read it only together with \<open>ok\<close>.\<close>

definition zero_time :: time where
  "zero_time = -62135596800 * Second"

definition CurrentMeta :: "UpstreamStore \<Rightarrow> string \<times> time \<times> bool" where
  "CurrentMeta s =
     (case cache s of
        None \<Rightarrow> ([], zero_time, False)
      | Some snap \<Rightarrow> (snap_prefix snap, snap_createdAt snap, True))"

definition refresh :: "env \<Rightarrow> UpstreamStore \<Rightarrow> world \<Rightarrow> error option \<times> UpstreamStore \<times> world" where
  "refresh e s w =
     (case db_call e (\<lambda>_ w. (case find up_active (upstream_keys w) of
                               None \<Rightarrow> (Inl ErrNoRows, w)
                             | Some r \<Rightarrow> (Inr (up_encrypted r, up_prefix r, up_created_at r), w))) w of
        (Inl err, w) \<Rightarrow> (Some err, s, w)
      | (Inr (enc, pre, createdAt), w) \<Rightarrow>
         (case decrypt s enc of
            Inl err \<Rightarrow> (Some (ErrWrap ''decrypt active upstream key'' err), s, w)
          | Inr plain \<Rightarrow>
             (None, s\<lparr>cache := Some \<lparr>snap_plain = plain, snap_prefix = pre, snap_createdAt = createdAt\<rparr>\<rparr>, w)))"

definition History :: "env \<Rightarrow> world \<Rightarrow> UpstreamKey list result \<times> world" where
  "History e w =
     (case db_call e (\<lambda>_ w. (Inr (map (\<lambda>r. \<lparr>uk_ID = up_id r, uk_Prefix = up_prefix r, uk_Note = up_note r,
                                              uk_Active = up_active r, uk_CreatedAt = up_created_at r,
                                              uk_RetiredAt = up_retired_at r\<rparr>)
                                    (sort_key (\<lambda>r. - up_created_at r) (upstream_keys w))), w)) w of
        (Inl err, w) \<Rightarrow> (Inl err, w)
      | (Inr out, w) \<Rightarrow> db_call e (\<lambda>_ w. (Inr out, w)) w)"

section \<open>Rotation\<close>

text \<open>The statements of the transaction; \<open>now()\<close> is the time the transaction began.\<close>

definition retired :: "time \<Rightarrow> upstream_row \<Rightarrow> upstream_row" where
  "retired now r = (if up_active r then r\<lparr>up_active := False, up_retired_at := Some now\<rparr> else r)"

definition retire_active :: "time \<Rightarrow> world \<Rightarrow> unit result \<times> world" where
  "retire_active now w = (Inr (), w\<lparr>upstream_keys := map (retired now) (upstream_keys w)\<rparr>)"

definition insert_active :: "time \<Rightarrow> string \<Rightarrow> string \<Rightarrow> string \<Rightarrow> world \<Rightarrow> unit result \<times> world" where
  "insert_active now enc pre note w =
     (let i = upstream_seq w; w = w\<lparr>upstream_seq := i + 1\<rparr> in
      if \<exists>r \<in> set (upstream_keys w). up_active r
      then (Inl (Err ''duplicate key value violates unique constraint upstream_keys_one_active''), w)
      else (Inr (), w\<lparr>upstream_keys := upstream_keys w @
              [\<lparr>up_id = i, up_encrypted = enc, up_prefix = pre, up_note = note, up_active = True,
                up_created_at = now, up_retired_at = None\<rparr>]\<rparr>))"

text \<open>\<open>tx.Rollback\<close>: the table as it was when the transaction began; the sequence is not put back.\<close>

definition rollback :: "world \<Rightarrow> world \<Rightarrow> world" where
  "rollback w0 w = w\<lparr>upstream_keys := upstream_keys w0\<rparr>"

text \<open>From \<open>Begin\<close> to \<open>Commit\<close>.\<close>

definition rotate_tx :: "env \<Rightarrow> string \<Rightarrow> string \<Rightarrow> string \<Rightarrow> world \<Rightarrow> unit result \<times> world" where
  "rotate_tx e enc pre note w0 =
     (case db_call e (\<lambda>now w. (Inr now, w)) w0 of
        (Inl err, w) \<Rightarrow> (Inl err, w)
      | (Inr now, w) \<Rightarrow>
         (case db_call e (\<lambda>_. retire_active now) w of
            (Inl err, w) \<Rightarrow> (Inl err, rollback w0 w)
          | (Inr _, w) \<Rightarrow>
             (case db_call e (\<lambda>_. insert_active now enc pre note) w of
                (Inl err, w) \<Rightarrow> (Inl err, rollback w0 w)
              | (Inr _, w) \<Rightarrow>
                 (case db_call e (\<lambda>_ w. (Inr (), w)) w of
                    (Inl err, w) \<Rightarrow> (Inl err, rollback w0 w)
                  | (Inr _, w) \<Rightarrow> (Inr (), w)))))"

definition Set :: "env \<Rightarrow> UpstreamStore \<Rightarrow> string \<Rightarrow> string \<Rightarrow> world \<Rightarrow> error option \<times> UpstreamStore \<times> world" where
  "Set e s plain note w =
     (let plain = TrimSpace plain in
      if plain = [] then (Some (Err ''upstream key is empty''), s, w)
      else if \<not> HasPrefix plain ''sk-'' then (Some (Err ''upstream key should start with sk-''), s, w)
      else (case encrypt e s plain w of
              (Inl err, w) \<Rightarrow> (Some err, s, w)
            | (Inr enc, w) \<Rightarrow>
               (case rotate_tx e enc (maskPrefix plain) note w of
                  (Inl err, w) \<Rightarrow> (Some err, s, w)
                | (Inr _, w) \<Rightarrow> refresh e s w)))"

section \<open>Start-up and refresher\<close>

definition Bootstrap :: "env \<Rightarrow> UpstreamStore \<Rightarrow> string \<Rightarrow> world \<Rightarrow> error option \<times> UpstreamStore \<times> world" where
  "Bootstrap e s fallbackPlain w =
     (case refresh e s w of
        (None, s, w) \<Rightarrow> (None, s, w)
      | (Some err, s, w) \<Rightarrow>
         if \<not> errors_is err ErrNoRows then (Some err, s, w)
         else if fallbackPlain = []
         then (Some (Err ''no upstream key configured: set OPENAI_API_KEY or insert via admin UI''), s, w)
         else (case Set e s fallbackPlain ''imported from env on first boot'' w of
                 (Some err, s, w) \<Rightarrow> (Some (ErrWrap ''bootstrap insert'' err), s, w)
               | (None, s, w) \<Rightarrow> refresh e s w))"

text \<open>One tick of the refresher: the error it reports, if any.\<close>

definition refresher_tick :: "env \<Rightarrow> UpstreamStore \<Rightarrow> world \<Rightarrow> error option \<times> UpstreamStore \<times> world" where
  "refresher_tick e s w =
     (case refresh e s w of
        (None, s, w) \<Rightarrow> (None, s, w)
      | (Some err, s, w) \<Rightarrow> (if errors_is err ErrNoRows then None else Some err, s, w))"

end
