(* ===== verification/Sha256.thy ===== *)
theory Sha256
  imports GoLib "HOL-Library.Word"
begin

text \<open>
  \<open>crypto/sha256\<close> and \<open>crypto/hmac\<close> as the program uses them: the digest of a byte string (FIPS 180-4) on 32-bit
  words, and the keyed digest built from it (RFC 2104).
\<close>

unbundle bit_operations_syntax

section \<open>Words and bytes\<close>

type_synonym w32 = "32 word"

definition word_byte :: "w32 \<Rightarrow> nat \<Rightarrow> char" where
  "word_byte x i = char_of (uint (drop_bit (24 - 8 * i) x))"

definition word_bytes :: "w32 \<Rightarrow> string" where
  "word_bytes x = [word_byte x 0, word_byte x 1, word_byte x 2, word_byte x 3]"

definition bytes_word :: "string \<Rightarrow> w32" where
  "bytes_word s = word_of_int (foldl (\<lambda>n c. 256 * n + of_char c) (0 :: int) s)"

fun chunks :: "nat \<Rightarrow> nat \<Rightarrow> 'a list \<Rightarrow> 'a list list" where
  "chunks 0 k xs = []"
| "chunks (Suc n) k xs = take k xs # chunks n k (drop k xs)"

section \<open>The compression function\<close>

definition rotr :: "nat \<Rightarrow> w32 \<Rightarrow> w32" where
  "rotr n x = drop_bit n x OR push_bit (32 - n) x"

definition big_sigma0 :: "w32 \<Rightarrow> w32" where "big_sigma0 x = rotr 2 x XOR rotr 13 x XOR rotr 22 x"
definition big_sigma1 :: "w32 \<Rightarrow> w32" where "big_sigma1 x = rotr 6 x XOR rotr 11 x XOR rotr 25 x"
definition small_sigma0 :: "w32 \<Rightarrow> w32" where "small_sigma0 x = rotr 7 x XOR rotr 18 x XOR drop_bit 3 x"
definition small_sigma1 :: "w32 \<Rightarrow> w32" where "small_sigma1 x = rotr 17 x XOR rotr 19 x XOR drop_bit 10 x"
definition Ch :: "w32 \<Rightarrow> w32 \<Rightarrow> w32 \<Rightarrow> w32" where "Ch x y z = (x AND y) XOR (NOT x AND z)"
definition Maj :: "w32 \<Rightarrow> w32 \<Rightarrow> w32 \<Rightarrow> w32" where "Maj x y z = (x AND y) XOR (x AND z) XOR (y AND z)"

text \<open>
  The constants are the first 32 bits of the fractional parts of the cube roots of the first 64 primes, and those of the
  initial state the same of the square roots of the first eight; they are computed as integer roots.
\<close>

definition integer_root :: "nat \<Rightarrow> int \<Rightarrow> int" where
  "integer_root k n = fold (\<lambda>i r. if (r + 2 ^ i) ^ k \<le> n then r + 2 ^ i else r) (rev [0..<38]) 0"

definition root_bits :: "nat \<Rightarrow> int \<Rightarrow> w32" where
  "root_bits k p = word_of_int (integer_root k (p * 2 ^ (32 * k)))"

definition small_primes :: "int list" where
  "small_primes = filter (\<lambda>n. list_all (\<lambda>d. n mod d \<noteq> 0) [2..n - 1]) [2..311]"

definition round_constants :: "w32 list" where
  "round_constants = map (root_bits 3) small_primes"

record digest_state =
  ha :: w32 hb :: w32 hc :: w32 hd4 :: w32 he :: w32 hf :: w32 hg :: w32 hh :: w32

definition initial_state :: digest_state where
  "initial_state =
     (let r = root_bits 2 in
      \<lparr>ha = r 2, hb = r 3, hc = r 5, hd4 = r 7, he = r 11, hf = r 13, hg = r 17, hh = r 19\<rparr>)"

text \<open>The message schedule, newest word first: word \<open>t\<close> is made of the words 2, 7, 15 and 16 before it.\<close>

fun schedule :: "nat \<Rightarrow> w32 list \<Rightarrow> w32 list" where
  "schedule 0 ws = rev ws"
| "schedule (Suc n) ws =
     schedule n ((small_sigma1 (ws ! 1) + ws ! 6 + small_sigma0 (ws ! 14) + ws ! 15) # ws)"

definition sha_round :: "w32 \<times> w32 \<Rightarrow> digest_state \<Rightarrow> digest_state" where
  "sha_round kw s =
     (let t1 = hh s + big_sigma1 (he s) + Ch (he s) (hf s) (hg s) + fst kw + snd kw;
          t2 = big_sigma0 (ha s) + Maj (ha s) (hb s) (hc s)
      in \<lparr>ha = t1 + t2, hb = ha s, hc = hb s, hd4 = hc s, he = hd4 s + t1, hf = he s, hg = hf s, hh = hg s\<rparr>)"

definition sha_block :: "string \<Rightarrow> digest_state \<Rightarrow> digest_state" where
  "sha_block b s =
     (let ws = schedule 48 (rev (map bytes_word (chunks 16 4 b)));
          r = fold sha_round (zip round_constants ws) s
      in \<lparr>ha = ha s + ha r, hb = hb s + hb r, hc = hc s + hc r, hd4 = hd4 s + hd4 r,
          he = he s + he r, hf = hf s + hf r, hg = hg s + hg r, hh = hh s + hh r\<rparr>)"

section \<open>Padding and digest\<close>

text \<open>A one bit, zeros up to eight bytes short of a block, and the length in bits.\<close>

definition sha_pad :: "string \<Rightarrow> string" where
  "sha_pad m =
     (let n = length m; bits = 8 * int n in
      m @ [CHR 0x80] @ replicate ((119 - n mod 64) mod 64) (CHR 0x00)
        @ map (\<lambda>i. char_of (bits div 2 ^ (56 - 8 * i))) [0..<8])"

definition state_bytes :: "digest_state \<Rightarrow> string" where
  "state_bytes s = concat (map word_bytes [ha s, hb s, hc s, hd4 s, he s, hf s, hg s, hh s])"

definition sha256 :: "string \<Rightarrow> string" where
  "sha256 m = (let p = sha_pad m in state_bytes (fold sha_block (chunks (length p div 64) 64 p) initial_state))"

section \<open>HMAC\<close>

definition xor_byte :: "int \<Rightarrow> char \<Rightarrow> char" where
  "xor_byte k c = char_of (k XOR of_char c)"

definition hmac_key :: "string \<Rightarrow> string" where
  "hmac_key k = (let k' = (if length k > 64 then sha256 k else k) in k' @ replicate (64 - length k') (CHR 0x00))"

definition hmac_sha256 :: "string \<Rightarrow> string \<Rightarrow> string" where
  "hmac_sha256 k m =
     sha256 (map (xor_byte 0x5c) (hmac_key k) @ sha256 (map (xor_byte 0x36) (hmac_key k) @ m))"

section \<open>Laws\<close>

lemma length_sha256 [simp]: "length (sha256 m) = 32"
  by (simp add: sha256_def state_bytes_def word_bytes_def Let_def)

lemma length_hmac [simp]: "length (hmac_sha256 k m) = 32"
  by (simp add: hmac_sha256_def)

text \<open>Padding fills whole blocks.\<close>

lemma length_sha_pad: "length (sha_pad m) mod 64 = 0"
proof -
  have "(n + (9 + (119 - n mod 64) mod 64)) mod 64 = 0" for n :: nat
  proof -
    have "n mod 64 < 64" by simp
    then have "n mod 64 + (9 + (119 - n mod 64)) = 128" by linarith
    then have "(n mod 64 + (9 + (119 - n mod 64))) mod 64 = 0" by simp
    moreover have "(n + (9 + (119 - n mod 64) mod 64)) mod 64 = (n mod 64 + (9 + (119 - n mod 64))) mod 64"
      by (metis mod_add_left_eq mod_add_right_eq)
    ultimately show ?thesis by simp
  qed
  then show ?thesis by (simp add: sha_pad_def Let_def add.commute add.left_commute)
qed

end
