(* ===== verification/Auth.thy ===== *)
theory Auth
  imports Http Upstream Sha256
begin

text \<open>
  Package \<open>internal/admin\<close>, \<open>auth.go\<close>: the signed, expiring bearer tokens of the admin API.
\<close>

section \<open>State\<close>

record Auth =
  password :: string
  secret :: string
  ttl :: int

definition NewAuth :: "string \<Rightarrow> string \<Rightarrow> int \<Rightarrow> Auth" where
  "NewAuth pw sec t = \<lparr>password = pw, secret = sec, ttl = t\<rparr>"

definition VerifyPassword :: "Auth \<Rightarrow> string \<Rightarrow> bool" where
  "VerifyPassword a submitted = (ConstantTimeCompare submitted (password a) = 1)"

section \<open>Tokens\<close>

text \<open>The signature of the expiry text.\<close>

definition sign :: "Auth \<Rightarrow> string \<Rightarrow> string" where
  "sign a expStr = b64_encode (hmac_sha256 (secret a) expStr)"

text \<open>\<open>Time.Unix\<close>: whole seconds since the epoch.\<close>

definition unix_seconds :: "time \<Rightarrow> int" where
  "unix_seconds t = t div Second"

definition IssueToken :: "env \<Rightarrow> Auth \<Rightarrow> world \<Rightarrow> string \<times> world" where
  "IssueToken e a w =
     (case time_Now e w of (now, w) \<Rightarrow>
        let expStr = FormatInt (unix_seconds (now + ttl a)) in (expStr @ ''.'' @ sign a expStr, w))"

text \<open>\<open>time.Unix(sec, 0)\<close> counts its seconds from the year 1 in an \<open>int64\<close> and wraps.\<close>

definition unixToInternal :: int where
  "unixToInternal = 62135596800"

definition time_Unix :: "int \<Rightarrow> time" where
  "time_Unix s = (wrap64 (s + unixToInternal) - unixToInternal) * Second"

text \<open>\<open>ValidateBearer\<close>: \<^term>\<open>None\<close> is the nil error.  The clock is read only when the signature is right.\<close>

definition ValidateBearer :: "env \<Rightarrow> Auth \<Rightarrow> Request \<Rightarrow> world \<Rightarrow> error option \<times> world" where
  "ValidateBearer e a r w =
     (case CutPrefix (header_Get (Header r) ''Authorization'') ''Bearer '' of (tok, ok) \<Rightarrow>
        if \<not> ok \<or> tok = [] then (Some ErrUnauthorized, w) else
        (case SplitN2 tok (CHR ''.'') of
           [expStr, sig] \<Rightarrow>
             (case ParseInt expStr of
                None \<Rightarrow> (Some ErrUnauthorized, w)
              | Some expiry \<Rightarrow>
                 if ConstantTimeCompare (sign a expStr) sig \<noteq> 1 then (Some ErrUnauthorized, w) else
                 (case time_Now e w of (now, w) \<Rightarrow>
                    if time_Unix expiry < now then (Some ErrUnauthorized, w) else (None, w)))
         | _ \<Rightarrow> (Some ErrUnauthorized, w)))"

section \<open>Middleware\<close>

text \<open>
  A handler takes the header the outer layers have set on the response, the request and the state of the replica: its
  copy of the upstream key and the two services.
\<close>

type_synonym system = "UpstreamStore \<times> world"
type_synonym handler = "header \<Rightarrow> Request \<Rightarrow> system \<Rightarrow> Response \<times> system"

definition unauthorized_response :: "header \<Rightarrow> Response" where
  \<open>unauthorized_response h =
     \<lparr>rs_status = 401, rs_header = header_Set ''Content-Type'' ''application/json'' h, rs_body = [''{"error":"unauthorized"}'']\<rparr>\<close>

definition Middleware :: "env \<Rightarrow> Auth \<Rightarrow> handler \<Rightarrow> handler" where
  "Middleware e a next h r sys =
     (case ValidateBearer e a r (snd sys) of
        (Some err, w) \<Rightarrow> (unauthorized_response h, (fst sys, w))
      | (None, w) \<Rightarrow> next h r (fst sys, w))"

section \<open>Which tokens are accepted\<close>

lemma SplitN2_cases:
  obtains a b where "SplitN2 s c = [a, b]" "s = a @ c # b" "c \<notin> set a" | "SplitN2 s c = [s]" "c \<notin> set s"
proof (cases "c \<in> set s")
  case True
  then obtain a b where "SplitN2 s c = [a, b]" by (simp add: SplitN2_def)
  with that(1) show thesis using SplitN2_two by metis
next
  case False
  with that(2) show thesis by (simp add: SplitN2_def)
qed

lemma ParseInt_no_dot: "ParseInt x = Some n \<Longrightarrow> CHR ''.'' \<notin> set x"
  by (auto simp: ParseInt_def ParseUint_def list_all_iff is_digit_def split: list.splits if_splits option.splits)

lemma ValidateBearer_iff_lemma:
  "fst (ValidateBearer e a r w) = None \<longleftrightarrow>
     (\<exists>x expiry. header_Get (Header r) ''Authorization'' = ''Bearer '' @ x @ ''.'' @ sign a x
        \<and> ParseInt x = Some expiry \<and> clock e (ev w) \<le> time_Unix expiry)"
proof -
  obtain tok ok where c: "CutPrefix (header_Get (Header r) ''Authorization'') ''Bearer '' = (tok, ok)"
    by (cases "CutPrefix (header_Get (Header r) ''Authorization'') ''Bearer ''")
  show ?thesis
  proof (cases "ok \<and> tok \<noteq> []")
    case True
    with c have "CutPrefix (header_Get (Header r) ''Authorization'') ''Bearer '' = (tok, True)" by simp
    then have h: "header_Get (Header r) ''Authorization'' = ''Bearer '' @ tok" by (simp only: CutPrefix_True)
    show ?thesis
    proof (cases rule: SplitN2_cases [of tok "CHR ''.''"])
      case (1 x sig)
      have eq: "x' = x \<and> sig = sign a x" if "x @ CHR ''.'' # sig = x' @ CHR ''.'' # sign a x'" "ParseInt x' = Some n" for x' n
      proof -
        have "SplitN2 tok (CHR ''.'') = [x', sign a x']"
          unfolding 1(2) that(1) by (rule SplitN2_append [OF ParseInt_no_dot [OF that(2)]])
        with 1(1) have "[x, sig] = [x', sign a x']" by (simp only:)
        then show ?thesis by blast
      qed
      have "fst (ValidateBearer e a r w) = None
          \<longleftrightarrow> (\<exists>n. ParseInt x = Some n \<and> sig = sign a x \<and> clock e (ev w) \<le> time_Unix n)"
        using True c 1(1) by (auto simp: ValidateBearer_def time_Now_def split: option.splits)
      moreover have "header_Get (Header r) ''Authorization'' = ''Bearer '' @ y @ ''.'' @ z
          \<longleftrightarrow> x @ CHR ''.'' # sig = y @ CHR ''.'' # z" for y z
        using h 1(2) by simp
      ultimately show ?thesis using eq by blast
    next
      case 2
      with True c h show ?thesis by (auto simp: ValidateBearer_def)
    qed
  next
    case False
    have "header_Get (Header r) ''Authorization'' \<noteq> ''Bearer '' @ y" if "y \<noteq> []" for y
    proof
      assume "header_Get (Header r) ''Authorization'' = ''Bearer '' @ y"
      with c have "CutPrefix (''Bearer '' @ y) ''Bearer '' = (tok, ok)" by (simp only:)
      then have "tok = y \<and> ok" unfolding CutPrefix_append by blast
      with False that show False by blast
    qed
    then have "header_Get (Header r) ''Authorization'' \<noteq> ''Bearer '' @ x @ ''.'' @ sign a x" for x by simp
    with False c show ?thesis by (simp add: ValidateBearer_def)
  qed
qed

text \<open>C7: a bearer token is accepted exactly if it is a decimal time, a dot and the signature of that text under the secret,
  and the time has not passed.\<close>

theorem ValidateBearer_iff:
  "fst (ValidateBearer e a r w) = None \<longleftrightarrow>
     (\<exists>x expiry. header_Get (Header r) ''Authorization'' = ''Bearer '' @ x @ ''.'' @ sign a x
        \<and> ParseInt x = Some expiry \<and> clock e (ev w) \<le> time_Unix expiry)"
  by (rule ValidateBearer_iff_lemma)

lemma ValidateBearer_world: "snd (ValidateBearer e a r w) = w \<or> snd (ValidateBearer e a r w) = tick w"
  by (auto simp: ValidateBearer_def time_Now_def split: prod.splits list.splits option.splits)

text \<open>Times before the year 292277026596 do not wrap.\<close>

lemma time_Unix_exact: "-(2 ^ 62) \<le> s \<Longrightarrow> s < 2 ^ 62 \<Longrightarrow> time_Unix s = s * Second"
  by (simp add: time_Unix_def unixToInternal_def wrap64_def)

text \<open>C8: the token a login returns is accepted by every later validation under the same secret until its whole second of
  expiry, and by none after it.\<close>

theorem IssueToken_ValidateBearer:
  assumes "IssueToken e a w = (tok, w1)" and "header_Get (Header r) ''Authorization'' = ''Bearer '' @ tok"
    and "\<bar>unix_seconds (clock e (ev w) + ttl a)\<bar> < 2 ^ 62"
  shows "fst (ValidateBearer e a r w2) = None \<longleftrightarrow>
     clock e (ev w2) \<le> unix_seconds (clock e (ev w) + ttl a) * Second"
proof -
  define n where "n = unix_seconds (clock e (ev w) + ttl a)"
  have tok: "tok = FormatInt n @ ''.'' @ sign a (FormatInt n)"
    using assms(1) by (auto simp: IssueToken_def time_Now_def Let_def n_def)
  have n: "int64_range n" "time_Unix n = n * Second"
    using assms(3) by (auto simp: n_def int64_range_def time_Unix_exact)
  then have p: "ParseInt (FormatInt n) = Some n" by (simp add: ParseInt_FormatInt int64_range_def)
  have "x = FormatInt n" if "FormatInt n @ ''.'' @ sign a (FormatInt n) = x @ ''.'' @ sign a x" "ParseInt x = Some m" for x m
  proof -
    have "[FormatInt n, sign a (FormatInt n)] = SplitN2 (FormatInt n @ CHR ''.'' # sign a (FormatInt n)) (CHR ''.'')"
      by (rule SplitN2_append [OF ParseInt_no_dot [OF p], symmetric])
    also have "\<dots> = SplitN2 (x @ CHR ''.'' # sign a x) (CHR ''.'')" using that(1) by simp
    also have "\<dots> = [x, sign a x]" by (rule SplitN2_append [OF ParseInt_no_dot [OF that(2)]])
    finally show ?thesis by simp
  qed
  with p have "(\<exists>x m. ''Bearer '' @ tok = ''Bearer '' @ x @ ''.'' @ sign a x \<and> ParseInt x = Some m \<and> clock e (ev w2) \<le> time_Unix m)
     \<longleftrightarrow> clock e (ev w2) \<le> time_Unix n"
    unfolding tok same_append_eq by (metis option.inject)
  then show ?thesis unfolding ValidateBearer_iff_lemma assms(2) n(2) unfolding n_def .
qed


text \<open>An admin with a day's session; the request carries the token of a login at the start of the concrete run.\<close>

definition demo_auth :: Auth where
  "demo_auth = NewAuth ''correct horse'' ''0123456789abcdef'' (24 * 60 * 60 * Second)"

definition demo_token :: string where
  "demo_token = ''1700086440.'' @ sign demo_auth ''1700086440''"

definition admin_request :: "string \<Rightarrow> string \<Rightarrow> string \<Rightarrow> string \<Rightarrow> Request" where
  "admin_request method path tok b =
     \<lparr>Method = method, URL_Path = path, URL_EscapedPath = path, URL_RawQuery = [], URL_Query = (\<lambda>_. []), PathValue = (\<lambda>_. []),
      Header = [(''Authorization'', [''Bearer '' @ tok])], Body = (b, None), ContentLength = int (length b)\<rparr>"

lemma admin_request_bearer [simp]: "header_Get (Header (admin_request m p tok b)) ''Authorization'' = ''Bearer '' @ tok"
proof -
  have "CanonicalHeaderKey ''Authorization'' = ''Authorization''" by code_simp
  then show ?thesis by (simp add: admin_request_def header_Get_def header_Values_def)
qed

lemma demo_IssueToken: "ev w = 0 \<Longrightarrow> IssueToken demo_env demo_auth w = (demo_token, tick w)"
proof -
  assume "ev w = 0"
  moreover have "FormatInt 1700086440 = ''1700086440''" by code_simp
  moreover have "unix_seconds (clock demo_env 0 + ttl demo_auth) = 1700086440"
    by (simp add: unix_seconds_def demo_env_def demo_auth_def NewAuth_def Second_def)
  ultimately show ?thesis by (simp add: IssueToken_def time_Now_def demo_token_def)
qed

theorem IssueToken_ValidateBearer_witness:
  "let w = \<lparr>ev = 0, api_keys = [], quota_totals = Map.empty, usage_records = [], upstream_keys = [], upstream_seq = 1, redis = Map.empty\<rparr> in
   fst (ValidateBearer demo_env demo_auth (admin_request ''GET'' ''/admin/api/keys'' demo_token []) w) = None
   \<and> fst (ValidateBearer demo_env demo_auth (admin_request ''GET'' ''/admin/api/keys'' demo_token []) (w\<lparr>ev := 90000000\<rparr>)) \<noteq> None"
proof -
  define w where "w = \<lparr>ev = 0, api_keys = [], quota_totals = Map.empty, usage_records = [], upstream_keys = [], upstream_seq = 1, redis = Map.empty\<rparr>"
  have u: "unix_seconds (clock demo_env (ev w) + ttl demo_auth) = 1700086440"
    by (simp add: w_def unix_seconds_def demo_env_def demo_auth_def NewAuth_def Second_def)
  have "fst (ValidateBearer demo_env demo_auth (admin_request ''GET'' ''/admin/api/keys'' demo_token []) v) = None
      \<longleftrightarrow> clock demo_env (ev v) \<le> 1700086440 * Second" for v
    using IssueToken_ValidateBearer [OF demo_IssueToken admin_request_bearer, of w] unfolding u by (simp add: w_def)
  then show ?thesis unfolding Let_def w_def [symmetric] by (simp add: w_def) (simp add: demo_env_def Second_def)
qed

end
