(* ===== verification/Rfc3339.thy ===== *)
theory Rfc3339
  imports Services "HOL-Library.Monad_Syntax"
begin

text \<open>
  \<open>time.Parse\<close> and \<open>Time.Format\<close> with the layout \<open>time.RFC3339\<close>.  Dates are those of the proleptic Gregorian calendar;
  days are counted from the first of January of the year 1.  The offset of the local zone at an instant is a
  parameter of \<open>Format\<close>.
\<close>

section \<open>The calendar\<close>

definition leap :: "int \<Rightarrow> bool" where
  "leap y = (y mod 4 = 0 \<and> (y mod 100 \<noteq> 0 \<or> y mod 400 = 0))"

definition month_days :: "int \<Rightarrow> int list" where
  "month_days y = [31, if leap y then 29 else 28, 31, 30, 31, 30, 31, 31, 30, 31, 30, 31]"

definition daysIn :: "int \<Rightarrow> int \<Rightarrow> int" where
  "daysIn m y = month_days y ! nat (m - 1)"

definition days_before_year :: "int \<Rightarrow> int" where
  "days_before_year y = (let z = y - 1 in 365 * z + z div 4 - z div 100 + z div 400)"

definition epoch_day :: int where
  "epoch_day = 719162"

definition time_Date :: "int \<Rightarrow> int \<Rightarrow> int \<Rightarrow> int \<Rightarrow> int \<Rightarrow> int \<Rightarrow> int \<Rightarrow> time" where
  "time_Date year month day hour mins sec nsec =
     (let days = days_before_year year + sum_list (take (nat (month - 1)) (month_days year)) + day - 1 - epoch_day in
      (days * 86400 + hour * 3600 + mins * 60 + sec) * Second + nsec)"

definition year_of :: "int \<Rightarrow> int" where
  "year_of n = (let y = 400 * n div 146097 + 1 in if days_before_year (y + 1) \<le> n then y + 1 else y)"

fun month_scan :: "int list \<Rightarrow> int \<Rightarrow> int \<Rightarrow> int \<times> int" where
  "month_scan [] m d = (m, d + 1)"
| "month_scan (l # ls) m d = (if d < l then (m, d + 1) else month_scan ls (m + 1) (d - l))"

section \<open>Format\<close>

text \<open>Zero-padded to a width.\<close>

definition appendInt :: "int \<Rightarrow> nat \<Rightarrow> string" where
  "appendInt x width =
     (let ds = FormatInt \<bar>x\<bar> in (if x < 0 then ''-'' else []) @ replicate (width - length ds) (CHR ''0'') @ ds)"

definition local_day :: "int \<Rightarrow> time \<Rightarrow> int" where
  "local_day offset t = (t div Second + offset) div 86400 + epoch_day"

definition format_zone :: "int \<Rightarrow> string" where
  "format_zone offset =
     (if offset = 0 then ''Z'' else
      let zone = go_quot offset 60 in
      (if zone < 0 then ''-'' else ''+'') @ appendInt (\<bar>zone\<bar> div 60) 2 @ '':'' @ appendInt (\<bar>zone\<bar> mod 60) 2)"

definition Format_RFC3339 :: "int \<Rightarrow> time \<Rightarrow> string" where
  "Format_RFC3339 offset t =
     (let day = local_day offset t; secs = (t div Second + offset) mod 86400; year = year_of day;
          (month, mday) = month_scan (month_days year) 1 (day - days_before_year year)
      in appendInt year 4 @ ''-'' @ appendInt month 2 @ ''-'' @ appendInt mday 2 @ ''T''
         @ appendInt (secs div 3600) 2 @ '':'' @ appendInt (secs mod 3600 div 60) 2 @ '':'' @ appendInt (secs mod 60) 2
         @ format_zone offset)"

section \<open>Parse\<close>

text \<open>
  The general parser.  \<open>Parse\<close> first tries a stricter one for this layout, which accepts fewer texts with the same
  result.
\<close>

definition two_digits :: "char \<Rightarrow> char \<Rightarrow> int" where
  "two_digits a b = 10 * int (digit_val a) + int (digit_val b)"

fun getnum :: "bool \<Rightarrow> string \<Rightarrow> (int \<times> string) option" where
  "getnum fixed (a # b # s) =
     (if \<not> is_digit a then None
      else if is_digit b then Some (two_digits a b, s)
      else if fixed then None else Some (int (digit_val a), b # s))"
| "getnum fixed [a] = (if is_digit a \<and> \<not> fixed then Some (int (digit_val a), []) else None)"
| "getnum fixed [] = None"

definition get_year :: "string \<Rightarrow> (int \<times> string) option" where
  "get_year s = (if length s < 4 \<or> \<not> list_all is_digit (take 4 s) then None else Some (int (dec_value (take 4 s)), drop 4 s))"

fun skip_char :: "char \<Rightarrow> string \<Rightarrow> string option" where
  "skip_char c [] = None"
| "skip_char c (x # s) = (if x = c then Some s else None)"

definition ensure :: "bool \<Rightarrow> unit option" where
  "ensure b = (if b then Some () else None)"

text \<open>An optional fraction: a comma or period and digits, of which the first nine count.\<close>

definition get_frac :: "string \<Rightarrow> int \<times> string" where
  "get_frac s =
     (case s of
        c # d # _ \<Rightarrow>
          if (c = CHR ''.'' \<or> c = CHR '','') \<and> is_digit d then
            let ds = takeWhile is_digit (tl s); k = take 9 ds
            in (dec_value_int k * 10 ^ (9 - length k), drop (Suc (length ds)) s)
          else (0, s)
      | _ \<Rightarrow> (0, s))"

definition get_zone :: "string \<Rightarrow> (int \<times> string) option" where
  "get_zone s =
     (if take 1 s = ''Z'' then Some (0, drop 1 s)
      else if length s < 6 \<or> s ! 3 \<noteq> CHR '':'' then None
      else do {
        (hr, _) \<leftarrow> getnum True (take 2 (drop 1 s));
        (mm, _) \<leftarrow> getnum True (take 2 (drop 4 s));
        _ \<leftarrow> ensure (hr \<le> 24 \<and> mm \<le> 60);
        _ \<leftarrow> ensure (s ! 0 = CHR ''+'' \<or> s ! 0 = CHR ''-'');
        Some ((if s ! 0 = CHR ''-'' then -1 else 1) * (hr * 60 + mm) * 60, drop 6 s)
      })"

definition Parse_RFC3339 :: "string \<Rightarrow> time option" where
  "Parse_RFC3339 s = do {
     (year, s) \<leftarrow> get_year s;
     s \<leftarrow> skip_char (CHR ''-'') s;
     (month, s) \<leftarrow> getnum True s;
     _ \<leftarrow> ensure (1 \<le> month \<and> month \<le> 12);
     s \<leftarrow> skip_char (CHR ''-'') s;
     (day, s) \<leftarrow> getnum True s;
     s \<leftarrow> skip_char (CHR ''T'') s;
     (hour, s) \<leftarrow> getnum False s;
     _ \<leftarrow> ensure (hour < 24);
     s \<leftarrow> skip_char (CHR '':'') s;
     (mins, s) \<leftarrow> getnum True s;
     _ \<leftarrow> ensure (mins < 60);
     s \<leftarrow> skip_char (CHR '':'') s;
     (sec, s) \<leftarrow> getnum True s;
     _ \<leftarrow> ensure (sec < 60);
     (nsec, s) \<leftarrow> Some (get_frac s);
     (zone, s) \<leftarrow> get_zone s;
     _ \<leftarrow> ensure (s = []);
     _ \<leftarrow> ensure (1 \<le> day \<and> day \<le> daysIn month year);
     Some (time_Date year month day hour mins sec nsec - zone * Second)
   }"

section \<open>The calendar is right\<close>

lemma div_pred: "0 < k \<Longrightarrow> y div k = (y - 1) div k + (if y mod k = 0 then 1 else 0)" for y k :: int
proof -
  assume k: "0 < k"
  define q r where "q = y div k" and "r = y mod k"
  have y: "y = k * q + r" "0 \<le> r" "r < k" using k by (simp_all add: q_def r_def)
  show ?thesis
  proof (cases "r = 0")
    case True
    have "(y - 1) div k = q - 1" by (rule int_div_pos_eq [where r = "k - 1"]) (use True k y in \<open>auto simp: algebra_simps\<close>)
    with True show ?thesis by (simp add: q_def r_def)
  next
    case False
    have "(y - 1) div k = q" by (rule int_div_pos_eq [where r = "r - 1"]) (use False k y in auto)
    with False show ?thesis by (simp add: q_def r_def)
  qed
qed

lemma leap_arith:
  fixes y :: int
  assumes "a' = a + (if p then 1 else 0)" "b' = b + (if q then 1 else 0)" "c' = c + (if r then 1 else 0)" "q \<Longrightarrow> p" "r \<Longrightarrow> q"
  shows "365 * y + a' - b' + c' = 365 * (y - 1) + a - b + c + (if p \<and> (\<not> q \<or> r) then 366 else 365)"
  using assms by (cases p; cases q; cases r) simp_all

lemma leap_step: "days_before_year (y + 1) = days_before_year y + (if leap y then 366 else 365)"
proof -
  have step: "y div 4 = (y - 1) div 4 + (if y mod 4 = 0 then 1 else 0)"
    "y div 100 = (y - 1) div 100 + (if y mod 100 = 0 then 1 else 0)"
    "y div 400 = (y - 1) div 400 + (if y mod 400 = 0 then 1 else 0)"
    by (rule div_pred; simp)+
  have "(4 :: int) dvd 100" "(100 :: int) dvd 400" by simp_all
  then have "y mod 100 = 0 \<Longrightarrow> y mod 4 = 0" "y mod 400 = 0 \<Longrightarrow> y mod 100 = 0"
    unfolding mod_eq_0_iff_dvd by (blast intro: dvd_trans)+
  note arith = leap_arith [OF step this, of y]
  have "y + 1 - 1 = y" by simp
  then show ?thesis unfolding days_before_year_def Let_def leap_def using arith by (simp only:)
qed

lemma sum_month_days: "sum_list (month_days y) = (if leap y then 366 else 365)"
  by (simp add: month_days_def)

lemma year_of_bounds: "days_before_year (year_of n) \<le> n \<and> n < days_before_year (year_of n + 1)"
proof -
  define q where "q = 400 * n div 146097"
  have q: "146097 * q \<le> 400 * n" "400 * n < 146097 * (q + 1)"
    using div_mult_mod_eq [of "400 * n" 146097] pos_mod_bound [of 146097 "400 * n"] pos_mod_sign [of 146097 "400 * n"]
    unfolding q_def by simp_all
  have lo: "400 * days_before_year (z + 1) \<le> 146097 * z + 396" for z
    unfolding days_before_year_def Let_def by simp
  have hi: "146097 * z - 699 \<le> 400 * days_before_year (z + 1)" for z
    unfolding days_before_year_def Let_def by simp
  have "days_before_year (q + 1) \<le> n" using lo [of q] q(1) by linarith
  moreover have "n < days_before_year (q + 3)" using hi [of "q + 2"] q(2) by (simp add: add.commute)
  ultimately show ?thesis by (auto simp: year_of_def Let_def q_def [symmetric] add.commute)
qed

lemma month_scan_inverse:
  "\<lbrakk>month_scan ls m d = (m', d'); 0 \<le> d; d < sum_list ls\<rbrakk> \<Longrightarrow>
     m \<le> m' \<and> nat (m' - m) < length ls \<and> 1 \<le> d' \<and> d' \<le> ls ! nat (m' - m) \<and> sum_list (take (nat (m' - m)) ls) + d' - 1 = d"
proof (induction ls arbitrary: m d)
  case (Cons l ls)
  show ?case
  proof (cases "d < l")
    case False
    with Cons.prems have "month_scan ls (m + 1) (d - l) = (m', d')" "0 \<le> d - l" "d - l < sum_list ls" by auto
    from Cons.IH [OF this] have i: "m + 1 \<le> m'" "nat (m' - (m + 1)) < length ls" "1 \<le> d'" "d' \<le> ls ! nat (m' - (m + 1))"
      "sum_list (take (nat (m' - (m + 1))) ls) + d' - 1 = d - l" by auto
    then have "nat (m' - m) = Suc (nat (m' - (m + 1)))" by linarith
    with i show ?thesis by simp
  qed (use Cons.prems in auto)
qed simp

section \<open>Round trip\<close>

lemma appendInt_2:
  assumes "0 \<le> n" "n < 100"
  shows "appendInt n 2 = [digit_char (nat n div 10), digit_char (nat n mod 10)]"
proof (cases "n < 10")
  case True
  have "CHR ''0'' = digit_char 0" by code_simp
  with True assms show ?thesis by (simp add: appendInt_def Let_def FormatInt_def dec_digits.simps [of "nat n"] nat_less_iff)
next
  case False
  then have "\<not> nat n < 10" "nat n div 10 < 10" using assms by linarith+
  with assms show ?thesis
    by (simp add: appendInt_def Let_def FormatInt_def dec_digits.simps [of "nat n"] dec_digits.simps [of "nat n div 10"])
qed

lemma getnum_appendInt [simp]: "0 \<le> n \<Longrightarrow> n < 100 \<Longrightarrow> getnum f (appendInt n 2 @ s) = Some (n, s)"
proof -
  assume n: "0 \<le> n" "n < 100"
  then have "nat n div 10 < 10" "nat n mod 10 < 10" by linarith+
  moreover have "10 * int (nat n div 10) + int (nat n mod 10) = n" using n by (metis div_mult_mod_eq int_nat_eq mult.commute of_nat_add of_nat_mult of_nat_numeral)
  ultimately show ?thesis using n by (simp add: appendInt_2 two_digits_def)
qed

lemma length_dec_digits: "n < 10 ^ k \<Longrightarrow> 0 < k \<Longrightarrow> length (dec_digits n) \<le> k"
proof (induction n arbitrary: k rule: dec_digits.induct)
  case (1 n)
  show ?case
  proof (cases "n < 10")
    case True
    with 1 show ?thesis by (simp add: dec_digits.simps [of n])
  next
    case False
    with "1.prems" obtain j where k: "k = Suc j" "0 < j" by (cases k; cases "k - 1") auto
    with "1.prems" have "n div 10 < 10 ^ j" by (simp add: less_mult_imp_div_less mult.commute)
    with 1 False k show ?thesis by (simp add: dec_digits.simps [of n])
  qed
qed

lemma dec_value_zeros [simp]: "dec_value (replicate k (CHR ''0'') @ ds) = dec_value ds"
proof -
  have "foldl (\<lambda>n c. 10 * n + digit_val c) 0 (replicate k (CHR ''0'')) = 0"
    by (induction k) (simp_all add: digit_val_def)
  then show ?thesis by (simp add: dec_value_def)
qed

lemma get_year_appendInt: "0 \<le> y \<Longrightarrow> y \<le> 9999 \<Longrightarrow> get_year (appendInt y 4 @ s) = Some (y, s)"
proof -
  assume y: "0 \<le> y" "y \<le> 9999"
  then have "nat y < 10 ^ 4" by (simp add: nat_less_iff)
  then have l: "length (dec_digits (nat y)) \<le> 4" by (rule length_dec_digits) simp
  let ?a = "replicate (4 - length (dec_digits (nat y))) (CHR ''0'') @ dec_digits (nat y)"
  have a: "appendInt y 4 = ?a" using y by (simp add: appendInt_def Let_def FormatInt_def)
  have "list_all is_digit ?a" using dec_digits_digits [of "nat y"] by (auto simp: list_all_iff is_digit_def)
  moreover have "length ?a = 4" using l by simp
  moreover have "dec_value ?a = nat y" by simp
  ultimately show ?thesis unfolding a get_year_def using y by (simp del: append_assoc)
qed

lemma get_zone_format:
  assumes "offset = 60 * k" "\<bar>offset\<bar> < 86400"
  shows "get_zone (format_zone offset) = Some (offset, []) \<and> get_frac (format_zone offset) = (0, format_zone offset)"
proof (cases "offset = 0")
  case True
  then show ?thesis by (simp add: format_zone_def get_zone_def get_frac_def)
next
  case False
  have "- (60 * k) div 60 = - k" by (simp only: mult_minus_right [symmetric])
  then have q: "go_quot offset 60 = k" using assms(1) by (auto simp: go_quot_def)
  define hr mm where "hr = \<bar>k\<bar> div 60" and "mm = \<bar>k\<bar> mod 60"
  have h: "0 \<le> hr" "hr < 24" "0 \<le> mm" "mm < 60" using assms by (auto simp: hr_def mm_def)
  then obtain a b c d where ab: "appendInt hr 2 = [a, b]" "appendInt mm 2 = [c, d]" by (simp add: appendInt_2)
  have m: "getnum True [a, b] = Some (hr, [])" "getnum True [c, d] = Some (mm, [])"
    using getnum_appendInt [of hr True "[]"] getnum_appendInt [of mm True "[]"] h by (simp_all add: ab)
  have "hr * 60 + mm = \<bar>k\<bar>" unfolding hr_def mm_def by (rule div_mult_mod_eq)
  then have s: "(if k < 0 then -1 else 1) * (hr * 60 + mm) * 60 = offset" using assms(1) by simp
  have f: "format_zone offset = (if k < 0 then CHR ''-'' else CHR ''+'') # [a, b, CHR '':'', c, d]"
    unfolding format_zone_def q Let_def hr_def [symmetric] mm_def [symmetric] ab using False by simp
  have "get_zone (format_zone offset) = Some ((if k < 0 then -1 else 1) * (hr * 60 + mm) * 60, [])"
    unfolding f using h by (simp add: get_zone_def m ensure_def del: getnum.simps)
  then show ?thesis unfolding s by (simp add: f get_frac_def)
qed

lemma clock_parts: "secs div 3600 * 3600 + secs mod 3600 div 60 * 60 + secs mod 60 = (secs :: int)"
proof -
  have "secs mod 3600 mod 60 = secs mod 60" by (simp add: mod_mod_cancel)
  then show ?thesis using div_mult_mod_eq [of "secs mod 3600" 60] div_mult_mod_eq [of secs 3600] by linarith
qed

lemma Parse_Format:
  assumes "offset = 60 * k" "\<bar>offset\<bar> < 86400" and "0 \<le> year_of (local_day offset t)" "year_of (local_day offset t) \<le> 9999"
  shows "Parse_RFC3339 (Format_RFC3339 offset t) = Some (t div Second * Second)"
proof -
  define day secs year where "day = local_day offset t" and "secs = (t div Second + offset) mod 86400" and "year = year_of day"
  obtain month mday where ms: "month_scan (month_days year) 1 (day - days_before_year year) = (month, mday)"
    by (cases "month_scan (month_days year) 1 (day - days_before_year year)")
  have "0 \<le> day - days_before_year year" "day - days_before_year year < sum_list (month_days year)"
    using year_of_bounds [of day] leap_step [of year] by (auto simp: sum_month_days year_def)
  note inv = month_scan_inverse [OF ms this]
  have len: "length (month_days year) = 12" by (simp add: month_days_def)
  have "nat (month - 1) < 12" using inv len by simp
  then have "daysIn month year \<in> set (month_days year)" by (simp add: daysIn_def len)
  then have "daysIn month year \<le> 31" by (auto simp: month_days_def split: if_splits)
  then have m: "1 \<le> month" "month \<le> 12" "1 \<le> mday" "mday \<le> daysIn month year" "mday < 100" using inv len by (auto simp: daysIn_def)
  have s: "0 \<le> secs" "secs < 86400" by (simp_all add: secs_def)
  then have c: "0 \<le> secs div 3600" "secs div 3600 < 24" "0 \<le> secs mod 3600 div 60" "secs mod 3600 div 60 < 60" "0 \<le> secs mod 60" "secs mod 60 < 60"
    by auto
  have z: "get_zone (format_zone offset) = Some (offset, [])" "get_frac (format_zone offset) = (0, format_zone offset)"
    using get_zone_format [OF assms(1,2)] by auto
  have "Parse_RFC3339 (Format_RFC3339 offset t)
      = Some (time_Date year month mday (secs div 3600) (secs mod 3600 div 60) (secs mod 60) 0 - offset * Second)"
    unfolding Format_RFC3339_def Let_def day_def [symmetric] secs_def [symmetric] year_def [symmetric] ms prod.case Parse_RFC3339_def
    using assms(3,4) m c z by (simp add: get_year_appendInt ensure_def day_def [symmetric] year_def [symmetric])
  moreover have "time_Date year month mday (secs div 3600) (secs mod 3600 div 60) (secs mod 60) 0
      = ((day - epoch_day) * 86400 + secs) * Second"
  proof -
    have "days_before_year year + sum_list (take (nat (month - 1)) (month_days year)) + mday - 1 - epoch_day = day - epoch_day"
      using inv by simp
    then show ?thesis unfolding time_Date_def Let_def using clock_parts [of secs] by (simp add: add.assoc)
  qed
  moreover have "(day - epoch_day) * 86400 + secs = t div Second + offset" by (simp add: day_def secs_def local_day_def)
  ultimately show ?thesis by (metis add_diff_cancel_right' distrib_right)
qed

end
