(* ===== verification/Mux.thy ===== *)
theory Mux
  imports Http
begin

text \<open>
  \<open>http.ServeMux\<close> as the program uses it: patterns of a method and path segments, of which some are wildcards and the last
  may stand for the rest of the path; the choice of the most specific pattern; redirects to the clean path and to the
  path with a trailing slash; and the answers when no pattern matches.
\<close>

section \<open>Paths\<close>

fun unescape :: "string \<Rightarrow> string option" where
  "unescape [] = Some []"
| "unescape (c # s) =
     (if c = CHR ''%'' then
        (case s of
           a # b # r \<Rightarrow>
             (case (hex_val a, hex_val b, unescape r) of
                (Some x, Some y, Some r') \<Rightarrow> Some (char_of (16 * x + y) # r')
              | _ \<Rightarrow> None)
         | _ \<Rightarrow> None)
      else map_option (\<lambda>r. c # r) (unescape s))"

definition pathUnescape :: "string \<Rightarrow> string" where
  "pathUnescape s = (case unescape s of None \<Rightarrow> s | Some r \<Rightarrow> r)"

text \<open>The segments of a path; a trailing slash is a segment of its own.\<close>

definition path_segments :: "string \<Rightarrow> string list" where
  "path_segments p =
     (if p = [] then [] else
      let ss = Split (drop 1 p) (CHR ''/'') in
      map pathUnescape (butlast ss) @ [if last ss = [] then ''/'' else pathUnescape (last ss)])"

definition clean_step :: "string \<Rightarrow> string list \<Rightarrow> string list" where
  "clean_step s acc = (if s = [] \<or> s = ''.'' then acc else if s = ''..'' then tl acc else s # acc)"

definition cleanPath :: "string \<Rightarrow> string" where
  "cleanPath p =
     (if p = [] then ''/'' else
      let p = (if take 1 p = ''/'' then p else ''/'' @ p);
          np = concat (map (\<lambda>s. ''/'' @ s) (rev (fold clean_step (Split p (CHR ''/'')) []))) in
      if np = [] then ''/'' else if last p = CHR ''/'' then np @ ''/'' else np)"

section \<open>Patterns\<close>

datatype seg = Lit string | Wild string | Rest

record 'h route =
  rt_method :: string
  rt_segs :: "seg list"
  rt_handler :: 'h

fun is_wild :: "seg \<Rightarrow> bool" where
  "is_wild (Wild _) = True"
| "is_wild _ = False"

text \<open>The candidates whose next segment satisfies a condition, without that segment.\<close>

definition descend :: "(seg \<Rightarrow> bool) \<Rightarrow> (seg list \<times> 'p) list \<Rightarrow> (seg list \<times> 'p) list" where
  "descend P rs = map (\<lambda>(gs, p). (tl gs, p)) (filter (\<lambda>(gs, p). gs \<noteq> [] \<and> P (hd gs)) rs)"

text \<open>A literal is preferred to a wildcard, and a wildcard to the rest of the path.\<close>

fun match_path :: "(seg list \<times> 'p) list \<Rightarrow> string list \<Rightarrow> string list \<Rightarrow> ('p \<times> string list) option" where
  "match_path rs [] vs = map_option (\<lambda>(_, p). (p, vs)) (find (\<lambda>(gs, _). gs = []) rs)"
| "match_path rs (s # ss) vs =
     (case match_path (descend (\<lambda>g. g = Lit s) rs) ss vs of
        Some m \<Rightarrow> Some m
      | None \<Rightarrow>
         (case (if s = ''/'' then None else match_path (descend is_wild rs) ss (vs @ [s])) of
            Some m \<Rightarrow> Some m
          | None \<Rightarrow> map_option (\<lambda>(_, p). (p, vs)) (find (\<lambda>(gs, _). gs = [Rest]) rs)))"

definition with_method :: "string \<Rightarrow> 'h route list \<Rightarrow> (seg list \<times> 'h route) list" where
  "with_method m rs = map (\<lambda>r. (rt_segs r, r)) (filter (\<lambda>r. rt_method r = m) rs)"

text \<open>The empty method stands for all; a pattern for \<open>GET\<close> also matches \<open>HEAD\<close>.\<close>

definition tree_match :: "'h route list \<Rightarrow> string \<Rightarrow> string \<Rightarrow> ('h route \<times> string list) option" where
  "tree_match rs method path =
     (let go = (\<lambda>m. match_path (with_method m rs) (path_segments path) []) in
      case go method of
        Some x \<Rightarrow> Some x
      | None \<Rightarrow>
         (case (if method = ''HEAD'' then go ''GET'' else None) of
            Some x \<Rightarrow> Some x
          | None \<Rightarrow> go []))"

definition exactMatch :: "('h route \<times> string list) option \<Rightarrow> string \<Rightarrow> bool" where
  "exactMatch n path =
     (case n of
        None \<Rightarrow> False
      | Some (r, _) \<Rightarrow>
         last (rt_segs r) \<noteq> Rest
         \<or> (path \<noteq> [] \<longrightarrow> last path = CHR ''/'') \<and> length (rt_segs r) = length (filter (\<lambda>c. c = CHR ''/'') path))"

section \<open>Dispatch\<close>

datatype 'h routed =
    Run 'h "(string \<times> string) list"
  | RedirectTo string
  | MethodNotAllowed "string list"
  | NoRoute

definition wild_names :: "seg list \<Rightarrow> string list" where
  "wild_names gs = concat (map (\<lambda>g. case g of Wild n \<Rightarrow> [n] | _ \<Rightarrow> []) gs)"

definition matchingMethods :: "'h route list \<Rightarrow> string \<Rightarrow> string list" where
  "matchingMethods rs path =
     (let hit = (\<lambda>p m. match_path (with_method m rs) (path_segments p) [] \<noteq> None);
          ms = filter (\<lambda>m. m \<noteq> [] \<and> (hit path m \<or> (\<not> HasSuffix path ''/'' \<and> hit (path @ ''/'') m))) (map rt_method rs);
          ms = (if ''GET'' \<in> set ms then ''HEAD'' # ms else ms)
      in map fst (fold (\<lambda>m. map_set m ()) ms []))"

definition findHandler :: "'h route list \<Rightarrow> Request \<Rightarrow> 'h routed" where
  "findHandler rs r =
     (let escaped = URL_EscapedPath r;
          connect = (Method r = ''CONNECT'');
          path = (if connect then escaped else cleanPath escaped);
          n = tree_match rs (Method r) path in
      if \<not> exactMatch n path \<and> \<not> HasSuffix path ''/'' \<and> path \<noteq> []
         \<and> exactMatch (tree_match rs (Method r) (path @ ''/'')) (path @ ''/'')
      then RedirectTo (cleanPath (URL_Path r) @ ''/'')
      else if path \<noteq> escaped then RedirectTo path
      else (case n of
              Some (rt, vs) \<Rightarrow> Run (rt_handler rt) (zip (wild_names (rt_segs rt)) vs)
            | None \<Rightarrow>
               (case matchingMethods rs path of
                  [] \<Rightarrow> NoRoute
                | ms \<Rightarrow> MethodNotAllowed ms)))"

section \<open>Answers of the library\<close>

definition http_Error :: "header \<Rightarrow> string \<Rightarrow> int \<Rightarrow> Response" where
  "http_Error h msg code =
     \<lparr>rs_status = code,
      rs_header = header_Set ''X-Content-Type-Options'' ''nosniff''
        (header_Set ''Content-Type'' ''text/plain; charset=utf-8'' (header_Del ''Content-Length'' h)),
      rs_body = [msg @ [CHR 0x0A]]\<rparr>"

definition not_found_response :: "header \<Rightarrow> Response" where
  "not_found_response h = http_Error h ''404 page not found'' 404"

definition not_allowed_response :: "string list \<Rightarrow> header \<Rightarrow> Response" where
  "not_allowed_response ms h = http_Error (header_Set ''Allow'' (join_with '', '' ms) h) ''Method Not Allowed'' 405"

text \<open>\<open>SetPathValue\<close> for the wildcards of the pattern that matched; other names are empty.\<close>

definition path_value :: "(string \<times> string) list \<Rightarrow> string \<Rightarrow> string" where
  "path_value vs n = (case map_of vs n of None \<Rightarrow> [] | Some v \<Rightarrow> v)"

section \<open>Only registered handlers run\<close>

lemma match_path_member: "match_path rs ss vs = Some (p, vs') \<Longrightarrow> p \<in> snd ` set rs"
proof (induction rs ss vs rule: match_path.induct)
  case (1 rs vs)
  then obtain gs where "find (\<lambda>(gs, _). gs = []) rs = Some (gs, p)" by auto
  then have "(gs, p) \<in> set rs" by (auto dest: find_SomeD)
  then show ?case by force
next
  case (2 rs s ss vs)
  have d: "p \<in> snd ` set (descend P rs) \<Longrightarrow> p \<in> snd ` set rs" for P by (force simp: descend_def)
  consider "match_path (descend (\<lambda>g. g = Lit s) rs) ss vs = Some (p, vs')"
    | "match_path (descend (\<lambda>g. g = Lit s) rs) ss vs = None" "s \<noteq> ''/''" "match_path (descend is_wild rs) ss (vs @ [s]) = Some (p, vs')"
    | gs where "find (\<lambda>(gs, _). gs = [Rest]) rs = Some (gs, p)"
    using "2.prems" by (auto split: option.splits if_splits)
  then show ?case
  proof cases
    case 1
    then show ?thesis by (rule d [OF "2.IH"(1)])
  next
    case 2
    then show ?thesis by (rule d [OF "2.IH"(2)])
  next
    case (3 gs)
    then have "(gs, p) \<in> set rs" by (auto dest: find_SomeD)
    then show ?thesis by force
  qed
qed

lemma tree_match_member: "tree_match rs m p = Some (rt, vs) \<Longrightarrow> rt \<in> set rs"
  by (auto simp: tree_match_def Let_def with_method_def split: option.splits if_splits dest!: match_path_member)

lemma findHandler_Run: "findHandler rs r = Run h vs \<Longrightarrow> h \<in> rt_handler ` set rs"
  by (auto simp: findHandler_def Let_def split: option.splits if_splits list.splits dest: tree_match_member)

end
