(* ===== verification/Json_Struct.thy ===== *)
theory Json_Struct
  imports Http
begin

text \<open>
  Decoding JSON into structs, as \<open>json.Unmarshal\<close> and \<open>Decoder.Decode\<close> do it, and the texts of errors.  A decoder that
  meets a value of the wrong kind goes on and reports the error at the end; the callers use nothing of a struct that
  was decoded with an error, so \<^term>\<open>None\<close> stands for it.
\<close>

section \<open>Members and fields\<close>

text \<open>
  Struct fields match member names exactly or under case folding, which takes the Kelvin sign U+212A to \<open>K\<close> and
  the long s U+017F to \<open>S\<close>.
\<close>

fun fold_name :: "string \<Rightarrow> string" where
  "fold_name [] = []"
| "fold_name (a # s) =
     (if a = CHR 0xC5 \<and> take 1 s = [CHR 0xBF] then CHR ''S'' # fold_name (drop 1 s)
      else if a = CHR 0xE2 \<and> take 2 s = [CHR 0x84, CHR 0xAA] then CHR ''K'' # fold_name (drop 2 s)
      else upper a # fold_name s)"

definition field :: "string \<Rightarrow> string \<Rightarrow> bool" where
  "field name k = (fold_name k = fold_name name)"

text \<open>Decoding a value into an \<open>int\<close> or a \<open>string\<close>: \<open>null\<close> leaves it, other kinds are errors.\<close>

definition dec_int :: "json \<Rightarrow> int \<Rightarrow> int option" where
  "dec_int v old = (case v of JNull \<Rightarrow> Some old | JNum s \<Rightarrow> ParseInt s | _ \<Rightarrow> None)"

definition dec_string :: "json \<Rightarrow> string \<Rightarrow> string option" where
  "dec_string v old = (case v of JNull \<Rightarrow> Some old | JStr s \<Rightarrow> Some s | _ \<Rightarrow> None)"

text \<open>Decoding into a \<open>bool\<close>, a \<open>float64\<close>, and through a pointer: \<open>null\<close> makes the pointer nil.\<close>

definition dec_bool :: "json \<Rightarrow> bool \<Rightarrow> bool option" where
  "dec_bool v old = (case v of JNull \<Rightarrow> Some old | JBool b \<Rightarrow> Some b | _ \<Rightarrow> None)"

definition dec_float :: "json \<Rightarrow> rat \<Rightarrow> rat option" where
  "dec_float v old = (case v of JNull \<Rightarrow> Some old | JNum s \<Rightarrow> lit_float s | _ \<Rightarrow> None)"

definition dec_ptr :: "(json \<Rightarrow> 'a \<Rightarrow> 'a option) \<Rightarrow> 'a \<Rightarrow> json \<Rightarrow> 'a option option" where
  "dec_ptr dec zero v = (if v = JNull then Some None else map_option Some (dec v zero))"

text \<open>The members of an object, in order, each decoded into the struct by the field it matches.\<close>

fun dec_members :: "(string \<Rightarrow> json \<Rightarrow> 'r \<Rightarrow> 'r option) \<Rightarrow> (string \<times> json) list \<Rightarrow> 'r \<Rightarrow> 'r option" where
  "dec_members f [] q = Some q"
| "dec_members f ((k, v) # ms) q = Option.bind (f k v q) (dec_members f ms)"

text \<open>
  \<open>json.NewDecoder(body).Decode(&x)\<close>: the first value of the body decides, whatever follows it; \<open>null\<close> leaves the
  struct as it is, and only an object can fill it.
\<close>

definition Decode :: "(string \<Rightarrow> json \<Rightarrow> 'r \<Rightarrow> 'r option) \<Rightarrow> 'r \<Rightarrow> body \<Rightarrow> 'r option" where
  "Decode member zero b =
     (case json_first (fst b) of
        Some JNull \<Rightarrow> Some zero
      | Some (JObj ms) \<Rightarrow> dec_members member ms zero
      | _ \<Rightarrow> None)"

section \<open>Error texts\<close>

text \<open>\<open>err.Error()\<close>\<close>

fun error_text :: "error \<Rightarrow> string" where
  "error_text ErrNotFound = ''key not found''"
| "error_text ErrInvalid = ''invalid key''"
| "error_text ErrInactive = ''key inactive''"
| "error_text ErrExpired = ''key expired''"
| "error_text ErrUnauthorized = ''unauthorized''"
| "error_text ErrNoRows = ''no rows in result set''"
| "error_text (Err m) = m"
| "error_text (ErrWrap m e) = m @ '': '' @ error_text e"

end
