(* ===== verification/Keys.thy ===== *)
theory Keys
  imports Services
begin

text \<open>
  Package \<open>internal/keys\<close>, files \<open>keys.go\<close> and \<open>hash.go\<close>: issuing, verifying and managing proxy keys, the
  per-minute rate limit, the token and dollar quotas and the usage log.  Each method of \<open>Service\<close> is one
  definition that takes the environment and the state and returns the result and the new state; every SQL
  statement and every Redis command of the method is one call, in the order of the code.
\<close>

section \<open>Service\<close>

record Service =
  prefix_of_service :: string
  cacheTTL :: int

definition NewService :: "string \<Rightarrow> int \<Rightarrow> Service" where
  "NewService keyPrefix ttl = \<lparr>prefix_of_service = keyPrefix, cacheTTL = ttl\<rparr>"

section \<open>hash.go\<close>

definition argonTime :: nat where "argonTime = 1"
definition argonMemory :: int where "argonMemory = 32 * 1024"
definition argonThreads :: nat where "argonThreads = 2"
definition argonKeyLen :: nat where "argonKeyLen = 32"

definition encode_hash :: "string \<Rightarrow> string \<Rightarrow> string" where
  "encode_hash salt digest = ''argon2id$'' @ hex_encode salt @ ''$'' @ hex_encode digest"

definition hashKey :: "env \<Rightarrow> string \<Rightarrow> world \<Rightarrow> string result \<times> world" where
  "hashKey e plain w =
     (case rand_Read e 16 w of
        (Inl err, w) \<Rightarrow> (Inl err, w)
      | (Inr salt, w) \<Rightarrow>
         (Inr (encode_hash salt (argon2_IDKey e plain salt argonTime argonMemory argonThreads argonKeyLen)), w))"

definition verifyHash :: "env \<Rightarrow> string \<Rightarrow> string \<Rightarrow> bool" where
  "verifyHash e plain encoded =
     (case Split encoded (CHR ''$'') of
        [p0, p1, p2] \<Rightarrow>
          if p0 \<noteq> ''argon2id'' then False else
          (case hex_decode p1 of
             None \<Rightarrow> False
           | Some salt \<Rightarrow>
              (case hex_decode p2 of
                 None \<Rightarrow> False
               | Some expected \<Rightarrow>
                   ConstantTimeCompare
                     (argon2_IDKey e plain salt argonTime argonMemory argonThreads
                        (nat (int (length expected) mod 2 ^ 32)))
                     expected = 1))
      | _ \<Rightarrow> False)"

section \<open>Internals\<close>

definition prefixOf :: "Service \<Rightarrow> string \<Rightarrow> string" where
  "prefixOf s plain =
     (let cut = length (prefix_of_service s) + 8 in
      if length plain < cut then plain else take cut plain)"

definition nullableText :: "string \<Rightarrow> string option" where
  "nullableText s = (if s = [] then None else Some s)"

definition verify_key :: "string \<Rightarrow> string" where
  "verify_key pre = ''verify:'' @ pre"

definition find_prefix :: "string \<Rightarrow> world \<Rightarrow> api_key_row option" where
  "find_prefix p w = find (\<lambda>r. Prefix (row_key r) = p) (api_keys w)"

definition find_id :: "uuid \<Rightarrow> world \<Rightarrow> api_key_row option" where
  "find_id i w = find (\<lambda>r. ID (row_key r) = i) (api_keys w)"

definition scan_key :: "env \<Rightarrow> api_key_row \<Rightarrow> Key" where
  "scan_key e r = (row_key r)\<lparr>DollarQuota := map_option (pg_float e) (DollarQuota (row_key r))\<rparr>"

definition invalidateCache :: "env \<Rightarrow> uuid \<Rightarrow> world \<Rightarrow> world" where
  "invalidateCache e i w =
     (case db_call e (\<lambda>_ w. (case find_id i w of
                               None \<Rightarrow> (Inl ErrNoRows, w)
                             | Some r \<Rightarrow> (Inr (Prefix (row_key r)), w))) w of
        (Inl err, w) \<Rightarrow> w
      | (Inr p, w) \<Rightarrow> snd (rdb_Del e (verify_key p) w))"

definition validateKey :: "env \<Rightarrow> Key option \<Rightarrow> world \<Rightarrow> error option \<times> world" where
  "validateKey e k w =
     (case k of
        None \<Rightarrow> (Some ErrInvalid, w)
      | Some k \<Rightarrow>
         if \<not> Active k then (Some ErrInactive, w)
         else (case ExpiresAt k of
                 None \<Rightarrow> (None, w)
               | Some t \<Rightarrow>
                  (case time_Now e w of (now, w) \<Rightarrow> (if t < now then Some ErrExpired else None, w))))"

section \<open>Issue and verify\<close>

text \<open>The column values of an \<open>IssueParams\<close>: \<^term>\<open>None\<close> when a number does not fit its column.\<close>

definition store_dollar :: "env \<Rightarrow> rat option \<Rightarrow> rat option option" where
  "store_dollar e d =
     (case d of None \<Rightarrow> Some None | Some x \<Rightarrow> map_option Some (numeric_14_8 (pg_decimal e x)))"

definition rpm_fits :: "int option \<Rightarrow> bool" where
  "rpm_fits r = (case r of None \<Rightarrow> True | Some n \<Rightarrow> int4_range n)"

definition out_of_range :: error where
  "out_of_range = Err ''value out of range''"

definition insert_key ::
  "env \<Rightarrow> uuid \<Rightarrow> string \<Rightarrow> string \<Rightarrow> IssueParams \<Rightarrow> time \<Rightarrow> world \<Rightarrow> unit result \<times> world" where
  "insert_key e i pre hash p now w =
     (case store_dollar e (p_DollarQuota p) of
        None \<Rightarrow> (Inl out_of_range, w)
      | Some dq \<Rightarrow>
         if \<not> rpm_fits (p_RPMLimit p) then (Inl out_of_range, w)
         else if find_id i w \<noteq> None \<or> find_prefix pre w \<noteq> None
           then (Inl (Err ''duplicate key value violates unique constraint''), w)
         else (Inr (), w\<lparr>api_keys := api_keys w @
                 [\<lparr>row_key = \<lparr>ID = i, Prefix = pre, Owner = p_Owner p, Note = p_Note p,
                              ExpiresAt = map_option (pg_time e) (p_ExpiresAt p),
                              RPMLimit = p_RPMLimit p, TokenQuota = p_TokenQuota p, DollarQuota = dq,
                              Active = True, CreatedAt = now, LastUsedAt = None\<rparr>,
                   row_hash = hash\<rparr>]\<rparr>))"

definition insert_quota :: "uuid \<Rightarrow> time \<Rightarrow> world \<Rightarrow> unit result \<times> world" where
  "insert_quota i now w =
     (if find_id i w = None then (Inl (Err ''violates foreign key constraint''), w)
      else (case quota_totals w i of
              Some _ \<Rightarrow> (Inr (), w)
            | None \<Rightarrow> (Inr (), w\<lparr>quota_totals := (quota_totals w)
                        (i \<mapsto> \<lparr>total_tokens = 0, total_cost_usd = 0, updated_at = now\<rparr>)\<rparr>)))"

definition Issue :: "env \<Rightarrow> Service \<Rightarrow> IssueParams \<Rightarrow> world \<Rightarrow> IssuedKey result \<times> world" where
  "Issue e s p w =
     (if TrimSpace (p_Owner p) = [] then (Inl (Err ''owner required''), w) else
      (case rand_Read e 24 w of
         (Inl err, w) \<Rightarrow> (Inl err, w)
       | (Inr random, w) \<Rightarrow>
         let plain = prefix_of_service s @ b64_encode random;
             pre = prefixOf s plain
         in (case hashKey e plain w of
               (Inl err, w) \<Rightarrow> (Inl err, w)
             | (Inr hash, w) \<Rightarrow>
               let i = uuid_New e (ev w); w = tick w in
               (case db_call e (insert_key e i pre hash p) w of
                  (Inl err, w) \<Rightarrow> (Inl (ErrWrap ''insert key'' err), w)
                | (Inr _, w) \<Rightarrow>
                  (case db_call e (insert_quota i) w of (_, w) \<Rightarrow>
                  (case time_Now e w of (now, w) \<Rightarrow>
                     (Inr \<lparr>ik_Key = \<lparr>ID = i, Prefix = pre, Owner = p_Owner p, Note = p_Note p,
                                     ExpiresAt = p_ExpiresAt p, RPMLimit = p_RPMLimit p,
                                     TokenQuota = p_TokenQuota p, DollarQuota = p_DollarQuota p,
                                     Active = True, CreatedAt = now, LastUsedAt = None\<rparr>,
                          ik_Plain = plain\<rparr>, w)))))))"

text \<open>The part of \<open>Verify\<close> after a cache miss.\<close>

definition verify_db ::
  "env \<Rightarrow> Service \<Rightarrow> string \<Rightarrow> string \<Rightarrow> world \<Rightarrow> (Key option \<times> error option) \<times> world" where
  "verify_db e s plain pre w =
     (case db_call e (\<lambda>_ w. (case find_prefix pre w of
                               None \<Rightarrow> (Inl ErrNoRows, w)
                             | Some r \<Rightarrow> (Inr (scan_key e r, row_hash r), w))) w of
        (Inl err, w) \<Rightarrow> ((None, Some (if errors_is err ErrNoRows then ErrNotFound else err)), w)
      | (Inr (k, hash), w) \<Rightarrow>
         if \<not> verifyHash e plain hash then ((None, Some ErrInvalid), w) else
         (case rdb_Set e (verify_key pre) (REntry \<lparr>ce_Key = Some k, ce_Plain = plain\<rparr>) (cacheTTL s) w of
            (_, w) \<Rightarrow>
         (case validateKey e (Some k) w of (err, w) \<Rightarrow> ((Some k, err), w))))"

definition Verify ::
  "env \<Rightarrow> Service \<Rightarrow> string \<Rightarrow> world \<Rightarrow> (Key option \<times> error option) \<times> world" where
  "Verify e s plain w =
     (if \<not> HasPrefix plain (prefix_of_service s) then ((None, Some ErrInvalid), w) else
      let pre = prefixOf s plain in
      (case rdb_Get e (verify_key pre) w of
         (Inr (REntry entry), w) \<Rightarrow>
           if ConstantTimeCompare (ce_Plain entry) plain = 1 then
             (case validateKey e (ce_Key entry) w of (err, w) \<Rightarrow> ((ce_Key entry, err), w))
           else verify_db e s plain pre w
       | (_, w) \<Rightarrow> verify_db e s plain pre w))"

section \<open>CRUD\<close>

text \<open>\<open>UPDATE api_keys SET ... WHERE id = $1\<close>: the number of rows affected.\<close>

definition update_rows :: "uuid \<Rightarrow> (Key \<Rightarrow> Key) \<Rightarrow> world \<Rightarrow> nat result \<times> world" where
  "update_rows i f w =
     (Inr (length (filter (\<lambda>r. ID (row_key r) = i) (api_keys w))),
      w\<lparr>api_keys := map (\<lambda>r. if ID (row_key r) = i then r\<lparr>row_key := f (row_key r)\<rparr> else r) (api_keys w)\<rparr>)"

definition TouchLastUsed :: "env \<Rightarrow> uuid \<Rightarrow> world \<Rightarrow> world" where
  "TouchLastUsed e i w = snd (db_call e (\<lambda>now. update_rows i (\<lambda>k. k\<lparr>LastUsedAt := Some now\<rparr>)) w)"

definition with_usage :: "env \<Rightarrow> world \<Rightarrow> api_key_row \<Rightarrow> KeyWithUsage" where
  "with_usage e w r =
     (case quota_totals w (ID (row_key r)) of
        None \<Rightarrow> \<lparr>KeyOf = scan_key e r, TotalTokens = 0, TotalCostUSD = pg_float e 0\<rparr>
      | Some q \<Rightarrow> \<lparr>KeyOf = scan_key e r, TotalTokens = total_tokens q,
                    TotalCostUSD = pg_float e (total_cost_usd q)\<rparr>)"

text \<open>The query may fail, and so may the iteration over its rows (\<open>rows.Err()\<close>).\<close>

definition ListKeys :: "env \<Rightarrow> world \<Rightarrow> KeyWithUsage list result \<times> world" where
  "ListKeys e w =
     (case db_call e (\<lambda>_ w. (Inr (map (with_usage e w)
                                    (sort_key (\<lambda>r. - CreatedAt (row_key r)) (api_keys w))), w)) w of
        (Inl err, w) \<Rightarrow> (Inl err, w)
      | (Inr out, w) \<Rightarrow> db_call e (\<lambda>_ w. (Inr out, w)) w)"

definition Get :: "env \<Rightarrow> uuid \<Rightarrow> world \<Rightarrow> KeyWithUsage result \<times> world" where
  "Get e i w =
     (case db_call e (\<lambda>_ w. (case find_id i w of
                               None \<Rightarrow> (Inl ErrNoRows, w)
                             | Some r \<Rightarrow> (Inr (with_usage e w r), w))) w of
        (Inl err, w) \<Rightarrow> (Inl (if errors_is err ErrNoRows then ErrNotFound else err), w)
      | (Inr k, w) \<Rightarrow> (Inr k, w))"

text \<open>What \<open>SetActive\<close>, \<open>Delete\<close> and \<open>Update\<close> do with the outcome of their statement.\<close>

definition after_write :: "env \<Rightarrow> uuid \<Rightarrow> nat result \<times> world \<Rightarrow> error option \<times> world" where
  "after_write e i rw =
     (case rw of
        (Inl err, w) \<Rightarrow> (Some err, w)
      | (Inr n, w) \<Rightarrow> if n = 0 then (Some ErrNotFound, w) else (None, invalidateCache e i w))"

definition SetActive :: "env \<Rightarrow> uuid \<Rightarrow> bool \<Rightarrow> world \<Rightarrow> error option \<times> world" where
  "SetActive e i active w =
     after_write e i (db_call e (\<lambda>_. update_rows i (\<lambda>k. k\<lparr>Active := active\<rparr>)) w)"

text \<open>\<open>DELETE FROM api_keys\<close> cascades to \<open>quota_totals\<close> and \<open>usage_records\<close>.\<close>

definition delete_rows :: "uuid \<Rightarrow> world \<Rightarrow> nat result \<times> world" where
  "delete_rows i w =
     (let n = length (filter (\<lambda>r. ID (row_key r) = i) (api_keys w)) in
      (Inr n,
       if n = 0 then w else
       w\<lparr>api_keys := filter (\<lambda>r. ID (row_key r) \<noteq> i) (api_keys w),
         quota_totals := (quota_totals w)(i := None),
         usage_records := filter (\<lambda>u. ur_key_id u \<noteq> i) (usage_records w)\<rparr>))"

definition Delete :: "env \<Rightarrow> uuid \<Rightarrow> world \<Rightarrow> error option \<times> world" where
  "Delete e i w = after_write e i (db_call e (\<lambda>_. delete_rows i) w)"

definition update_params :: "env \<Rightarrow> uuid \<Rightarrow> IssueParams \<Rightarrow> world \<Rightarrow> nat result \<times> world" where
  "update_params e i p w =
     (case store_dollar e (p_DollarQuota p) of
        None \<Rightarrow> (Inl out_of_range, w)
      | Some dq \<Rightarrow>
         if \<not> rpm_fits (p_RPMLimit p) then (Inl out_of_range, w)
         else update_rows i
                (\<lambda>k. k\<lparr>Owner := p_Owner p, Note := p_Note p,
                       ExpiresAt := map_option (pg_time e) (p_ExpiresAt p),
                       RPMLimit := p_RPMLimit p, TokenQuota := p_TokenQuota p, DollarQuota := dq\<rparr>) w)"

definition Update :: "env \<Rightarrow> uuid \<Rightarrow> IssueParams \<Rightarrow> world \<Rightarrow> error option \<times> world" where
  "Update e i p w = after_write e i (db_call e (\<lambda>_. update_params e i p) w)"

definition get_Stats :: "env \<Rightarrow> world \<Rightarrow> Stats result \<times> world" where
  "get_Stats e = db_call e (\<lambda>now w.
     let today = filter (\<lambda>u. pg_today e now \<le> ur_created_at u) (usage_records w) in
     if list_all (\<lambda>u. int4_range (ur_input_tokens u + ur_output_tokens u)) today then
       (Inr \<lparr>TotalKeys = int (length (api_keys w)),
             ActiveKeys = int (length (filter (\<lambda>r. Active (row_key r)) (api_keys w))),
             TodayTokens = sum_list (map (\<lambda>u. ur_input_tokens u + ur_output_tokens u) today),
             TodayCostUSD = pg_float e (sum_list (map ur_cost_usd today))\<rparr>, w)
     else (Inl (Err ''integer out of range''), w))"

section \<open>Rate limit, quota, usage\<close>

definition rate_bucket :: "time \<Rightarrow> int" where
  "rate_bucket now = go_quot (now div Second) 60"

definition rate_key :: "uuid \<Rightarrow> int \<Rightarrow> string" where
  "rate_key i bucket = ''rl:'' @ i @ '':'' @ FormatInt bucket"

definition AllowRate :: "env \<Rightarrow> uuid \<Rightarrow> int \<Rightarrow> world \<Rightarrow> bool result \<times> world" where
  "AllowRate e i limit w =
     (if limit \<le> 0 then (Inr True, w) else
      (case time_Now e w of (now, w) \<Rightarrow>
      (case rdb_IncrExpire e (rate_key i (rate_bucket now)) (70 * Second) w of
         (Inl err, w) \<Rightarrow> (Inl err, w)
       | (Inr v, w) \<Rightarrow> (Inr (v \<le> limit), w))))"

definition tok_key :: "uuid \<Rightarrow> string" where
  "tok_key i = ''qt:tok:'' @ i"

definition cost_key :: "uuid \<Rightarrow> string" where
  "cost_key i = ''qt:cost:'' @ i"

text \<open>The part of \<open>quotaTotals\<close> after a cache miss.\<close>

definition quota_db :: "env \<Rightarrow> uuid \<Rightarrow> world \<Rightarrow> (int \<times> rat) result \<times> world" where
  "quota_db e i w =
     (case db_call e (\<lambda>_ w. (case quota_totals w i of
                               None \<Rightarrow> (Inl ErrNoRows, w)
                             | Some q \<Rightarrow> (Inr (total_tokens q, pg_float e (total_cost_usd q)), w))) w of
        (Inl err, w) \<Rightarrow> (Inl err, w)
      | (Inr (t, c), w) \<Rightarrow>
         (case rdb_Set e (tok_key i) (RInt t) 0 w of (_, w) \<Rightarrow>
         (case rdb_Set e (cost_key i) (RDec (fmt_f c)) 0 w of (_, w) \<Rightarrow> (Inr (t, c), w))))"

definition quotaTotals :: "env \<Rightarrow> uuid \<Rightarrow> world \<Rightarrow> (int \<times> rat) result \<times> world" where
  "quotaTotals e i w =
     (case rdb_Get e (tok_key i) w of (rt, w) \<Rightarrow>
      (case cmd_Int64 rt of
         Inl _ \<Rightarrow> quota_db e i w
       | Inr t \<Rightarrow>
          (case rdb_Get e (cost_key i) w of (rc, w) \<Rightarrow>
           (case cmd_Float64 rc of
              Inl _ \<Rightarrow> quota_db e i w
            | Inr c \<Rightarrow> (Inr (t, c), w)))))"

definition AllowQuota ::
  "env \<Rightarrow> uuid \<Rightarrow> int option \<Rightarrow> rat option \<Rightarrow> world \<Rightarrow> bool result \<times> world" where
  "AllowQuota e i tokenQuota dollarQuota w =
     (if tokenQuota = None \<and> dollarQuota = None then (Inr True, w) else
      (case quotaTotals e i w of
         (Inl err, w) \<Rightarrow> (Inl err, w)
       | (Inr (tokens, cost), w) \<Rightarrow>
          if (case tokenQuota of None \<Rightarrow> False | Some q \<Rightarrow> tokens \<ge> q) then (Inr False, w)
          else if (case dollarQuota of None \<Rightarrow> False | Some q \<Rightarrow> cost \<ge> q) then (Inr False, w)
          else (Inr True, w)))"

definition upsert_quota :: "env \<Rightarrow> uuid \<Rightarrow> int \<Rightarrow> rat \<Rightarrow> time \<Rightarrow> world \<Rightarrow> unit result \<times> world" where
  "upsert_quota e i tokens costUSD now w =
     (case numeric_14_8 (pg_decimal e costUSD) of
        None \<Rightarrow> (Inl out_of_range, w)
      | Some c \<Rightarrow>
         if find_id i w = None then (Inl (Err ''violates foreign key constraint''), w)
         else (case quota_totals w i of
                 None \<Rightarrow> (Inr (), w\<lparr>quota_totals := (quota_totals w)
                           (i \<mapsto> \<lparr>total_tokens = tokens, total_cost_usd = c, updated_at = now\<rparr>)\<rparr>)
               | Some q \<Rightarrow>
                  (case numeric_14_8 (total_cost_usd q + c) of
                     None \<Rightarrow> (Inl out_of_range, w)
                   | Some c' \<Rightarrow>
                      if int64_range (total_tokens q + tokens)
                      then (Inr (), w\<lparr>quota_totals := (quota_totals w)
                             (i \<mapsto> \<lparr>total_tokens = total_tokens q + tokens,
                                     total_cost_usd = c', updated_at = now\<rparr>)\<rparr>)
                      else (Inl out_of_range, w))))"

definition AddUsage :: "env \<Rightarrow> uuid \<Rightarrow> int \<Rightarrow> rat \<Rightarrow> world \<Rightarrow> error option \<times> world" where
  "AddUsage e i tokens costUSD w =
     (if tokens = 0 \<and> costUSD = 0 then (None, w) else
      (case db_call e (upsert_quota e i tokens costUSD) w of
         (Inl err, w) \<Rightarrow> (Some err, w)
       | (Inr _, w) \<Rightarrow>
          (case rdb_IncrBy e (tok_key i) tokens w of (_, w) \<Rightarrow>
          (case rdb_IncrByFloat e (cost_key i) costUSD w of (_, w) \<Rightarrow> (None, w)))))"

definition insert_usage :: "env \<Rightarrow> UsageRecord \<Rightarrow> time \<Rightarrow> world \<Rightarrow> unit result \<times> world" where
  "insert_usage e r now w =
     (let ms = go_quot (u_Duration r) 1000000 in
      case numeric_14_8 (pg_decimal e (u_CostUSD r)) of
        None \<Rightarrow> (Inl out_of_range, w)
      | Some c \<Rightarrow>
         if \<not> list_all int4_range [u_InputTokens r, u_OutputTokens r, u_CachedTokens r, u_Status r, ms]
         then (Inl out_of_range, w)
         else if find_id (u_KeyID r) w = None then (Inl (Err ''violates foreign key constraint''), w)
         else (Inr (), w\<lparr>usage_records := usage_records w @
                 [\<lparr>ur_key_id = u_KeyID r, ur_request_id = nullableText (u_RequestID r),
                   ur_endpoint = u_Endpoint r, ur_model = nullableText (u_Model r),
                   ur_streaming = u_Streaming r, ur_input_tokens = u_InputTokens r,
                   ur_output_tokens = u_OutputTokens r, ur_cached_tokens = u_CachedTokens r,
                   ur_cost_usd = c, ur_status = u_Status r, ur_duration_ms = ms,
                   ur_error_message = nullableText (u_ErrorMessage r), ur_created_at = now\<rparr>]\<rparr>))"

definition RecordRequest :: "env \<Rightarrow> UsageRecord \<Rightarrow> world \<Rightarrow> error option \<times> world" where
  "RecordRequest e r w =
     (case db_call e (insert_usage e r) w of
        (Inl err, w) \<Rightarrow> (Some err, w)
      | (Inr _, w) \<Rightarrow> (None, w))"

end
