(* ===== verification/Pricing.thy ===== *)
theory Pricing
  imports GoLib Float64
begin

text \<open>
  Package \<open>internal/pricing\<close>: the price table, the model lookup that falls back to shorter model
  names, and the dollar cost of a request.  The reader/writer lock has no effect on a table that is
  never written after \<open>Load\<close>.  Reading the file and the YAML decoder (a third-party package) are
  parameters of \<open>Load\<close>.
\<close>

section \<open>Definitions\<close>

record ModelPrice =
  Input :: rat
  Cached :: rat
  Output :: rat

type_synonym models = "string \<rightharpoonup> ModelPrice"

definition zero_price :: ModelPrice where
  "zero_price = \<lparr>Input = 0, Cached = 0, Output = 0\<rparr>"

text \<open>\<open>yaml_unmarshal\<close> gives the \<open>Models\<close> field of the decoded \<open>Table\<close>: \<^term>\<open>None\<close> is the nil map.\<close>

definition Load ::
  "(string \<Rightarrow> string result) \<Rightarrow> (string \<Rightarrow> models option result) \<Rightarrow> string \<Rightarrow> models result" where
  "Load ReadFile yaml_unmarshal path =
     (case ReadFile path of
        Inl err \<Rightarrow> Inl (ErrWrap (''read pricing '' @ path) err)
      | Inr data \<Rightarrow>
         (case yaml_unmarshal data of
            Inl err \<Rightarrow> Inl (ErrWrap ''parse pricing'' err)
          | Inr t \<Rightarrow> Inr (case t of None \<Rightarrow> Map.empty | Some m \<Rightarrow> m)))"

definition Empty :: models where
  "Empty = Map.empty"

function lookup_loop :: "models \<Rightarrow> string \<Rightarrow> int \<Rightarrow> ModelPrice \<times> bool" where
  "lookup_loop models model i =
     (if i > 0 then
        (case models (take (nat i) model) of
           Some mp \<Rightarrow> (mp, True)
         | None \<Rightarrow> lookup_loop models model (LastIndex (take (nat i) model) (CHR ''-'')))
      else (zero_price, False))"
  by pat_completeness auto
termination
proof (relation "measure (\<lambda>(_, _, i). nat i)", goal_cases)
  case (2 models model i)
  have "LastIndex (take (nat i) model) (CHR ''-'') < int (length (take (nat i) model))"
    by (rule LastIndex_less)
  with 2 show ?case by simp
qed simp

declare lookup_loop.simps [simp del]

definition lookup :: "models \<Rightarrow> string \<Rightarrow> ModelPrice \<times> bool" where
  "lookup models model =
     (case models model of
        Some mp \<Rightarrow> (mp, True)
      | None \<Rightarrow> lookup_loop models model (LastIndex model (CHR ''-'')))"

definition Cost :: "models \<Rightarrow> string \<Rightarrow> int \<Rightarrow> int \<Rightarrow> int \<Rightarrow> rat" where
  "Cost models model input output cached =
     (case lookup models model of (mp, ok) \<Rightarrow>
        if \<not> ok then 0 else
        let cachedRate = (if Cached mp = 0 then Input mp else Cached mp);
            uncached = wrap64 (input - cached);
            (cached, uncached) = (if uncached < 0 then (input, 0) else (cached, uncached))
        in fdiv (fadd (fadd (fmul (float_of_int uncached) (Input mp))
                            (fmul (float_of_int cached) cachedRate))
                      (fmul (float_of_int output) (Output mp)))
                1000000)"

section \<open>Specification\<close>

text \<open>
  The names under which a model may be priced: its own, and every nonempty prefix that a dash follows.
\<close>

definition prices :: "string \<Rightarrow> string \<Rightarrow> bool" where
  "prices model p \<longleftrightarrow> p = model \<or> (p \<noteq> [] \<and> prefix (p @ ''-'') model)"

text \<open>The tokens billed at the full and at the cached rate, and the exact price in dollars.\<close>

definition billed_uncached :: "int \<Rightarrow> int \<Rightarrow> int" where
  "billed_uncached input cached = (if input < cached then 0 else input - cached)"

definition billed_cached :: "int \<Rightarrow> int \<Rightarrow> int" where
  "billed_cached input cached = (if input < cached then input else cached)"

definition cached_rate :: "ModelPrice \<Rightarrow> rat" where
  "cached_rate mp = (if Cached mp = 0 then Input mp else Cached mp)"

definition exact_cost :: "ModelPrice \<Rightarrow> int \<Rightarrow> int \<Rightarrow> int \<Rightarrow> rat" where
  "exact_cost mp input output cached =
     (of_int (billed_uncached input cached) * Input mp
      + of_int (billed_cached input cached) * cached_rate mp
      + of_int output * Output mp) / 1000000"

text \<open>A price is zero or large enough that no product with a token count is a subnormal number.\<close>

definition min_price :: rat where
  "min_price = 2 powi (-900)"

definition price_ok :: "ModelPrice \<Rightarrow> bool" where
  "price_ok mp \<longleftrightarrow> (\<forall>p \<in> {Input mp, Cached mp, Output mp}. p = 0 \<or> min_price \<le> p)"

section \<open>Lookup\<close>

lemma LastIndex_nth:
  "0 \<le> LastIndex s c \<Longrightarrow>
     s ! nat (LastIndex s c) = c \<and> (\<forall>k. LastIndex s c < int k \<longrightarrow> k < length s \<longrightarrow> s ! k \<noteq> c)"
proof (induction s)
  case (Cons x xs)
  show ?case
  proof (cases "0 \<le> LastIndex xs c")
    case True
    then have i: "LastIndex (x # xs) c = LastIndex xs c + 1" and n: "nat (LastIndex xs c + 1) = Suc (nat (LastIndex xs c))"
      by (simp_all add: Let_def nat_add_distrib)
    have "(x # xs) ! k \<noteq> c" if "LastIndex xs c + 1 < int k" "k < length (x # xs)" for k
      using that True Cons.IH by (cases k) auto
    with True Cons.IH show ?thesis by (simp add: i n)
  next
    case False
    with Cons.prems have x: "x = c" and i: "LastIndex (x # xs) c = 0" by (auto simp: Let_def split: if_splits)
    from False have "c \<notin> set xs" using LastIndex_neg_iff [of xs c] by auto
    then have "(x # xs) ! k \<noteq> c" if "0 < k" "k < length (x # xs)" for k
      using that by (cases k) (auto simp: in_set_conv_nth)
    with x i show ?thesis by simp
  qed
qed simp

text \<open>A cut of \<open>model\<close> at position \<open>n\<close>: a dash there, and something before it.\<close>

definition cut_at :: "string \<Rightarrow> nat \<Rightarrow> bool" where
  "cut_at model n \<longleftrightarrow> 0 < n \<and> n < length model \<and> model ! n = CHR ''-''"

lemma prices_iff: "prices model p \<longleftrightarrow> p = model \<or> (\<exists>n. cut_at model n \<and> p = take n model)"
proof -
  have "p \<noteq> [] \<and> prefix (p @ ''-'') model \<longleftrightarrow> (\<exists>n. cut_at model n \<and> p = take n model)"
  proof
    assume "p \<noteq> [] \<and> prefix (p @ ''-'') model"
    then obtain r where "p \<noteq> []" "model = p @ CHR ''-'' # r" by (auto elim: prefixE)
    then have "cut_at model (length p) \<and> p = take (length p) model" by (simp add: cut_at_def)
    then show "\<exists>n. cut_at model n \<and> p = take n model" by blast
  next
    assume "\<exists>n. cut_at model n \<and> p = take n model"
    then obtain n where n: "cut_at model n" "p = take n model" by blast
    then have "take (Suc n) model = p @ ''-''" by (simp add: cut_at_def take_Suc_conv_app_nth)
    then have "prefix (p @ ''-'') model" by (metis take_is_prefix)
    moreover from n have "p \<noteq> []" by (auto simp: cut_at_def)
    ultimately show "p \<noteq> [] \<and> prefix (p @ ''-'') model" by blast
  qed
  then show ?thesis by (auto simp: prices_def)
qed

lemma LastIndex_take_cuts:
  assumes "cut_at model k" "int k < i"
  shows "0 < LastIndex (take (nat i) model) (CHR ''-'')
       \<and> int k \<le> LastIndex (take (nat i) model) (CHR ''-'')"
proof -
  let ?s = "take (nat i) model"
  from assms have k: "k < length ?s" "?s ! k = CHR ''-''" "0 < k" by (auto simp: cut_at_def)
  then have "CHR ''-'' \<in> set ?s" by (metis nth_mem)
  then have "0 \<le> LastIndex ?s (CHR ''-'')" using LastIndex_neg_iff [of ?s "CHR ''-''"] by linarith
  with k show ?thesis using LastIndex_nth [of ?s "CHR ''-''"] by (metis less_le_trans linorder_not_less of_nat_0_less_iff)
qed

lemma LastIndex_take_cut:
  assumes "0 < LastIndex (take (nat i) model) (CHR ''-'')"
  shows "cut_at model (nat (LastIndex (take (nat i) model) (CHR ''-'')))"
proof -
  let ?s = "take (nat i) model"
  have l: "nat (LastIndex ?s (CHR ''-'')) < length ?s"
    using LastIndex_less [of ?s "CHR ''-''"] assms by linarith
  moreover have "?s ! nat (LastIndex ?s (CHR ''-'')) = CHR ''-''"
    using LastIndex_nth [of ?s] assms by simp
  ultimately show ?thesis using assms by (simp add: cut_at_def)
qed

text \<open>From a cut position (or none) the loop finds the table entry at the largest cut up to it.\<close>

lemma lookup_loop_spec:
  assumes "i > 0 \<longrightarrow> cut_at model (nat i)"
  shows "(\<forall>k. cut_at model k \<longrightarrow> int k \<le> i \<longrightarrow> models (take k model) = None)
           \<and> lookup_loop models model i = (zero_price, False)
       \<or> (\<exists>n mp. cut_at model n \<and> int n \<le> i \<and> models (take n model) = Some mp
           \<and> (\<forall>k. cut_at model k \<longrightarrow> n < k \<longrightarrow> int k \<le> i \<longrightarrow> models (take k model) = None)
           \<and> lookup_loop models model i = (mp, True))"
  using assms
proof (induction models model i rule: lookup_loop.induct)
  case (1 models model i)
  let ?j = "LastIndex (take (nat i) model) (CHR ''-'')"
  show ?case
  proof (cases "i > 0")
    case False
    then show ?thesis by (auto simp: lookup_loop.simps [of models model i] cut_at_def)
  next
    case True
    with "1.prems" have c: "cut_at model (nat i)" by simp
    show ?thesis
    proof (cases "models (take (nat i) model)")
      case (Some mp)
      with True c show ?thesis
        by (intro disjI2 exI [of _ "nat i"] exI [of _ mp]) (auto simp: lookup_loop.simps [of models model i])
    next
      case None
      have eq: "lookup_loop models model i = lookup_loop models model ?j"
        using True None by (subst lookup_loop.simps) simp
      have le: "int k \<le> ?j" if "cut_at model k" "int k \<le> i" "k \<noteq> nat i" for k
        using LastIndex_take_cuts [of model k i] that True by auto
      have none: "models (take k model) = None" if "cut_at model k" "int k \<le> i" "\<not> int k \<le> ?j" for k
        using that le [of k] None by (cases "k = nat i") auto
      have "?j < i" using LastIndex_less [of "take (nat i) model" "CHR ''-''"] True by simp
      have "?j > 0 \<longrightarrow> cut_at model (nat ?j)" by (simp add: LastIndex_take_cut)
      from "1.IH" [OF True None this] show ?thesis
      proof (elim disjE exE conjE)
        assume "\<forall>k. cut_at model k \<longrightarrow> int k \<le> ?j \<longrightarrow> models (take k model) = None"
          and "lookup_loop models model ?j = (zero_price, False)"
        with none eq show ?thesis by (intro disjI1) metis
      next
        fix n mp
        assume n: "cut_at model n" "int n \<le> ?j" "models (take n model) = Some mp"
          and m: "\<forall>k. cut_at model k \<longrightarrow> n < k \<longrightarrow> int k \<le> ?j \<longrightarrow> models (take k model) = None"
          and r: "lookup_loop models model ?j = (mp, True)"
        have "models (take k model) = None" if "cut_at model k" "n < k" "int k \<le> i" for k
          using that m none by metis
        with n r eq \<open>?j < i\<close> show ?thesis by (intro disjI2 exI [of _ n] exI [of _ mp]) auto
      qed
    qed
  qed
qed

lemma lookup_cases:
  "lookup models model = (zero_price, False) \<and> (\<forall>p. prices model p \<longrightarrow> models p = None)
   \<or> (\<exists>p mp. lookup models model = (mp, True) \<and> prices model p \<and> models p = Some mp
        \<and> (\<forall>q. prices model q \<longrightarrow> length p < length q \<longrightarrow> models q = None))"
proof (cases "models model")
  case (Some mp)
  have "length q \<le> length model" if "prices model q" for q
    using that by (auto simp: prices_def dest: prefix_length_le)
  with Some have "\<forall>q. prices model q \<longrightarrow> length model < length q \<longrightarrow> models q = None"
    by (meson linorder_not_less)
  moreover have "prices model model" by (simp add: prices_def)
  ultimately show ?thesis using Some by (auto simp: lookup_def)
next
  case None
  let ?i = "LastIndex model (CHR ''-'')"
  have l: "lookup models model = lookup_loop models model ?i" by (simp add: lookup_def None)
  have t: "take (nat (int (length model))) model = model" by simp
  have c: "?i > 0 \<longrightarrow> cut_at model (nat ?i)"
    using LastIndex_take_cut [of "int (length model)" model] by simp
  have all: "int k \<le> ?i" if "cut_at model k" for k
    using LastIndex_take_cuts [of model k "int (length model)"] that by (simp add: cut_at_def)
  from lookup_loop_spec [OF c, of models] show ?thesis
  proof (elim disjE exE conjE)
    assume "\<forall>k. cut_at model k \<longrightarrow> int k \<le> ?i \<longrightarrow> models (take k model) = None"
      and "lookup_loop models model ?i = (zero_price, False)"
    with all None l show ?thesis by (intro disjI1) (auto simp: prices_iff)
  next
    fix n mp
    assume n: "cut_at model n" "models (take n model) = Some mp"
      and m: "\<forall>k. cut_at model k \<longrightarrow> n < k \<longrightarrow> int k \<le> ?i \<longrightarrow> models (take k model) = None"
      and r: "lookup_loop models model ?i = (mp, True)"
    have len: "length (take k model) = k" if "cut_at model k" for k
      using that by (simp add: cut_at_def)
    have "models q = None" if "prices model q" "length (take n model) < length q" for q
      using that None m all len n(1) by (auto simp: prices_iff)
    moreover have "prices model (take n model)" using n(1) by (auto simp: prices_iff)
    moreover have "lookup models model = (mp, True)" by (simp only: l r)
    ultimately show ?thesis using n(2) by blast
  qed
qed

lemma prices_length_inj: "prices model p \<Longrightarrow> prices model q \<Longrightarrow> length p = length q \<Longrightarrow> p = q"
  by (auto simp: prices_iff cut_at_def)

text \<open>C35: the lookup returns the entry of the longest name under which the model may be priced, and fails
  exactly when no such name is in the table.\<close>

theorem lookup_longest:
  "lookup models model = (mp, True) \<longleftrightarrow>
     (\<exists>p. prices model p \<and> models p = Some mp
        \<and> (\<forall>q. prices model q \<and> length p < length q \<longrightarrow> models q = None))"
proof
  assume "lookup models model = (mp, True)"
  with lookup_cases [of models model]
  show "\<exists>p. prices model p \<and> models p = Some mp \<and> (\<forall>q. prices model q \<and> length p < length q \<longrightarrow> models q = None)"
    by auto
next
  assume "\<exists>p. prices model p \<and> models p = Some mp \<and> (\<forall>q. prices model q \<and> length p < length q \<longrightarrow> models q = None)"
  then obtain p where p: "prices model p" "models p = Some mp"
    "\<And>q. prices model q \<Longrightarrow> length p < length q \<Longrightarrow> models q = None" by blast
  from lookup_cases [of models model] p show "lookup models model = (mp, True)"
    by (metis linorder_neqE_nat option.distinct(1) option.inject prices_length_inj)
qed

definition demo_price :: ModelPrice where
  "demo_price = \<lparr>Input = 5 / 2, Cached = 5 / 4, Output = 10\<rparr>"

definition demo_models :: models where
  "demo_models = [''gpt-4o'' \<mapsto> demo_price, ''gpt'' \<mapsto> zero_price]"

lemma demo_lookup: "lookup demo_models ''gpt-4o-2024-08-06'' = (demo_price, True)"
  by code_simp

theorem lookup_longest_witness:
  "\<exists>p. prices ''gpt-4o-2024-08-06'' p \<and> demo_models p = Some demo_price
     \<and> (\<forall>q. prices ''gpt-4o-2024-08-06'' q \<and> length p < length q \<longrightarrow> demo_models q = None)"
  using lookup_longest [of demo_models "''gpt-4o-2024-08-06''" demo_price] demo_lookup by blast

section \<open>Cost\<close>

text \<open>Amounts that are zero or far above the subnormal range.\<close>

definition big :: "rat \<Rightarrow> bool" where
  "big x \<longleftrightarrow> x = 0 \<or> min_price \<le> x"

lemma min_price_pos: "0 < min_price"
  by (simp only: min_price_def power2_int)

lemma round64_min_price: "round64 min_price = min_price"
  unfolding min_price_def by (rule round64_power) simp

lemma big_nonneg: "big x \<Longrightarrow> 0 \<le> x"
  using min_price_pos by (auto simp: big_def)

lemma big_round: "big x \<Longrightarrow> big (round64 x)"
  using round64_mono [of min_price x] round64_min_price
  by (auto simp: big_def)

lemma big_add: "big x \<Longrightarrow> big y \<Longrightarrow> big (x + y)"
  using big_nonneg [of x] big_nonneg [of y] by (auto simp: big_def)

lemma round64_1 [simp]: "round64 1 = 1"
  using round64_power [of 0] by simp

lemma float_of_int_ge1: "1 \<le> n \<Longrightarrow> 1 \<le> float_of_int n"
  using round64_mono [of 1 "of_int n"] by (simp add: float_of_int_def)

lemma float_of_int_0 [simp]: "float_of_int 0 = 0"
  by (simp add: float_of_int_def)

lemma big_mult_int:
  assumes "big p" "0 \<le> n"
  shows "big (float_of_int n * p)"
proof (cases "n = 0 \<or> p = 0")
  case False
  with assms have p: "min_price \<le> p" "0 \<le> p" and n: "1 \<le> float_of_int n"
    using big_nonneg [of p] by (auto simp: big_def float_of_int_ge1)
  have "p \<le> float_of_int n * p" using mult_right_mono [OF n p(2)] by simp
  with p show ?thesis by (simp add: big_def)
qed (auto simp: big_def)

lemma min_normal_le: "min_normal \<le> min_price" "min_normal \<le> min_price / 1000000" "min_normal \<le> 1"
proof -
  have "(2 :: rat) powi (-900 + -20) = min_price * 2 powi (-20)"
    unfolding min_price_def by (rule powi_split)
  moreover have "(2 :: rat) powi (-20) \<le> 1 / 1000000" by (simp add: power_int_def power_one_over)
  ultimately have "(2 :: rat) powi (-900 + -20) \<le> min_price / 1000000"
    using min_price_pos mult_left_mono [of "2 powi (-20)" "1 / 1000000" min_price] by simp
  then show "min_normal \<le> min_price / 1000000"
    using powi_mono [of "-1022" "-900 + -20"] unfolding min_normal_def by linarith
  show "min_normal \<le> min_price" unfolding min_normal_def min_price_def by (rule powi_mono) simp
  show "min_normal \<le> 1" using powi_mono [of "-1022" 0] unfolding min_normal_def by simp
qed

lemma big_normal: "big x \<Longrightarrow> x = 0 \<or> min_normal \<le> x"
  using min_normal_le(1) by (auto simp: big_def)

lemma near_term:
  assumes "big p" "0 \<le> n"
  shows "fl.near 2 (fmul (float_of_int n) p) (of_int n * p)"
proof -
  have "of_int n = (0 :: rat) \<or> min_normal \<le> of_int n"
    using assms(2) min_normal_le(3) by (cases "n = 0") (auto intro: order_trans [of _ 1])
  then have "fl.near 1 (float_of_int n) (of_int n)"
    using fl.near_rnd [OF fl.near_refl] by (simp add: float_of_int_def)
  then have "fl.near 1 (float_of_int n * p) (of_int n * p)"
    by (rule fl.near_mult) (rule big_nonneg [OF assms(1)])
  from fl.near_rnd [OF this big_normal [OF big_mult_int [OF assms]]]
  show ?thesis by (simp add: fmul_def numeral_2_eq_2)
qed

lemma big_fmul: "big p \<Longrightarrow> 0 \<le> n \<Longrightarrow> big (fmul (float_of_int n) p)"
  by (simp add: fmul_def big_round big_mult_int)

lemma big_fadd: "big x \<Longrightarrow> big y \<Longrightarrow> big (fadd x y)"
  by (simp add: fadd_def big_round big_add)

lemma near_fadd:
  "fl.near k r x \<Longrightarrow> fl.near k s y \<Longrightarrow> big r \<Longrightarrow> big s \<Longrightarrow> fl.near (Suc k) (fadd r s) (x + y)"
  using fl.near_rnd [OF fl.near_add, of k r x s y] by (simp add: fadd_def big_normal big_add)

text \<open>The sum of three priced terms, as the code adds and scales it.\<close>

lemma near_cost:
  assumes "big p" "big q" "big r" and "0 \<le> a" "0 \<le> b" "0 \<le> c"
  shows "fl.near 5 (fdiv (fadd (fadd (fmul (float_of_int a) p) (fmul (float_of_int b) q))
                               (fmul (float_of_int c) r)) 1000000)
                   ((of_int a * p + of_int b * q + of_int c * r) / 1000000)"
proof -
  let ?s = "fadd (fmul (float_of_int a) p) (fmul (float_of_int b) q)"
  let ?t = "fadd ?s (fmul (float_of_int c) r)"
  note nn = assms(1-3) [THEN big_nonneg]
  have "fl.near (Suc 2) ?s (of_int a * p + of_int b * q)"
    using assms by (intro near_fadd near_term big_fmul)
  moreover have "fl.near (Suc 2) (fmul (float_of_int c) r) (of_int c * r)"
    by (rule fl.near_weaken [OF near_term]) (use nn assms in simp_all)
  ultimately have "fl.near (Suc (Suc 2)) ?t (of_int a * p + of_int b * q + of_int c * r)"
    using assms by (intro near_fadd near_term big_fadd big_fmul)
  then have t: "fl.near 4 ?t (of_int a * p + of_int b * q + of_int c * r)" by simp
  have "big ?t" using assms by (intro big_fadd big_fmul)
  then have "?t / 1000000 = 0 \<or> min_normal \<le> ?t / 1000000"
    using min_normal_le(2) divide_right_mono [of min_price ?t 1000000]
    by (auto simp: big_def)
  from fl.near_rnd [OF fl.near_div [OF t] this]
  show ?thesis by (simp add: fdiv_def)
qed

lemma Cost_known:
  assumes "lookup models model = (mp, True)"
    and "0 \<le> input" "input < 2 ^ 63" "0 \<le> cached" "cached < 2 ^ 63"
  shows "Cost models model input output cached =
     fdiv (fadd (fadd (fmul (float_of_int (billed_uncached input cached)) (Input mp))
                      (fmul (float_of_int (billed_cached input cached)) (cached_rate mp)))
                (fmul (float_of_int output) (Output mp))) 1000000"
proof -
  have "int64_range (input - cached)" using assms by (simp add: int64_range_def)
  then show ?thesis
    using assms by (simp add: Cost_def billed_uncached_def billed_cached_def cached_rate_def Let_def)
qed

lemma big_prices:
  assumes "price_ok mp"
  shows "big (Input mp)" "big (cached_rate mp)" "big (Output mp)"
  using assms by (auto simp: price_ok_def big_def cached_rate_def)

lemma billed_nonneg:
  "0 \<le> input \<Longrightarrow> 0 \<le> billed_uncached input cached"
  "0 \<le> input \<Longrightarrow> 0 \<le> cached \<Longrightarrow> 0 \<le> billed_cached input cached"
  by (auto simp: billed_uncached_def billed_cached_def)

lemma fadd_mono: "x \<le> x' \<Longrightarrow> y \<le> y' \<Longrightarrow> fadd x y \<le> fadd x' y'"
  by (simp add: fadd_def round64_mono add_mono)

lemma fdiv_mono: "x \<le> y \<Longrightarrow> 0 < c \<Longrightarrow> fdiv x c \<le> fdiv y c"
  by (simp add: fdiv_def round64_mono divide_right_mono)

lemma fmul_mono: "m \<le> n \<Longrightarrow> 0 \<le> p \<Longrightarrow> fmul (float_of_int m) p \<le> fmul (float_of_int n) p"
  by (simp add: fmul_def float_of_int_def round64_mono mult_right_mono)

lemma billed_mono: "cached \<le> input \<Longrightarrow> input \<le> input' \<Longrightarrow>
    billed_uncached input cached \<le> billed_uncached input' cached
    \<and> billed_cached input cached = billed_cached input' cached"
  by (auto simp: billed_uncached_def billed_cached_def)

text \<open>C36: the computed cost is the exact price of the billed tokens up to five double-precision roundings.\<close>

theorem Cost_accurate:
  assumes "lookup models model = (mp, True)" and "price_ok mp"
    and "0 \<le> input" "input < 2 ^ 63" "0 \<le> output" "0 \<le> cached" "cached < 2 ^ 63"
  shows "exact_cost mp input output cached * (1 - unit_roundoff) ^ 5 \<le> Cost models model input output cached
       \<and> Cost models model input output cached \<le> exact_cost mp input output cached * (1 + unit_roundoff) ^ 5"
  using near_cost [where a = "billed_uncached input cached" and b = "billed_cached input cached" and c = "output",
      OF big_prices [OF assms(2)]]
    assms billed_nonneg [of input cached] by (simp add: Cost_known exact_cost_def fl.near_def)

theorem Cost_accurate_witness:
  "price_ok demo_price \<and> exact_cost demo_price 1200 300 200 = 23 / 4000
   \<and> 23 / 4000 * (1 - unit_roundoff) ^ 5 \<le> Cost demo_models ''gpt-4o-2024-08-06'' 1200 300 200
   \<and> Cost demo_models ''gpt-4o-2024-08-06'' 1200 300 200 \<le> 23 / 4000 * (1 + unit_roundoff) ^ 5"
proof -
  have "(1 / 2 :: rat) ^ 900 \<le> 1" by (rule power_le_one) simp_all
  then have ok: "price_ok demo_price"
    by (simp add: price_ok_def demo_price_def min_price_def power_int_def)
  have x: "exact_cost demo_price 1200 300 200 = 23 / 4000"
    by (simp add: exact_cost_def demo_price_def billed_uncached_def billed_cached_def cached_rate_def)
  from Cost_accurate [OF demo_lookup ok, of 1200 300 200] ok x show ?thesis by simp
qed

text \<open>Using more tokens never costs less, rounding included.\<close>

lemma Cost_mono:
  assumes "lookup models model = (mp, True)"
    and "0 \<le> Input mp" "0 \<le> Output mp"
    and "0 \<le> cached" "cached \<le> input" "input \<le> input'" "input' < 2 ^ 63" "output \<le> output'"
  shows "Cost models model input output cached \<le> Cost models model input' output' cached"
proof -
  have b: "billed_uncached input cached \<le> billed_uncached input' cached"
    "billed_cached input cached = billed_cached input' cached"
    using billed_mono assms by blast+
  show ?thesis
    using assms b by (simp add: Cost_known [OF assms(1)] fdiv_mono fadd_mono fmul_mono)
qed

end
