(* ===== verification/Proxy.thy ===== *)
theory Proxy
  imports Json_Struct Keys Pricing
begin

text \<open>
  Package \<open>internal/proxy\<close>: the handler that authenticates a caller, checks its limits, prepares the request body,
  forwards the request with the real key, streams the answer back while keeping its last bytes, and records the
  usage found in them.  The upstream service, the outcome of writing to the client and the outcome of
  \<open>http.NewRequest\<close> are parameters, answered by event number; the logger has no effect.
\<close>

section \<open>Requests to upstream and their answers\<close>

record url =
  u_Scheme :: string
  u_Host :: string
  u_Path :: string
  u_RawQuery :: string

record UpRequest =
  up_Method :: string
  up_URL :: url
  up_Header :: header
  up_Host :: string
  up_Body :: body
  up_ContentLength :: int

text \<open>The chunks are what successive reads of the body return; a read error ends them like the end of the body.\<close>

record UpResponse =
  resp_StatusCode :: int
  resp_Header :: header
  resp_Chunks :: "string list"

record net =
  new_request_err :: "nat \<Rightarrow> string option"
  client_Do :: "nat \<Rightarrow> UpRequest \<Rightarrow> UpResponse result"
  client_write_ok :: "nat \<Rightarrow> nat \<Rightarrow> bool"

text \<open>\<open>UpstreamKey\<close> is a function without arguments that reads the store at the moment of the call: the event number.\<close>

record Deps =
  Upstream_URL :: url
  UpstreamKey :: "nat \<Rightarrow> string"
  KeySvc :: Service
  PriceTable :: models
  Timeout :: int

definition captureMax :: int where
  "captureMax = 2 * 1024 * 1024"

text \<open>\<open>New\<close> replaces a zero timeout; the transport settings have no counterpart.\<close>

definition NewProxy :: "Deps \<Rightarrow> Deps" where
  "NewProxy d = (if Timeout d = 0 then d\<lparr>Timeout := 30 * 60 * Second\<rparr> else d)"

section \<open>Tail buffer\<close>

record tailBuffer =
  tb_cap :: int
  tb_buf :: string

definition newTailBuffer :: "int \<Rightarrow> tailBuffer" where
  "newTailBuffer c = \<lparr>tb_cap = c, tb_buf = []\<rparr>"

text \<open>\<open>Write\<close> accepts everything; only the buffer changes.\<close>

definition tail_Write :: "string \<Rightarrow> tailBuffer \<Rightarrow> tailBuffer" where
  "tail_Write p t =
     (let buf = tb_buf t @ p in
      t\<lparr>tb_buf := if int (length buf) > tb_cap t then drop (nat (int (length buf) - tb_cap t)) buf else buf\<rparr>)"

section \<open>Header policy\<close>

definition hopByHop :: "string \<Rightarrow> bool" where
  "hopByHop k = (k \<in> set [''Connection'', ''Proxy-Connection'', ''Keep-Alive'', ''Te'', ''Trailer'',
     ''Transfer-Encoding'', ''Upgrade'', ''Proxy-Authorization'', ''Authorization'', ''Host''])"

definition upstreamSkipHeaders :: "string \<Rightarrow> bool" where
  "upstreamSkipHeaders k = (k \<in> set [''Access-Control-Allow-Origin'', ''Access-Control-Allow-Methods'',
     ''Access-Control-Allow-Headers'', ''Access-Control-Allow-Credentials'', ''Access-Control-Expose-Headers'',
     ''Access-Control-Max-Age''])"

text \<open>The loop both header copies share: every value of every key that is not skipped is added.\<close>

definition add_all :: "(string \<Rightarrow> bool) \<Rightarrow> header \<Rightarrow> header \<Rightarrow> header" where
  "add_all skip src dst =
     fold (\<lambda>(k, vs) dst. if skip (CanonicalHeaderKey k) then dst else fold (header_Add k) vs dst) src dst"

definition copyHeaders :: "header \<Rightarrow> header \<Rightarrow> header" where
  "copyHeaders dst src = add_all hopByHop src dst"

definition singleJoiningSlash :: "string \<Rightarrow> string \<Rightarrow> string" where
  "singleJoiningSlash a b =
     (if HasSuffix a ''/'' \<and> HasPrefix b ''/'' then a @ drop 1 b
      else if \<not> HasSuffix a ''/'' \<and> \<not> HasPrefix b ''/'' then a @ ''/'' @ b
      else a @ b)"

section \<open>Error responses\<close>

definition openai_error_body :: "string \<Rightarrow> string \<Rightarrow> string" where
  "openai_error_body code message =
     marshal (VMap [(''error'', VMap [(''code'', VStr code), (''message'', VStr message), (''type'', VStr code)])]) @ [CHR 0x0A]"

definition writeOpenAIError :: "header \<Rightarrow> int \<Rightarrow> string \<Rightarrow> string \<Rightarrow> Response" where
  "writeOpenAIError h status code message =
     \<lparr>rs_status = status, rs_header = header_Set ''Content-Type'' ''application/json'' h,
      rs_body = [openai_error_body code message]\<rparr>"

definition writeAuthError :: "header \<Rightarrow> error \<Rightarrow> Response" where
  "writeAuthError h err =
     (if errors_is err ErrInactive then writeOpenAIError h 401 ''key_inactive'' ''this key has been revoked''
      else if errors_is err ErrExpired then writeOpenAIError h 401 ''key_expired'' ''this key has expired''
      else if errors_is err ErrNotFound \<or> errors_is err ErrInvalid
      then writeOpenAIError h 401 ''invalid_api_key'' ''invalid api key''
      else writeOpenAIError h 500 ''internal_error'' ''auth backend error'')"

section \<open>Request body\<close>

record preparedBody =
  pb_Body :: string
  pb_IsStream :: bool
  pb_Model :: string
  pb_Modified :: bool
  pb_WasJSON :: bool

definition empty_body :: preparedBody where
  "empty_body = \<lparr>pb_Body = [], pb_IsStream = False, pb_Model = [], pb_Modified = False, pb_WasJSON = False\<rparr>"

text \<open>The type assertions on members of the decoded document.\<close>

definition as_string :: "gov option \<Rightarrow> string option" where
  "as_string v = (case v of Some (VStr s) \<Rightarrow> Some s | _ \<Rightarrow> None)"

definition is_true :: "gov option \<Rightarrow> bool" where
  "is_true v = (v = Some (VBool True))"

definition as_map :: "gov option \<Rightarrow> (string \<times> gov) list" where
  "as_map v = (case v of Some (VMap m) \<Rightarrow> m | _ \<Rightarrow> [])"

text \<open>The document with usage reporting switched on, and whether that changed it.\<close>

definition force_usage :: "(string \<times> gov) list \<Rightarrow> (string \<times> gov) list \<times> bool" where
  "force_usage doc =
     (if is_true (map_of doc ''stream'') then
        let opts = as_map (map_of doc ''stream_options'') in
        if is_true (map_of opts ''include_usage'') then (doc, False)
        else (map_set ''stream_options'' (VMap (map_set ''include_usage'' (VBool True) opts)) doc, True)
      else (doc, False))"

text \<open>\<open>PrepareBody\<close>; the reader is \<^term>\<open>None\<close> when it is nil.  \<open>Marshal\<close> of decoded values does not fail.\<close>

definition PrepareBody :: "body option \<Rightarrow> preparedBody result" where
  "PrepareBody r =
     (case map_option ReadAll r of
        None \<Rightarrow> Inr empty_body
      | Some (Inl err) \<Rightarrow> Inl err
      | Some (Inr raw) \<Rightarrow>
         let pb = empty_body\<lparr>pb_Body := raw\<rparr> in
         if raw = [] then Inr pb else
         (case Unmarshal_map raw of
            None \<Rightarrow> Inr pb
          | Some doc \<Rightarrow>
             (case force_usage doc of (doc', modified) \<Rightarrow>
                Inr \<lparr>pb_Body = (if modified then marshal (VMap doc') else raw),
                     pb_IsStream = is_true (map_of doc ''stream''),
                     pb_Model = (case as_string (map_of doc ''model'') of None \<Rightarrow> [] | Some m \<Rightarrow> m),
                     pb_Modified = modified, pb_WasJSON = True\<rparr>)))"

text \<open>The prepared body, the reader handed to upstream, and the content length.\<close>

definition readBody :: "Request \<Rightarrow> (preparedBody \<times> body \<times> int) result" where
  "readBody r =
     (if \<not> HasPrefix (header_Get (Header r) ''Content-Type'') ''application/json''
      then Inr (empty_body, Body r, ContentLength r)
      else (case PrepareBody (Some (Body r)) of
              Inl err \<Rightarrow> Inl err
            | Inr pb \<Rightarrow> Inr (pb, (pb_Body pb, None), int (length (pb_Body pb)))))"

section \<open>Usage extraction\<close>

record streamUsage =
  su_InputTokens :: int
  su_OutputTokens :: int
  su_CachedTokens :: int
  su_Model :: string

definition no_usage :: streamUsage where
  "no_usage = \<lparr>su_InputTokens = 0, su_OutputTokens = 0, su_CachedTokens = 0, su_Model = []\<rparr>"

text \<open>The \<open>usageEnvelope\<close> struct; \<open>ub_Details\<close> is the \<open>cached_tokens\<close> of \<open>prompt_tokens_details\<close>, if that is there.\<close>

record usage_block =
  ub_PromptTokens :: int
  ub_CompletionTokens :: int
  ub_Details :: "int option"

record usageEnvelope =
  ue_Model :: string
  ue_Usage :: "usage_block option"

fun dec_details :: "(string \<times> json) list \<Rightarrow> int \<Rightarrow> int option" where
  "dec_details [] c = Some c"
| "dec_details ((k, v) # ms) c =
     (if field ''cached_tokens'' k then
        (case dec_int v c of None \<Rightarrow> None | Some c' \<Rightarrow> dec_details ms c')
      else dec_details ms c)"

fun dec_usage :: "(string \<times> json) list \<Rightarrow> usage_block \<Rightarrow> usage_block option" where
  "dec_usage [] u = Some u"
| "dec_usage ((k, v) # ms) u =
     (if field ''prompt_tokens'' k then
        (case dec_int v (ub_PromptTokens u) of None \<Rightarrow> None | Some n \<Rightarrow> dec_usage ms (u\<lparr>ub_PromptTokens := n\<rparr>))
      else if field ''completion_tokens'' k then
        (case dec_int v (ub_CompletionTokens u) of None \<Rightarrow> None | Some n \<Rightarrow> dec_usage ms (u\<lparr>ub_CompletionTokens := n\<rparr>))
      else if field ''prompt_tokens_details'' k then
        (case v of
           JNull \<Rightarrow> dec_usage ms (u\<lparr>ub_Details := None\<rparr>)
         | JObj ds \<Rightarrow>
            (case dec_details ds (case ub_Details u of None \<Rightarrow> 0 | Some c \<Rightarrow> c) of
               None \<Rightarrow> None
             | Some c \<Rightarrow> dec_usage ms (u\<lparr>ub_Details := Some c\<rparr>))
         | _ \<Rightarrow> None)
      else dec_usage ms u)"

definition zero_block :: usage_block where
  "zero_block = \<lparr>ub_PromptTokens = 0, ub_CompletionTokens = 0, ub_Details = None\<rparr>"

fun dec_envelope :: "(string \<times> json) list \<Rightarrow> usageEnvelope \<Rightarrow> usageEnvelope option" where
  "dec_envelope [] d = Some d"
| "dec_envelope ((k, v) # ms) d =
     (if field ''model'' k then
        (case dec_string v (ue_Model d) of None \<Rightarrow> None | Some m \<Rightarrow> dec_envelope ms (d\<lparr>ue_Model := m\<rparr>))
      else if field ''usage'' k then
        (case v of
           JNull \<Rightarrow> dec_envelope ms (d\<lparr>ue_Usage := None\<rparr>)
         | JObj us \<Rightarrow>
            (case dec_usage us (case ue_Usage d of None \<Rightarrow> zero_block | Some u \<Rightarrow> u) of
               None \<Rightarrow> None
             | Some u \<Rightarrow> dec_envelope ms (d\<lparr>ue_Usage := Some u\<rparr>))
         | _ \<Rightarrow> None)
      else dec_envelope ms d)"

definition Unmarshal_envelope :: "string \<Rightarrow> usageEnvelope option" where
  "Unmarshal_envelope s =
     (case json_parse s of
        Some JNull \<Rightarrow> Some \<lparr>ue_Model = [], ue_Usage = None\<rparr>
      | Some (JObj ms) \<Rightarrow> dec_envelope ms \<lparr>ue_Model = [], ue_Usage = None\<rparr>
      | _ \<Rightarrow> None)"

definition ParseJSONUsage :: "string \<Rightarrow> streamUsage \<times> bool" where
  "ParseJSONUsage body =
     (case Unmarshal_envelope body of
        None \<Rightarrow> (no_usage, False)
      | Some doc \<Rightarrow>
         (case ue_Usage doc of
            None \<Rightarrow> (no_usage\<lparr>su_Model := ue_Model doc\<rparr>, False)
          | Some u \<Rightarrow>
             (\<lparr>su_InputTokens = ub_PromptTokens u, su_OutputTokens = ub_CompletionTokens u,
               su_CachedTokens = (case ub_Details u of None \<Rightarrow> 0 | Some c \<Rightarrow> c), su_Model = ue_Model doc\<rparr>, True)))"

text \<open>
  The lines of a \<open>bufio.Scanner\<close>: separated by newlines, a carriage return before the newline dropped, nothing after
  the last newline if that ends the input; a line of 4 MiB or more stops the scanner.
\<close>

definition dropCR :: "string \<Rightarrow> string" where
  "dropCR l = (if l \<noteq> [] \<and> last l = CHR 0x0D then butlast l else l)"

definition scan_lines :: "string \<Rightarrow> string list" where
  "scan_lines buf =
     (let ls = Split buf (CHR 0x0A);
          ls = (if last ls = [] then butlast ls else ls)
      in map dropCR (takeWhile (\<lambda>l. int (length l) < 4 * 1024 * 1024) ls))"

definition sse_line :: "string \<Rightarrow> streamUsage \<times> bool \<Rightarrow> streamUsage \<times> bool" where
  "sse_line line st =
     (if \<not> HasPrefix line ''data:'' then st else
      let payload = TrimSpace (drop 5 line) in
      if payload = [] \<or> payload = ''[DONE]'' then st else
      (case Unmarshal_envelope payload of
         None \<Rightarrow> st
       | Some doc \<Rightarrow>
          (case st of (u, found) \<Rightarrow>
             let u = (if ue_Model doc \<noteq> [] then u\<lparr>su_Model := ue_Model doc\<rparr> else u) in
             (case ue_Usage doc of
                None \<Rightarrow> (u, found)
              | Some b \<Rightarrow>
                 (u\<lparr>su_InputTokens := ub_PromptTokens b, su_OutputTokens := ub_CompletionTokens b,
                    su_CachedTokens := (case ub_Details b of None \<Rightarrow> su_CachedTokens u | Some c \<Rightarrow> c)\<rparr>, True)))))"

definition ParseSSEUsage :: "string \<Rightarrow> streamUsage \<times> bool" where
  "ParseSSEUsage buf = fold sse_line (scan_lines buf) (no_usage, False)"

definition extractUsage :: "bool \<Rightarrow> string \<Rightarrow> tailBuffer \<Rightarrow> streamUsage" where
  "extractUsage isStream contentType t =
     (if isStream \<or> Contains contentType ''event-stream'' then fst (ParseSSEUsage (tb_buf t))
      else fst (ParseJSONUsage (tb_buf t)))"

section \<open>Streaming\<close>

text \<open>
  \<open>io.Copy\<close> through the multi-writer: each chunk goes to the client (with a flush) and then to the tail; a failed
  write to the client ends the copy before the tail has seen the chunk.
\<close>

fun copy_chunks :: "(nat \<Rightarrow> bool) \<Rightarrow> nat \<Rightarrow> string list \<Rightarrow> tailBuffer \<Rightarrow> string list \<times> tailBuffer" where
  "copy_chunks ok i [] t = ([], t)"
| "copy_chunks ok i (c # cs) t =
     (if ok i then (case copy_chunks ok (Suc i) cs (tail_Write c t) of (out, t') \<Rightarrow> (c # out, t'))
      else ([], t))"

definition streamResponse :: "(nat \<Rightarrow> bool) \<Rightarrow> header \<Rightarrow> UpResponse \<Rightarrow> Response \<times> tailBuffer" where
  "streamResponse ok h resp =
     (case copy_chunks ok 0 (resp_Chunks resp) (newTailBuffer captureMax) of (out, t) \<Rightarrow>
        (\<lparr>rs_status = resp_StatusCode resp, rs_header = add_all upstreamSkipHeaders (resp_Header resp) h, rs_body = out\<rparr>, t))"

section \<open>The request flow\<close>

definition authenticate :: "env \<Rightarrow> Deps \<Rightarrow> Request \<Rightarrow> world \<Rightarrow> (Key option \<times> error option) \<times> world" where
  "authenticate e d r w =
     (case CutPrefix (header_Get (Header r) ''Authorization'') ''Bearer '' of (plain, ok) \<Rightarrow>
        if \<not> ok \<or> plain = [] then ((None, Some ErrInvalid), w)
        else Verify e (KeySvc d) plain w)"

text \<open>\<open>record\<close>, with \<open>time.Since(start)\<close> read where the callers read it.\<close>

definition record_usage ::
  "env \<Rightarrow> Key \<Rightarrow> Request \<Rightarrow> string \<Rightarrow> bool \<Rightarrow> streamUsage \<Rightarrow> rat \<Rightarrow> int \<Rightarrow> time \<Rightarrow> string \<Rightarrow> world \<Rightarrow> world" where
  "record_usage e key r model streaming u cost status start errMsg w =
     (case time_Now e w of (now, w) \<Rightarrow>
        snd (RecordRequest e
          \<lparr>u_KeyID = ID key, u_RequestID = header_Get (Header r) ''X-Request-Id'', u_Endpoint = URL_Path r,
           u_Model = model, u_Streaming = streaming, u_InputTokens = su_InputTokens u,
           u_OutputTokens = su_OutputTokens u, u_CachedTokens = su_CachedTokens u, u_CostUSD = cost,
           u_Status = status, u_Duration = now - start, u_ErrorMessage = errMsg\<rparr> w))"

text \<open>\<^term>\<open>None\<close>: the request may pass; otherwise the response that was written.\<close>

definition check_rate :: "env \<Rightarrow> header \<Rightarrow> Key \<Rightarrow> Request \<Rightarrow> time \<Rightarrow> world \<Rightarrow> Response option \<times> world" where
  "check_rate e h key r start w =
     (case RPMLimit key of
        None \<Rightarrow> (None, w)
      | Some limit \<Rightarrow>
         (case AllowRate e (ID key) limit w of
            (Inl err, w) \<Rightarrow> (None, w)
          | (Inr ok, w) \<Rightarrow>
             if ok then (None, w)
             else (Some (writeOpenAIError h 429 ''rate_limit_exceeded'' ''per-minute request limit exceeded''),
                   record_usage e key r [] False no_usage 0 429 start ''rate limit'' w)))"

definition check_quota :: "env \<Rightarrow> header \<Rightarrow> Key \<Rightarrow> Request \<Rightarrow> time \<Rightarrow> world \<Rightarrow> Response option \<times> world" where
  "check_quota e h key r start w =
     (case AllowQuota e (ID key) (TokenQuota key) (DollarQuota key) w of
        (Inl err, w) \<Rightarrow> (None, w)
      | (Inr ok, w) \<Rightarrow>
         if ok then (None, w)
         else (Some (writeOpenAIError h 429 ''quota_exceeded'' ''token or dollar quota exceeded''),
               record_usage e key r [] False no_usage 0 429 start ''quota exceeded'' w))"

definition checkLimits :: "env \<Rightarrow> header \<Rightarrow> Key \<Rightarrow> Request \<Rightarrow> time \<Rightarrow> world \<Rightarrow> Response option \<times> world" where
  "checkLimits e h key r start w =
     (case check_rate e h key r start w of
        (Some resp, w) \<Rightarrow> (Some resp, w)
      | (None, w) \<Rightarrow> check_quota e h key r start w)"

definition build_header :: "string \<Rightarrow> Request \<Rightarrow> int \<Rightarrow> bool \<Rightarrow> header" where
  "build_header upstreamKey r contentLength bodyModified =
     (let h = copyHeaders [] (Header r);
          h = header_Set ''Authorization'' (''Bearer '' @ upstreamKey) h;
          h = header_Del ''X-Forwarded-For'' h;
          h = header_Del ''X-Forwarded-Host'' h;
          h = header_Del ''Accept-Encoding'' h
      in if bodyModified then header_Set ''Content-Length'' (FormatInt contentLength) h else h)"

definition buildUpstreamRequest ::
  "net \<Rightarrow> Deps \<Rightarrow> Request \<Rightarrow> body \<Rightarrow> int \<Rightarrow> bool \<Rightarrow> world \<Rightarrow> UpRequest result" where
  "buildUpstreamRequest n d r body contentLength bodyModified w =
     (case new_request_err n (ev w) of
        Some m \<Rightarrow> Inl (Err m)
      | None \<Rightarrow>
         Inr \<lparr>up_Method = Method r,
              up_URL = (Upstream_URL d)\<lparr>u_Path := singleJoiningSlash (u_Path (Upstream_URL d)) (URL_Path r),
                                         u_RawQuery := URL_RawQuery r\<rparr>,
              up_Header = build_header (UpstreamKey d (ev w)) r contentLength bodyModified,
              up_Host = u_Host (Upstream_URL d), up_Body = body, up_ContentLength = contentLength\<rparr>)"

text \<open>After the answer has been streamed: bill and log.\<close>

definition settle :: "env \<Rightarrow> Deps \<Rightarrow> Key \<Rightarrow> Request \<Rightarrow> preparedBody \<Rightarrow> UpResponse \<Rightarrow> tailBuffer \<Rightarrow> time \<Rightarrow> world \<Rightarrow> world" where
  "settle e d key r pb resp t start w =
     (let u = extractUsage (pb_IsStream pb) (header_Get (resp_Header resp) ''Content-Type'') t;
          model = (if su_Model u \<noteq> [] then su_Model u else pb_Model pb);
          cost = Cost (PriceTable d) model (su_InputTokens u) (su_OutputTokens u) (su_CachedTokens u);
          w = TouchLastUsed e (ID key) w;
          w = (if su_InputTokens u > 0 \<or> su_OutputTokens u > 0
               then snd (AddUsage e (ID key) (wrap64 (su_InputTokens u + su_OutputTokens u)) cost w) else w)
      in record_usage e key r model (pb_IsStream pb) u cost (resp_StatusCode resp) start [] w)"

text \<open>
  The outcome of a request: the response, and the request that was sent upstream, if one was; or a redirect to a path,
  which only the muxes in front of the handlers answer with.  Dereferencing a nil key would be \<open>Panicked\<close>.
\<close>

datatype outcome = Served Response "UpRequest option" | Redirected string | Panicked

definition forward ::
  "env \<Rightarrow> net \<Rightarrow> Deps \<Rightarrow> header \<Rightarrow> Key \<Rightarrow> Request \<Rightarrow> time \<Rightarrow> world \<Rightarrow> outcome \<times> world" where
  "forward e n d h key r start w =
     (case readBody r of
        Inl err \<Rightarrow> (Served (writeOpenAIError h 400 ''bad_request'' ''could not read request body'') None, w)
      | Inr (pb, body, len) \<Rightarrow>
         (case buildUpstreamRequest n d r body len (pb_Modified pb) w of
            Inl err \<Rightarrow> (Served (writeOpenAIError h 500 ''internal_error'' ''could not build upstream request'') None, w)
          | Inr req \<Rightarrow>
             let answer = client_Do n (ev w) req; ok = client_write_ok n (ev w); w = tick w in
             (case answer of
                Inl err \<Rightarrow>
                  (Served (writeOpenAIError h 502 ''upstream_unreachable'' ''could not reach upstream'') (Some req),
                   record_usage e key r (pb_Model pb) (pb_IsStream pb) no_usage 0 502 start (error_text err) w)
              | Inr resp \<Rightarrow>
                 (case streamResponse ok h resp of (out, t) \<Rightarrow>
                    (Served out (Some req), settle e d key r pb resp t start w)))))"

text \<open>\<open>ServeHTTP\<close>; \<open>h\<close> is the header the middleware has already set on the response.\<close>

definition ServeHTTP :: "env \<Rightarrow> net \<Rightarrow> Deps \<Rightarrow> header \<Rightarrow> Request \<Rightarrow> world \<Rightarrow> outcome \<times> world" where
  "ServeHTTP e n d h r w =
     (case time_Now e w of (start, w) \<Rightarrow>
     (case authenticate e d r w of
        ((_, Some err), w) \<Rightarrow> (Served (writeAuthError h err) None, w)
      | ((None, None), w) \<Rightarrow> (Panicked, w)
      | ((Some key, None), w) \<Rightarrow>
         (case checkLimits e h key r start w of
            (Some resp, w) \<Rightarrow> (Served resp None, w)
          | (None, w) \<Rightarrow> forward e n d h key r start w)))"

end
