(* ===== verification/Admin.thy ===== *)
theory Admin
  imports Auth Rfc3339 Mux Proxy
begin

text \<open>
  Package \<open>internal/admin\<close>, \<open>api.go\<close>: the handlers of the admin API, the routes they are mounted on, and the CORS layer.
  The parser of UUIDs, the time zones of the process and of the database session, and the point at which a stream
  of result rows breaks off are parameters.
\<close>

section \<open>State and parameters\<close>

record API =
  a_keys :: Service
  a_auth :: Auth
  a_origins :: "string list"

definition NewAPI :: "Service \<Rightarrow> Auth \<Rightarrow> string list \<Rightarrow> API" where
  "NewAPI k auth allowedOrigins = \<lparr>a_keys = k, a_auth = auth, a_origins = allowedOrigins\<rparr>"

text \<open>
  \<open>pg_day\<close> and \<open>pg_stamp\<close> are the two \<open>to_char\<close> formats, \<open>pg_days_ago\<close> is \<open>now() - make_interval(days => n)\<close>; \<open>rows_cut\<close> is
  the number of rows a query delivers if its stream of rows fails, which the handlers do not ask about.
\<close>

record lib =
  uuid_Parse :: "string \<Rightarrow> uuid option"
  local_offset :: "time \<Rightarrow> int"
  pg_day :: "time \<Rightarrow> string"
  pg_stamp :: "time \<Rightarrow> string"
  pg_days_ago :: "time \<Rightarrow> int \<Rightarrow> time"
  rows_cut :: "nat \<Rightarrow> nat option"

section \<open>Responses\<close>

definition writeJSON :: "header \<Rightarrow> int \<Rightarrow> gov \<Rightarrow> Response" where
  "writeJSON h status v =
     \<lparr>rs_status = status, rs_header = header_Set ''Content-Type'' ''application/json'' h, rs_body = [marshal v @ [CHR 0x0A]]\<rparr>"

definition no_content :: "header \<Rightarrow> Response" where
  "no_content h = \<lparr>rs_status = 204, rs_header = h, rs_body = []\<rparr>"

text \<open>A nil slice is written as \<open>null\<close>.\<close>

definition json_slice :: "gov list \<Rightarrow> gov" where
  "json_slice vs = (if vs = [] then VNull else VArr vs)"

definition json_opt :: "('a \<Rightarrow> gov) \<Rightarrow> 'a option \<Rightarrow> gov" where
  "json_opt f x = (case x of None \<Rightarrow> VNull | Some v \<Rightarrow> f v)"

text \<open>The answer to an error of the key service.\<close>

definition key_error :: "header \<Rightarrow> error \<Rightarrow> Response" where
  "key_error h err =
     (if errors_is err ErrNotFound then http_Error h ''not found'' 404 else http_Error h (error_text err) 500)"

section \<open>CORS\<close>

definition originAllowed :: "API \<Rightarrow> string \<Rightarrow> bool" where
  "originAllowed a origin = list_ex (\<lambda>x. x = ''*'' \<or> x = origin) (a_origins a)"

definition cors_header :: "API \<Rightarrow> Request \<Rightarrow> header \<Rightarrow> header" where
  "cors_header a r h =
     (let origin = header_Get (Header r) ''Origin'' in
      if origin \<noteq> [] \<and> originAllowed a origin then
        header_Set ''Access-Control-Max-Age'' ''600''
          (header_Set ''Access-Control-Allow-Headers'' ''Authorization, Content-Type''
            (header_Set ''Access-Control-Allow-Methods'' ''GET, POST, PATCH, DELETE, OPTIONS''
              (header_Set ''Vary'' ''Origin'' (header_Set ''Access-Control-Allow-Origin'' origin h))))
      else h)"

text \<open>The layer around a handler that may forward; a preflight is answered here.\<close>

definition CORS ::
  "API \<Rightarrow> (header \<Rightarrow> Request \<Rightarrow> system \<Rightarrow> outcome \<times> system) \<Rightarrow> header \<Rightarrow> Request \<Rightarrow> system \<Rightarrow> outcome \<times> system" where
  "CORS a next h r sys =
     (let h = cors_header a r h in
      if Method r = ''OPTIONS'' then (Served (no_content h) None, sys) else next h r sys)"

section \<open>Login\<close>

definition loginReq :: "string \<Rightarrow> json \<Rightarrow> string \<Rightarrow> string option" where
  "loginReq k v p = (if field ''password'' k then dec_string v p else Some p)"

text \<open>\<open>int(ttl.Seconds())\<close>, through \<open>float64\<close>.\<close>

definition ttl_seconds :: "Auth \<Rightarrow> int" where
  "ttl_seconds a =
     (let sec = go_quot (ttl a) Second; nsec = ttl a - sec * Second;
          f = round64 (float_of_int sec + round64 (of_int nsec / of_int Second))
      in if f < 0 then - \<lfloor>- f\<rfloor> else \<lfloor>f\<rfloor>)"

definition login :: "env \<Rightarrow> API \<Rightarrow> handler" where
  "login e a h r sys =
     (case Decode loginReq [] (Body r) of
        None \<Rightarrow> (http_Error h ''invalid json'' 400, sys)
      | Some pw \<Rightarrow>
         if \<not> VerifyPassword (a_auth a) pw
         then (writeJSON h 401 (VMap [(''error'', VStr ''invalid password'')]), sys)
         else (case IssueToken e (a_auth a) (snd sys) of (tok, w) \<Rightarrow>
                 (writeJSON h 200 (VMap [(''expires_in'', VInt (ttl_seconds (a_auth a))), (''token'', VStr tok)]), (fst sys, w))))"

definition me :: "env \<Rightarrow> API \<Rightarrow> handler" where
  "me e a h r sys =
     (case ValidateBearer e (a_auth a) r (snd sys) of
        (Some err, w) \<Rightarrow> (writeJSON h 401 (VMap [(''authenticated'', VBool False)]), (fst sys, w))
      | (None, w) \<Rightarrow> (writeJSON h 200 (VMap [(''authenticated'', VBool True)]), (fst sys, w)))"

section \<open>Keys\<close>

definition stats :: "env \<Rightarrow> API \<Rightarrow> handler" where
  "stats e a h r sys =
     (case get_Stats e (snd sys) of
        (Inl err, w) \<Rightarrow> (http_Error h (error_text err) 500, (fst sys, w))
      | (Inr st, w) \<Rightarrow>
         (writeJSON h 200 (VMap [(''active_keys'', VInt (ActiveKeys st)), (''today_cost_usd'', VNum (TodayCostUSD st)),
            (''today_tokens'', VInt (TodayTokens st)), (''total_keys'', VInt (TotalKeys st))]), (fst sys, w)))"

record keyDTO =
  d_ID :: string
  d_Prefix :: string
  d_Owner :: string
  d_Note :: string
  d_ExpiresAt :: "string option"
  d_RPMLimit :: "int option"
  d_TokenQuota :: "int option"
  d_DollarQuota :: "rat option"
  d_Active :: bool
  d_CreatedAt :: string
  d_LastUsedAt :: "string option"
  d_TotalTokens :: int
  d_TotalCostUSD :: rat

definition format_local :: "lib \<Rightarrow> time \<Rightarrow> string" where
  "format_local L t = Format_RFC3339 (local_offset L t) t"

definition toDTO :: "lib \<Rightarrow> KeyWithUsage \<Rightarrow> keyDTO" where
  "toDTO L ku =
     (let k = KeyOf ku in
      \<lparr>d_ID = ID k, d_Prefix = Prefix k, d_Owner = Owner k, d_Note = Note k,
       d_ExpiresAt = map_option (format_local L) (ExpiresAt k), d_RPMLimit = RPMLimit k, d_TokenQuota = TokenQuota k,
       d_DollarQuota = DollarQuota k, d_Active = Active k, d_CreatedAt = format_local L (CreatedAt k),
       d_LastUsedAt = map_option (format_local L) (LastUsedAt k), d_TotalTokens = TotalTokens ku,
       d_TotalCostUSD = TotalCostUSD ku\<rparr>)"

definition dto_json :: "keyDTO \<Rightarrow> gov" where
  "dto_json d =
     VMap [(''id'', VStr (d_ID d)), (''prefix'', VStr (d_Prefix d)), (''owner'', VStr (d_Owner d)), (''note'', VStr (d_Note d)),
       (''expires_at'', json_opt VStr (d_ExpiresAt d)), (''rpm_limit'', json_opt VInt (d_RPMLimit d)),
       (''token_quota'', json_opt VInt (d_TokenQuota d)), (''dollar_quota'', json_opt VNum (d_DollarQuota d)),
       (''active'', VBool (d_Active d)), (''created_at'', VStr (d_CreatedAt d)),
       (''last_used_at'', json_opt VStr (d_LastUsedAt d)), (''total_tokens'', VInt (d_TotalTokens d)),
       (''total_cost_usd'', VNum (d_TotalCostUSD d))]"

definition listKeys :: "env \<Rightarrow> lib \<Rightarrow> API \<Rightarrow> handler" where
  "listKeys e L a h r sys =
     (case ListKeys e (snd sys) of
        (Inl err, w) \<Rightarrow> (http_Error h (error_text err) 500, (fst sys, w))
      | (Inr list, w) \<Rightarrow> (writeJSON h 200 (VArr (map (\<lambda>k. dto_json (toDTO L k)) list)), (fst sys, w)))"

record createReq =
  c_Owner :: string
  c_Note :: string
  c_ExpiresAt :: "string option"
  c_RPMLimit :: "int option"
  c_TokenQuota :: "int option"
  c_DollarQuota :: "rat option"

definition empty_createReq :: createReq where
  "empty_createReq = \<lparr>c_Owner = [], c_Note = [], c_ExpiresAt = None, c_RPMLimit = None, c_TokenQuota = None, c_DollarQuota = None\<rparr>"

definition dec_create :: "string \<Rightarrow> json \<Rightarrow> createReq \<Rightarrow> createReq option" where
  "dec_create k v q =
     (if field ''owner'' k then map_option (\<lambda>x. q\<lparr>c_Owner := x\<rparr>) (dec_string v (c_Owner q))
      else if field ''note'' k then map_option (\<lambda>x. q\<lparr>c_Note := x\<rparr>) (dec_string v (c_Note q))
      else if field ''expires_at'' k then map_option (\<lambda>x. q\<lparr>c_ExpiresAt := x\<rparr>) (dec_ptr dec_string [] v)
      else if field ''rpm_limit'' k then map_option (\<lambda>x. q\<lparr>c_RPMLimit := x\<rparr>) (dec_ptr dec_int 0 v)
      else if field ''token_quota'' k then map_option (\<lambda>x. q\<lparr>c_TokenQuota := x\<rparr>) (dec_ptr dec_int 0 v)
      else if field ''dollar_quota'' k then map_option (\<lambda>x. q\<lparr>c_DollarQuota := x\<rparr>) (dec_ptr dec_float 0 v)
      else Some q)"


definition buildIssueParams :: "createReq \<Rightarrow> IssueParams result" where
  "buildIssueParams req =
     (let owner = TrimSpace (c_Owner req);
          p = (\<lambda>x. \<lparr>p_Owner = owner, p_Note = c_Note req, p_ExpiresAt = x, p_RPMLimit = c_RPMLimit req,
                   p_TokenQuota = c_TokenQuota req, p_DollarQuota = c_DollarQuota req\<rparr>) in
      if owner = [] then Inl (Err ''owner required'') else
      (case c_ExpiresAt req of
         None \<Rightarrow> Inr (p None)
       | Some s \<Rightarrow>
          if s = [] then Inr (p None) else
          (case Parse_RFC3339 s of
             None \<Rightarrow> Inl (Err ''expires_at must be RFC3339'')
           | Some t \<Rightarrow> Inr (p (Some t)))))"

definition createKey :: "env \<Rightarrow> API \<Rightarrow> handler" where
  "createKey e a h r sys =
     (case Decode dec_create empty_createReq (Body r) of
        None \<Rightarrow> (http_Error h ''invalid json'' 400, sys)
      | Some req \<Rightarrow>
         (case buildIssueParams req of
            Inl err \<Rightarrow> (http_Error h (error_text err) 400, sys)
          | Inr params \<Rightarrow>
             (case Issue e (a_keys a) params (snd sys) of
                (Inl err, w) \<Rightarrow> (http_Error h (error_text err) 500, (fst sys, w))
              | (Inr ik, w) \<Rightarrow>
                 (writeJSON h 201 (VMap [(''id'', VStr (ID (ik_Key ik))), (''key'', VStr (ik_Plain ik)),
                    (''owner'', VStr (Owner (ik_Key ik))), (''prefix'', VStr (Prefix (ik_Key ik)))]), (fst sys, w)))))"

text \<open>The handlers of one key begin by parsing its id.\<close>

definition with_id :: "lib \<Rightarrow> (uuid \<Rightarrow> handler) \<Rightarrow> handler" where
  "with_id L f h r sys =
     (case uuid_Parse L (PathValue r ''id'') of
        None \<Rightarrow> (http_Error h ''invalid id'' 400, sys)
      | Some i \<Rightarrow> f i h r sys)"

definition getKey :: "env \<Rightarrow> lib \<Rightarrow> API \<Rightarrow> handler" where
  "getKey e L a = with_id L (\<lambda>i h r sys.
     (case Get e i (snd sys) of
        (Inl err, w) \<Rightarrow> (key_error h err, (fst sys, w))
      | (Inr k, w) \<Rightarrow> (writeJSON h 200 (dto_json (toDTO L k)), (fst sys, w))))"

definition answer_write :: "header \<Rightarrow> UpstreamStore \<Rightarrow> error option \<times> world \<Rightarrow> Response \<times> system" where
  "answer_write h s res =
     (case res of
        (Some err, w) \<Rightarrow> (key_error h err, (s, w))
      | (None, w) \<Rightarrow> (no_content h, (s, w)))"

definition updateKey :: "env \<Rightarrow> lib \<Rightarrow> API \<Rightarrow> handler" where
  "updateKey e L a = with_id L (\<lambda>i h r sys.
     (case Decode dec_create empty_createReq (Body r) of
        None \<Rightarrow> (http_Error h ''invalid json'' 400, sys)
      | Some req \<Rightarrow>
         (case buildIssueParams req of
            Inl err \<Rightarrow> (http_Error h (error_text err) 400, sys)
          | Inr params \<Rightarrow> answer_write h (fst sys) (Update e i params (snd sys)))))"

definition deleteKey :: "env \<Rightarrow> lib \<Rightarrow> API \<Rightarrow> handler" where
  "deleteKey e L a = with_id L (\<lambda>i h r sys. answer_write h (fst sys) (Delete e i (snd sys)))"

definition dec_active :: "string \<Rightarrow> json \<Rightarrow> bool \<Rightarrow> bool option" where
  "dec_active k v b = (if field ''active'' k then dec_bool v b else Some b)"

definition toggleActive :: "env \<Rightarrow> lib \<Rightarrow> API \<Rightarrow> handler" where
  "toggleActive e L a = with_id L (\<lambda>i h r sys.
     (case Decode dec_active False (Body r) of
        None \<Rightarrow> (http_Error h ''invalid json'' 400, sys)
      | Some active \<Rightarrow> answer_write h (fst sys) (SetActive e i active (snd sys))))"

section \<open>Usage reports\<close>

text \<open>An optional number in the query, between 1 and a bound.\<close>

definition query_number :: "string \<Rightarrow> int \<Rightarrow> int \<Rightarrow> Request \<Rightarrow> int" where
  "query_number name deflt bound r =
     (let v = URL_Query r name in
      if v = [] then deflt else
      (case Atoi v of
         None \<Rightarrow> deflt
       | Some n \<Rightarrow> if n > 0 \<and> n \<le> bound then n else deflt))"

text \<open>
  A query: it fails, or its rows are scanned one by one; a stream that breaks off looks like its end, because
  \<open>rows.Err()\<close> is not read.
\<close>

definition query_rows :: "env \<Rightarrow> lib \<Rightarrow> (time \<Rightarrow> world \<Rightarrow> 'r list) \<Rightarrow> world \<Rightarrow> 'r list result \<times> world" where
  "query_rows e L q w =
     db_call e (\<lambda>now w'. (Inr (case rows_cut L (ev w) of None \<Rightarrow> q now w' | Some n \<Rightarrow> take n (q now w')), w')) w"

definition answer_rows :: "header \<Rightarrow> UpstreamStore \<Rightarrow> ('r \<Rightarrow> gov) \<Rightarrow> 'r list result \<times> world \<Rightarrow> Response \<times> system" where
  "answer_rows h s f res =
     (case res of
        (Inl err, w) \<Rightarrow> (http_Error h (error_text err) 500, (s, w))
      | (Inr rows, w) \<Rightarrow> (writeJSON h 200 (json_slice (map f rows)), (s, w)))"

text \<open>The rows of \<open>GROUP BY\<close> over a text column in ascending order of the column.  The sum of two
  \<open>INTEGER\<close> columns is an \<open>INTEGER\<close>: if it overflows, the aggregation fails before it has delivered a row.\<close>

record group_row =
  g_label :: string
  g_tokens :: int
  g_cost :: rat
  g_requests :: int

definition group_usage :: "env \<Rightarrow> (usage_row \<Rightarrow> string) \<Rightarrow> usage_row list \<Rightarrow> group_row list" where
  "group_usage e label us =
     (if \<not> list_all (\<lambda>u. int4_range (ur_input_tokens u + ur_output_tokens u)) us then [] else
      map (\<lambda>(l, _). let mine = filter (\<lambda>u. label u = l) us in
             \<lparr>g_label = l, g_tokens = sum_list (map (\<lambda>u. ur_input_tokens u + ur_output_tokens u) mine),
              g_cost = pg_float e (sum_list (map ur_cost_usd mine)), g_requests = int (length mine)\<rparr>)
          (fold (\<lambda>u. map_set (label u) ()) us []))"

definition group_json :: "string \<Rightarrow> group_row \<Rightarrow> gov" where
  "group_json name g =
     VMap [(name, VStr (g_label g)), (''tokens'', VInt (g_tokens g)), (''cost_usd'', VNum (g_cost g)),
       (''requests'', VInt (g_requests g))]"

definition usage_since :: "lib \<Rightarrow> int \<Rightarrow> time \<Rightarrow> world \<Rightarrow> usage_row list" where
  "usage_since L days now w = filter (\<lambda>u. pg_days_ago L now days \<le> ur_created_at u) (usage_records w)"

definition usageSummary :: "env \<Rightarrow> lib \<Rightarrow> API \<Rightarrow> handler" where
  "usageSummary e L a h r sys =
     (let days = query_number ''days'' 30 365 r in
      answer_rows h (fst sys) (group_json ''day'')
        (query_rows e L (\<lambda>now w. group_usage e (\<lambda>u. pg_day L (ur_created_at u)) (usage_since L days now w)) (snd sys)))"

text \<open>Groups with equally many tokens come in no particular order; here it is that of their names.\<close>

definition model_label :: "usage_row \<Rightarrow> string" where
  "model_label u = (case ur_model u of None \<Rightarrow> ''(unknown)'' | Some m \<Rightarrow> if m = [] then ''(unknown)'' else m)"

definition usageByModel :: "env \<Rightarrow> lib \<Rightarrow> API \<Rightarrow> handler" where
  "usageByModel e L a h r sys =
     (let days = query_number ''days'' 30 365 r in
      answer_rows h (fst sys) (group_json ''model'')
        (query_rows e L (\<lambda>now w. take 20 (sort_key (\<lambda>g. - g_tokens g) (group_usage e model_label (usage_since L days now w)))) (snd sys)))"

text \<open>\<open>ORDER BY created_at DESC LIMIT n\<close>\<close>

definition newest :: "int \<Rightarrow> usage_row list \<Rightarrow> usage_row list" where
  "newest n us = take (nat n) (sort_key (\<lambda>u. - ur_created_at u) us)"

definition model_text :: "usage_row \<Rightarrow> string" where
  "model_text u = (case ur_model u of None \<Rightarrow> [] | Some m \<Rightarrow> m)"

definition recent_json :: "env \<Rightarrow> lib \<Rightarrow> usage_row \<Rightarrow> gov" where
  "recent_json e L u =
     VMap [(''created_at'', VStr (pg_stamp L (ur_created_at u))), (''endpoint'', VStr (ur_endpoint u)),
       (''model'', VStr (model_text u)), (''streaming'', VBool (ur_streaming u)),
       (''input_tokens'', VInt (ur_input_tokens u)), (''output_tokens'', VInt (ur_output_tokens u)),
       (''cost_usd'', VNum (pg_float e (ur_cost_usd u))), (''status'', VInt (ur_status u)), (''duration_ms'', VInt (ur_duration_ms u))]"

definition usageRecent :: "env \<Rightarrow> lib \<Rightarrow> API \<Rightarrow> handler" where
  "usageRecent e L a = with_id L (\<lambda>i h r sys.
     (let limit = query_number ''limit'' 50 500 r in
      answer_rows h (fst sys) (recent_json e L)
        (query_rows e L (\<lambda>_ w. newest limit (filter (\<lambda>u. ur_key_id u = i) (usage_records w))) (snd sys))))"

text \<open>The join with \<open>api_keys\<close>.\<close>

definition joined :: "world \<Rightarrow> (usage_row \<times> api_key_row) list" where
  "joined w = concat (map (\<lambda>u. map (\<lambda>k. (u, k)) (filter (\<lambda>k. ID (row_key k) = ur_key_id u) (api_keys w))) (usage_records w))"

definition recent_all_json :: "env \<Rightarrow> lib \<Rightarrow> usage_row \<times> api_key_row \<Rightarrow> gov" where
  "recent_all_json e L uk =
     (case uk of (u, k) \<Rightarrow>
       VMap [(''created_at'', VStr (pg_stamp L (ur_created_at u))), (''key_id'', VStr (ur_key_id u)),
         (''key_prefix'', VStr (Prefix (row_key k))), (''key_owner'', VStr (Owner (row_key k))),
         (''endpoint'', VStr (ur_endpoint u)), (''model'', VStr (model_text u)),
         (''input_tokens'', VInt (ur_input_tokens u)), (''output_tokens'', VInt (ur_output_tokens u)),
         (''cost_usd'', VNum (pg_float e (ur_cost_usd u))), (''status'', VInt (ur_status u)), (''duration_ms'', VInt (ur_duration_ms u))])"

definition usageRecentAll :: "env \<Rightarrow> lib \<Rightarrow> API \<Rightarrow> handler" where
  "usageRecentAll e L a h r sys =
     (let limit = query_number ''limit'' 30 200 r in
      answer_rows h (fst sys) (recent_all_json e L)
        (query_rows e L (\<lambda>_ w. take (nat limit) (sort_key (\<lambda>(u, _). - ur_created_at u) (joined w))) (snd sys)))"

section \<open>Upstream keys\<close>

definition upstream_key_json :: "lib \<Rightarrow> UpstreamKey \<Rightarrow> gov" where
  "upstream_key_json L k =
     VMap [(''id'', VInt (uk_ID k)), (''prefix'', VStr (uk_Prefix k)), (''note'', VStr (uk_Note k)), (''active'', VBool (uk_Active k)),
       (''created_at'', VStr (format_local L (uk_CreatedAt k))),
       (''retired_at'', json_opt (\<lambda>t. VStr (format_local L t)) (uk_RetiredAt k))]"

definition upstreamKeys :: "env \<Rightarrow> lib \<Rightarrow> API \<Rightarrow> handler" where
  "upstreamKeys e L a h r sys =
     (case History e (snd sys) of
        (Inl err, w) \<Rightarrow> (http_Error h (error_text err) 500, (fst sys, w))
      | (Inr hist, w) \<Rightarrow> (writeJSON h 200 (VArr (map (upstream_key_json L) hist)), (fst sys, w)))"

record rotateUpstreamReq =
  ru_Key :: string
  ru_Note :: string

definition dec_rotate :: "string \<Rightarrow> json \<Rightarrow> rotateUpstreamReq \<Rightarrow> rotateUpstreamReq option" where
  "dec_rotate k v q =
     (if field ''key'' k then map_option (\<lambda>x. q\<lparr>ru_Key := x\<rparr>) (dec_string v (ru_Key q))
      else if field ''note'' k then map_option (\<lambda>x. q\<lparr>ru_Note := x\<rparr>) (dec_string v (ru_Note q))
      else Some q)"

definition rotateUpstreamKey :: "env \<Rightarrow> API \<Rightarrow> handler" where
  "rotateUpstreamKey e a h r sys =
     (case Decode dec_rotate \<lparr>ru_Key = [], ru_Note = []\<rparr> (Body r) of
        None \<Rightarrow> (http_Error h ''invalid json'' 400, sys)
      | Some req \<Rightarrow>
         (case Set e (fst sys) (ru_Key req) (ru_Note req) (snd sys) of
            (Some err, s, w) \<Rightarrow> (http_Error h (error_text err) 400, (s, w))
          | (None, s, w) \<Rightarrow> (no_content h, (s, w))))"

section \<open>Routes\<close>

definition admin_route :: "string \<Rightarrow> seg list \<Rightarrow> 'h \<Rightarrow> 'h route" where
  "admin_route m gs f = \<lparr>rt_method = m, rt_segs = Lit ''admin'' # Lit ''api'' # gs, rt_handler = f\<rparr>"

definition authed_routes :: "env \<Rightarrow> lib \<Rightarrow> API \<Rightarrow> handler route list" where
  "authed_routes e L a =
     [admin_route ''GET'' [Lit ''stats''] (stats e a),
      admin_route ''GET'' [Lit ''keys''] (listKeys e L a),
      admin_route ''POST'' [Lit ''keys''] (createKey e a),
      admin_route ''GET'' [Lit ''keys'', Wild ''id''] (getKey e L a),
      admin_route ''PATCH'' [Lit ''keys'', Wild ''id''] (updateKey e L a),
      admin_route ''DELETE'' [Lit ''keys'', Wild ''id''] (deleteKey e L a),
      admin_route ''POST'' [Lit ''keys'', Wild ''id'', Lit ''active''] (toggleActive e L a),
      admin_route ''GET'' [Lit ''usage''] (usageSummary e L a),
      admin_route ''GET'' [Lit ''usage'', Lit ''by-model''] (usageByModel e L a),
      admin_route ''GET'' [Lit ''usage'', Lit ''recent''] (usageRecentAll e L a),
      admin_route ''GET'' [Lit ''usage'', Wild ''id'', Lit ''recent''] (usageRecent e L a),
      admin_route ''GET'' [Lit ''upstream-keys''] (upstreamKeys e L a),
      admin_route ''POST'' [Lit ''upstream-keys''] (rotateUpstreamKey e a)]"

definition Mount :: "env \<Rightarrow> lib \<Rightarrow> API \<Rightarrow> handler route list" where
  "Mount e L a =
     [admin_route ''POST'' [Lit ''login''] (login e a),
      admin_route ''GET'' [Lit ''me''] (me e a)]
     @ map (\<lambda>rt. rt\<lparr>rt_handler := Middleware e (a_auth a) (rt_handler rt)\<rparr>) (authed_routes e L a)"

text \<open>The mux the routes are mounted on.\<close>

definition serve_admin :: "env \<Rightarrow> lib \<Rightarrow> API \<Rightarrow> header \<Rightarrow> Request \<Rightarrow> system \<Rightarrow> outcome \<times> system" where
  "serve_admin e L a h r sys =
     (case findHandler (Mount e L a) r of
        Run f vs \<Rightarrow> (case f h (r\<lparr>PathValue := path_value vs\<rparr>) sys of (resp, sys) \<Rightarrow> (Served resp None, sys))
      | RedirectTo p \<Rightarrow> (Redirected p, sys)
      | MethodNotAllowed ms \<Rightarrow> (Served (not_allowed_response ms h) None, sys)
      | NoRoute \<Rightarrow> (Served (not_found_response h) None, sys))"

end
