(* ===== verification/Keys_State.thy ===== *)
theory Keys_State
  imports Keys
begin

text \<open>
  The key service as a state machine: one operation per method of \<open>Service\<close>, run in any order and under any
  pattern of failures.  The invariant \<open>db_ok\<close> is what the schema promises (unique ids and prefixes, foreign
  keys) together with the column ranges the statements keep.
\<close>

section \<open>Operations and runs\<close>

datatype op =
    OpIssue IssueParams
  | OpVerify string
  | OpTouch uuid
  | OpList
  | OpGet uuid
  | OpSetActive uuid bool
  | OpDelete uuid
  | OpUpdate uuid IssueParams
  | OpStats
  | OpAllowRate uuid int
  | OpAllowQuota uuid "int option" "rat option"
  | OpAddUsage uuid int rat
  | OpRecord UsageRecord

fun apply_op :: "env \<Rightarrow> Service \<Rightarrow> op \<Rightarrow> world \<Rightarrow> world" where
  "apply_op e s (OpIssue p) w = snd (Issue e s p w)"
| "apply_op e s (OpVerify plain) w = snd (Verify e s plain w)"
| "apply_op e s (OpTouch i) w = TouchLastUsed e i w"
| "apply_op e s OpList w = snd (ListKeys e w)"
| "apply_op e s (OpGet i) w = snd (Get e i w)"
| "apply_op e s (OpSetActive i a) w = snd (SetActive e i a w)"
| "apply_op e s (OpDelete i) w = snd (Delete e i w)"
| "apply_op e s (OpUpdate i p) w = snd (Update e i p w)"
| "apply_op e s OpStats w = snd (get_Stats e w)"
| "apply_op e s (OpAllowRate i n) w = snd (AllowRate e i n w)"
| "apply_op e s (OpAllowQuota i tq dq) w = snd (AllowQuota e i tq dq w)"
| "apply_op e s (OpAddUsage i t c) w = snd (AddUsage e i t c w)"
| "apply_op e s (OpRecord r) w = snd (RecordRequest e r w)"

text \<open>A step is an operation, or Redis dropping a key on its own (eviction, restart).\<close>

inductive kstep :: "env \<Rightarrow> Service \<Rightarrow> world \<Rightarrow> world \<Rightarrow> bool" for e s where
  op: "kstep e s w (apply_op e s c w)"
| evict: "kstep e s w (w\<lparr>redis := (redis w)(k := None)\<rparr>)"

definition init_world :: world where
  "init_world = \<lparr>ev = 0, api_keys = [], quota_totals = Map.empty, usage_records = [], upstream_keys = [],
                 upstream_seq = 1, redis = Map.empty\<rparr>"

inductive reach :: "env \<Rightarrow> Service \<Rightarrow> world \<Rightarrow> bool" for e s where
  init: "reach e s init_world"
| step: "reach e s w \<Longrightarrow> kstep e s w w' \<Longrightarrow> reach e s w'"

inductive_cases kstepE: "kstep e s w w'"

text \<open>A sequence of operations, one after the other.\<close>

fun run_ops :: "env \<Rightarrow> Service \<Rightarrow> op list \<Rightarrow> world \<Rightarrow> world" where
  "run_ops e s [] w = w"
| "run_ops e s (c # cs) w = run_ops e s cs (apply_op e s c w)"

definition demo_service :: Service where
  "demo_service = NewService ''pk-'' (60 * Second)"

definition demo_params :: IssueParams where
  "demo_params = \<lparr>p_Owner = ''ann'', p_Note = '''', p_ExpiresAt = None, p_RPMLimit = Some 2,
     p_TokenQuota = Some 100, p_DollarQuota = None\<rparr>"

text \<open>One key issued, verified (so that it is cached) and charged with ten tokens.\<close>

definition demo_ops :: "op list" where
  "demo_ops = [OpIssue demo_params, OpVerify ''pk-AAAAAAAAAAAAAAAAAAAAAAAAAAAAAAAA'', OpAddUsage ''2'' 10 0]"

section \<open>The schema invariant\<close>

definition ids :: "world \<Rightarrow> uuid set" where
  "ids w = (\<lambda>r. ID (row_key r)) ` set (api_keys w)"

definition db_ok :: "world \<Rightarrow> bool" where
  "db_ok w \<longleftrightarrow>
     distinct (map (\<lambda>r. ID (row_key r)) (api_keys w))
   \<and> distinct (map (\<lambda>r. Prefix (row_key r)) (api_keys w))
   \<and> dom (quota_totals w) \<subseteq> ids w
   \<and> (\<forall>u \<in> set (usage_records w). ur_key_id u \<in> ids w)"

lemma find_id_None: "find_id i w = None \<longleftrightarrow> i \<notin> ids w"
  by (auto simp: find_id_def find_eq_None ids_def)

lemma find_prefix_None: "find_prefix p w = None \<longleftrightarrow> (\<forall>r \<in> set (api_keys w). Prefix (row_key r) \<noteq> p)"
  by (simp add: find_prefix_def find_eq_None)

lemma find_idD: "find_id i w = Some r \<Longrightarrow> r \<in> set (api_keys w) \<and> ID (row_key r) = i"
  by (auto simp: find_id_def dest: find_SomeD)

lemma find_prefixD: "find_prefix p w = Some r \<Longrightarrow> r \<in> set (api_keys w) \<and> Prefix (row_key r) = p"
  by (auto simp: find_prefix_def dest: find_SomeD)

lemma find_id_mem:
  assumes "db_ok w" "r \<in> set (api_keys w)"
  shows "find_id (ID (row_key r)) w = Some r"
  using find_distinct_map [of "\<lambda>r. ID (row_key r)" "api_keys w" r] assms
  by (simp add: db_ok_def find_id_def)

lemma find_prefix_mem:
  assumes "db_ok w" "r \<in> set (api_keys w)"
  shows "find_prefix (Prefix (row_key r)) w = Some r"
  using find_distinct_map [of "\<lambda>r. Prefix (row_key r)" "api_keys w" r] assms
  by (simp add: db_ok_def find_prefix_def)

lemma find_id_cong [simp]: "find_id i (w\<lparr>redis := x\<rparr>) = find_id i w" "find_id i (tick w) = find_id i w"
  "find_id i (rput k v w) = find_id i w" "find_id i (w\<lparr>quota_totals := q\<rparr>) = find_id i w"
  "find_id i (w\<lparr>usage_records := u\<rparr>) = find_id i w"
  by (simp_all add: find_id_def)

lemma ids_cong [simp]: "ids (w\<lparr>redis := x\<rparr>) = ids w" "ids (tick w) = ids w" "ids (rput k v w) = ids w"
  "ids (w\<lparr>quota_totals := q\<rparr>) = ids w" "ids (w\<lparr>usage_records := u\<rparr>) = ids w"
  by (simp_all add: ids_def)

lemma find_prefix_cong [simp]: "find_prefix i (w\<lparr>redis := x\<rparr>) = find_prefix i w"
  "find_prefix i (tick w) = find_prefix i w" "find_prefix i (rput k v w) = find_prefix i w"
  by (simp_all add: find_prefix_def)

lemma db_ok_init: "db_ok init_world"
  by (simp add: db_ok_def init_world_def)

lemma db_ok_tick [simp]: "db_ok (tick w) \<longleftrightarrow> db_ok w"
  by (simp add: db_ok_def)

lemma db_ok_redis [simp]: "db_ok (w\<lparr>redis := x\<rparr>) \<longleftrightarrow> db_ok w"
  by (simp add: db_ok_def)

lemma db_ok_same_tables: "same_tables w w' \<Longrightarrow> db_ok w' \<longleftrightarrow> db_ok w"
  by (simp add: db_ok_def same_tables_def ids_def)

subsection \<open>Statements keep it\<close>

lemma update_rows_db_ok:
  assumes "db_ok w" "\<And>k. ID (f k) = ID k" "\<And>k. Prefix (f k) = Prefix k"
  shows "db_ok (snd (update_rows i f w))"
proof -
  let ?g = "\<lambda>r. if ID (row_key r) = i then r\<lparr>row_key := f (row_key r)\<rparr> else r"
  have "map (\<lambda>r. ID (row_key r)) (map ?g (api_keys w)) = map (\<lambda>r. ID (row_key r)) (api_keys w)"
    "map (\<lambda>r. Prefix (row_key r)) (map ?g (api_keys w)) = map (\<lambda>r. Prefix (row_key r)) (api_keys w)"
    using assms(2,3) by auto
  moreover then have "(\<lambda>r. ID (row_key r)) ` set (map ?g (api_keys w)) = (\<lambda>r. ID (row_key r)) ` set (api_keys w)"
    by (metis list.set_map)
  ultimately show ?thesis
    using assms(1) unfolding db_ok_def update_rows_def ids_def by (simp del: map_map)
qed

lemma matching_rows: "filter (\<lambda>r. ID (row_key r) = i) (api_keys w) = [] \<longleftrightarrow> i \<notin> ids w"
  by (auto simp: filter_empty_conv ids_def)

lemma delete_rows_absent: "i \<notin> ids w \<Longrightarrow> delete_rows i w = (Inr 0, w)"
  by (simp add: delete_rows_def matching_rows)

lemma delete_rows_db_ok:
  assumes ok: "db_ok w"
  shows "db_ok (snd (delete_rows i w))"
proof (cases "i \<in> ids w")
  case True
  define w' where "w' = w\<lparr>api_keys := filter (\<lambda>r. ID (row_key r) \<noteq> i) (api_keys w),
    quota_totals := (quota_totals w)(i := None), usage_records := filter (\<lambda>u. ur_key_id u \<noteq> i) (usage_records w)\<rparr>"
  have d: "snd (delete_rows i w) = w'"
    using True by (simp add: delete_rows_def matching_rows w'_def)
  have i: "ids w' = ids w - {i}" by (auto simp: w'_def ids_def)
  from ok have q: "dom (quota_totals w) \<subseteq> ids w" and u: "\<forall>u \<in> set (usage_records w). ur_key_id u \<in> ids w"
    by (simp_all add: db_ok_def)
  from q have "dom (quota_totals w') \<subseteq> ids w'" unfolding i by (auto simp: w'_def split: if_splits)
  moreover from u have "\<forall>u \<in> set (usage_records w'). ur_key_id u \<in> ids w'" by (simp add: i) (simp add: w'_def)
  moreover from ok have "distinct (map (\<lambda>r. ID (row_key r)) (api_keys w'))"
    "distinct (map (\<lambda>r. Prefix (row_key r)) (api_keys w'))"
    by (simp_all add: db_ok_def w'_def distinct_map_filter)
  ultimately show ?thesis by (simp add: d db_ok_def)
qed (simp add: delete_rows_absent ok)

lemma insert_key_db_ok: "db_ok w \<Longrightarrow> db_ok (snd (insert_key e i pre hash p now w))"
  by (auto simp: db_ok_def insert_key_def ids_def find_id_def find_prefix_def find_eq_None
      split: option.splits)

lemma insert_quota_db_ok: "db_ok w \<Longrightarrow> db_ok (snd (insert_quota i now w))"
  by (auto simp: db_ok_def insert_quota_def find_id_None split: option.splits)

lemma upsert_quota_db_ok: "db_ok w \<Longrightarrow> db_ok (snd (upsert_quota e i t c now w))"
  by (auto simp: db_ok_def upsert_quota_def find_id_None split: option.splits)

lemma insert_usage_db_ok: "db_ok w \<Longrightarrow> db_ok (snd (insert_usage e r now w))"
  by (auto simp: db_ok_def insert_usage_def find_id_None Let_def split: option.splits)

lemma update_params_db_ok: "db_ok w \<Longrightarrow> db_ok (snd (update_params e i p w))"
  by (auto simp: update_params_def split: option.splits intro!: update_rows_db_ok)

lemmas stmt_db_ok =
  update_rows_db_ok delete_rows_db_ok insert_key_db_ok insert_quota_db_ok upsert_quota_db_ok
  insert_usage_db_ok update_params_db_ok

lemma db_call_db_ok:
  "db_ok w \<Longrightarrow> (\<And>now w. db_ok w \<Longrightarrow> db_ok (snd (stmt now w))) \<Longrightarrow> db_ok (snd (db_call e stmt w))"
  by (auto simp: db_call_def split: option.splits)

text \<open>The same for the pair a call returns, as the operations take it apart.\<close>

lemma db_callD:
  "db_call e stmt w = (r, w') \<Longrightarrow> db_ok w \<Longrightarrow> (\<And>now w. db_ok w \<Longrightarrow> db_ok (snd (stmt now w))) \<Longrightarrow> db_ok w'"
  using db_call_db_ok by (metis snd_conv)

lemma rdbD:
  "rdb_Get e k w = (rv, w') \<Longrightarrow> same_tables w w'"
  "rdb_Set e k v ttl w = (ru, w') \<Longrightarrow> same_tables w w'"
  "rdb_Del e k w = (ru, w') \<Longrightarrow> same_tables w w'"
  "rdb_IncrBy e k n w = (ri, w') \<Longrightarrow> same_tables w w'"
  "rdb_IncrExpire e k ttl w = (ri, w') \<Longrightarrow> same_tables w w'"
  "rdb_IncrByFloat e k x w = (rx, w') \<Longrightarrow> same_tables w w'"
  using rdb_tables by (metis snd_conv)+

lemma rdb_db_ok:
  "rdb_Get e k w = (rv, w') \<Longrightarrow> db_ok w \<Longrightarrow> db_ok w'"
  "rdb_Set e k v ttl w = (ru, w') \<Longrightarrow> db_ok w \<Longrightarrow> db_ok w'"
  "rdb_Del e k w = (ru, w') \<Longrightarrow> db_ok w \<Longrightarrow> db_ok w'"
  "rdb_IncrBy e k n w = (ri, w') \<Longrightarrow> db_ok w \<Longrightarrow> db_ok w'"
  "rdb_IncrExpire e k ttl w = (ri, w') \<Longrightarrow> db_ok w \<Longrightarrow> db_ok w'"
  "rdb_IncrByFloat e k x w = (rx, w') \<Longrightarrow> db_ok w \<Longrightarrow> db_ok w'"
  using rdbD db_ok_same_tables by metis+

subsection \<open>Operations keep it\<close>

lemma validateKey_tables: "same_tables w (snd (validateKey e k w))"
  by (auto simp: validateKey_def time_Now_def split: option.splits)

lemma validateKey_db_ok: "validateKey e k w = (r, w') \<Longrightarrow> db_ok w \<Longrightarrow> db_ok w'"
  using validateKey_tables db_ok_same_tables by (metis snd_conv)

lemma hashKey_db_ok: "hashKey e plain w = (r, w') \<Longrightarrow> db_ok w \<Longrightarrow> db_ok w'"
  by (auto simp: hashKey_def rand_Read_def split: option.splits)

lemma db_read:
  "db_call e (\<lambda>_ w. (f w, w)) w = (r, w') \<Longrightarrow> w' = tick w"
  by (auto simp: db_call_def split: option.splits)

lemma find_read:
  "(case x of None \<Rightarrow> (Inl err, w) | Some y \<Rightarrow> (Inr (g y), w)) = (case x of None \<Rightarrow> Inl err | Some y \<Rightarrow> Inr (g y), w)"
  by (simp split: option.split)

lemma invalidateCache_tables: "same_tables w (invalidateCache e i w)"
  unfolding invalidateCache_def find_read
  using rdb_tables(3) [of "tick w"] by (auto split: sum.splits prod.splits dest!: db_read)

lemma after_write_db_ok: "db_ok (snd rw) \<Longrightarrow> db_ok (snd (after_write e i rw))"
  by (auto simp: after_write_def db_ok_same_tables [OF invalidateCache_tables] split: sum.splits prod.splits)

lemma Issue_db_ok: "db_ok w \<Longrightarrow> db_ok (snd (Issue e s p w))"
  by (auto simp: Issue_def rand_Read_def time_Now_def Let_def
      split: sum.splits prod.splits option.splits
      dest!: hashKey_db_ok db_callD intro: stmt_db_ok)

lemma verify_db_db_ok: "db_ok w \<Longrightarrow> db_ok (snd (verify_db e s plain pre w))"
  unfolding verify_db_def find_read
  by (auto split: sum.splits prod.splits if_splits dest!: db_read rdb_db_ok(2) validateKey_db_ok)

lemma Verify_db_ok: "db_ok w \<Longrightarrow> db_ok (snd (Verify e s plain w))"
  by (auto simp: Verify_def Let_def split: sum.splits prod.splits rval.splits if_splits
      dest!: rdb_db_ok(1) validateKey_db_ok intro: verify_db_db_ok)

lemma quota_db_db_ok: "db_ok w \<Longrightarrow> db_ok (snd (quota_db e i w))"
  unfolding quota_db_def find_read
  by (auto split: sum.splits prod.splits dest!: db_read rdb_db_ok(2))

lemma quotaTotals_db_ok: "db_ok w \<Longrightarrow> db_ok (snd (quotaTotals e i w))"
  by (auto simp: quotaTotals_def split: sum.splits prod.splits dest!: rdb_db_ok(1) intro: quota_db_db_ok)

lemma AllowQuota_world: "snd (AllowQuota e i tq dq w) = (if tq = None \<and> dq = None then w else snd (quotaTotals e i w))"
  by (auto simp: AllowQuota_def split: sum.splits prod.splits if_splits)

lemma AllowRate_tables: "same_tables w (snd (AllowRate e i n w))"
  by (auto simp: AllowRate_def time_Now_def split: sum.splits prod.splits dest!: rdbD(5))

lemma AddUsage_db_ok: "db_ok w \<Longrightarrow> db_ok (snd (AddUsage e i t c w))"
  by (auto simp: AddUsage_def split: sum.splits prod.splits
      dest!: rdb_db_ok(4,6) db_callD intro: stmt_db_ok)

lemma RecordRequest_world: "snd (RecordRequest e r w) = snd (db_call e (insert_usage e r) w)"
  by (auto simp: RecordRequest_def split: sum.splits prod.splits)

lemma reads_db_ok:
  "db_ok w \<Longrightarrow> db_ok (snd (ListKeys e w))" "db_ok w \<Longrightarrow> db_ok (snd (Get e i w))"
  "db_ok w \<Longrightarrow> db_ok (snd (get_Stats e w))"
  unfolding ListKeys_def Get_def get_Stats_def find_read Let_def
  by (auto split: sum.splits prod.splits dest!: db_read intro!: db_call_db_ok)

lemma apply_op_db_ok: "db_ok w \<Longrightarrow> db_ok (apply_op e s c w)"
proof (cases c)
  case (OpAllowRate i n)
  moreover assume "db_ok w"
  ultimately show ?thesis using db_ok_same_tables [OF AllowRate_tables] by simp
qed (auto simp: Issue_db_ok Verify_db_ok TouchLastUsed_def SetActive_def Delete_def Update_def AllowQuota_world
     quotaTotals_db_ok AddUsage_db_ok RecordRequest_world reads_db_ok
     intro!: db_call_db_ok after_write_db_ok stmt_db_ok)

lemma reach_rtranclp: "reach e s w \<longleftrightarrow> (kstep e s)\<^sup>*\<^sup>* init_world w"
proof
  assume "reach e s w"
  then show "(kstep e s)\<^sup>*\<^sup>* init_world w" by (induction rule: reach.induct) (auto intro: rtranclp.rtrancl_into_rtrancl)
next
  assume "(kstep e s)\<^sup>*\<^sup>* init_world w"
  then show "reach e s w" by (induction rule: rtranclp_induct) (auto intro: reach.intros)
qed

interpretation keys_db: invariant_system "\<lambda>w. w = init_world" "kstep e s" db_ok for e s
  by unfold_locales (auto simp: db_ok_init elim!: kstepE intro: apply_op_db_ok)

lemma reach_run_ops: "reach e s w \<Longrightarrow> reach e s (run_ops e s cs w)"
  by (induction cs arbitrary: w) (auto intro: reach.step kstep.op)



end
