(* ===== verification/Keys_Cache.thy ===== *)
theory Keys_Cache
  imports Keys_State
begin

text \<open>
  Verification through the cache refines verification against the database.  The specification
  \<open>spec_verify\<close> reads only the table; \<open>cache_inv\<close> says that every cached entry agrees with the row of its key,
  \<open>last_used_at\<close> apart.  Revocation takes effect at once; deletion does not, which is shown too.
\<close>

section \<open>Specification\<close>

definition validate_at :: "time \<Rightarrow> Key \<Rightarrow> error option" where
  "validate_at now k =
     (if \<not> Active k then Some ErrInactive
      else (case ExpiresAt k of None \<Rightarrow> None | Some t \<Rightarrow> if t < now then Some ErrExpired else None))"

text \<open>The columns a cached key must agree on: all but \<open>last_used_at\<close>, which no cached decision reads.\<close>

definition untouched :: "Key \<Rightarrow> Key" where
  "untouched k = k\<lparr>LastUsedAt := None\<rparr>"

definition spec_verify :: "env \<Rightarrow> Service \<Rightarrow> string \<Rightarrow> world \<Rightarrow> time \<Rightarrow> Key option \<times> error option" where
  "spec_verify e s plain w now =
     (if \<not> HasPrefix plain (prefix_of_service s) then (None, Some ErrInvalid) else
      (case find_prefix (prefixOf s plain) w of
         None \<Rightarrow> (None, Some ErrNotFound)
       | Some r \<Rightarrow>
          if verifyHash e plain (row_hash r)
          then (Some (untouched (scan_key e r)), validate_at now (scan_key e r))
          else (None, Some ErrInvalid)))"

text \<open>The cache would answer for \<open>plain\<close> with a key that is no longer in the table.\<close>

definition deleted_hit :: "env \<Rightarrow> Service \<Rightarrow> string \<Rightarrow> world \<Rightarrow> bool" where
  "deleted_hit e s plain w \<longleftrightarrow>
     (case rget (clock e (ev w)) w (verify_key (prefixOf s plain)) of
        Some (REntry entry, x) \<Rightarrow>
          ce_Plain entry = plain \<and> (case ce_Key entry of None \<Rightarrow> False | Some k \<Rightarrow> ID k \<notin> ids w)
      | _ \<Rightarrow> False)"

section \<open>Invariant\<close>

text \<open>The ids drawn so far; an environment whose \<open>uuid.New\<close> never repeats itself is \<open>fresh_uuids\<close>.\<close>

definition drawn :: "env \<Rightarrow> world \<Rightarrow> uuid set" where
  "drawn e w = uuid_New e ` {n. n < ev w}"

definition fresh_uuids :: "env \<Rightarrow> bool" where
  "fresh_uuids e \<longleftrightarrow> inj (uuid_New e)"

definition entry_ok :: "env \<Rightarrow> Service \<Rightarrow> world \<Rightarrow> string \<Rightarrow> cacheEntry \<Rightarrow> bool" where
  "entry_ok e s w p entry \<longleftrightarrow>
     prefixOf s (ce_Plain entry) = p
   \<and> (\<exists>k. ce_Key entry = Some k \<and> Prefix k = p \<and> ID k \<in> drawn e w
        \<and> (\<forall>r. find_id (ID k) w = Some r \<longrightarrow>
              untouched k = untouched (scan_key e r) \<and> verifyHash e (ce_Plain entry) (row_hash r)))"

definition cache_ok :: "env \<Rightarrow> Service \<Rightarrow> world \<Rightarrow> bool" where
  "cache_ok e s w \<longleftrightarrow>
     (\<forall>p entry x. redis w (verify_key p) = Some (REntry entry, x) \<longrightarrow> entry_ok e s w p entry)"

definition cache_inv :: "env \<Rightarrow> Service \<Rightarrow> world \<Rightarrow> bool" where
  "cache_inv e s w \<longleftrightarrow> db_ok w \<and> ids w \<subseteq> drawn e w \<and> cache_ok e s w"

section \<open>Calls without failures\<close>

lemma db_call_nf [nofault]: "no_faults e \<Longrightarrow> db_call e stmt w = stmt (clock e (ev w)) (tick w)"
  by (simp add: db_call_def nofault)

lemma rdb_call_nf [nofault]: "no_faults e \<Longrightarrow> rdb_call e cmd w = cmd (clock e (ev w)) (tick w)"
  by (simp add: rdb_call_def nofault)

lemma rand_Read_nf [nofault]: "no_faults e \<Longrightarrow> rand_Read e n w = (Inr (rand_bytes e (ev w) n), tick w)"
  by (simp add: rand_Read_def nofault)

lemma validateKey_Some:
  "validateKey e (Some k) w = (err, w') \<Longrightarrow> err = validate_at (clock e (ev w)) k \<and> (w' = w \<or> w' = tick w)"
  by (auto simp: validateKey_def validate_at_def time_Now_def split: option.splits if_splits)

lemma verify_key_inj [simp]: "verify_key p = verify_key q \<longleftrightarrow> p = q"
  by (simp add: verify_key_def)

lemma redis_keys_distinct [simp]:
  "verify_key p \<noteq> tok_key i" "verify_key p \<noteq> cost_key i" "verify_key p \<noteq> rate_key i b"
  "tok_key i \<noteq> cost_key j" "tok_key i \<noteq> rate_key j b" "cost_key i \<noteq> rate_key j b"
  "cost_key i \<noteq> tok_key j"
  by (simp_all add: verify_key_def tok_key_def cost_key_def rate_key_def)

lemma untouched_sel [simp]:
  "ID (untouched k) = ID k" "Prefix (untouched k) = Prefix k" "Active (untouched k) = Active k"
  "ExpiresAt (untouched k) = ExpiresAt k" "RPMLimit (untouched k) = RPMLimit k"
  "TokenQuota (untouched k) = TokenQuota k" "DollarQuota (untouched k) = DollarQuota k"
  by (simp_all add: untouched_def)

lemma scan_key_sel [simp]:
  "ID (scan_key e r) = ID (row_key r)" "Prefix (scan_key e r) = Prefix (row_key r)"
  "Active (scan_key e r) = Active (row_key r)" "ExpiresAt (scan_key e r) = ExpiresAt (row_key r)"
  by (simp_all add: scan_key_def)

lemma untouched_eqD:
  "untouched k = untouched k' \<Longrightarrow> ID k = ID k' \<and> Prefix k = Prefix k' \<and> Active k = Active k' \<and> ExpiresAt k = ExpiresAt k'"
  by (metis untouched_sel)

lemma validate_at_untouched: "untouched k = untouched k' \<Longrightarrow> validate_at now k = validate_at now k'"
  by (auto simp: validate_at_def dest: untouched_eqD)

section \<open>What leaves the cache alone\<close>

text \<open>\<open>keeps w w'\<close>: the key table and the verify entries are unchanged, and events have only been added.\<close>

definition keeps :: "world \<Rightarrow> world \<Rightarrow> bool" where
  "keeps w w' \<longleftrightarrow> api_keys w' = api_keys w \<and> ev w \<le> ev w'
     \<and> (\<forall>p. redis w' (verify_key p) = redis w (verify_key p))"

lemma keeps_refl [simp]: "keeps w w"
  by (simp add: keeps_def)

lemma keeps_trans: "keeps w w' \<Longrightarrow> keeps w' w'' \<Longrightarrow> keeps w w''"
  by (simp add: keeps_def)

lemma keeps_tick [simp]: "keeps w (tick w)"
  by (simp add: keeps_def)

lemma keeps_tickD: "keeps (tick w) w' \<Longrightarrow> keeps w w'"
  by (simp add: keeps_def)

lemma keeps_rput: "\<forall>p. k \<noteq> verify_key p \<Longrightarrow> keeps w (rput k x w)"
  by (auto simp: keeps_def)

lemma keeps_call:
  assumes "\<And>now w. keeps w (snd (f now w))"
  shows "keeps w (snd (db_call e f w))" "keeps w (snd (rdb_call e f w))"
  using assms [THEN keeps_tickD] by (auto simp: db_call_def rdb_call_def split: option.splits)

lemma incr_by_keeps: "\<forall>p. k \<noteq> verify_key p \<Longrightarrow> keeps w (snd (incr_by now k n w))"
  by (auto simp: incr_by_def intro: keeps_rput split: option.splits rval.splits prod.splits)

lemma rdb_keeps:
  "keeps w (snd (rdb_Get e k w))"
  "\<forall>p. k \<noteq> verify_key p \<Longrightarrow> keeps w (snd (rdb_Set e k v ttl w))"
  "\<forall>p. k \<noteq> verify_key p \<Longrightarrow> keeps w (snd (rdb_IncrBy e k n w))"
  "\<forall>p. k \<noteq> verify_key p \<Longrightarrow> keeps w (snd (rdb_IncrByFloat e k c w))"
  by (auto simp: rdb_Get_def rdb_Set_def rdb_IncrBy_def rdb_IncrByFloat_def Let_def
      intro!: keeps_call keeps_rput incr_by_keeps split: option.splits rval.splits prod.splits)

lemma rdb_IncrExpire_keeps:
  assumes "\<forall>p. k \<noteq> verify_key p"
  shows "keeps w (snd (rdb_IncrExpire e k ttl w))"
  unfolding rdb_IncrExpire_def
proof (rule keeps_call(2))
  fix now w
  show "keeps w (snd (case incr_by now k 1 w of (Inl err, w') \<Rightarrow> (Inl err, w')
      | (Inr v, w') \<Rightarrow> (Inr v, rput k (RInt v, Some (now + ttl)) w')))"
    using incr_by_keeps [OF assms, of w now 1] keeps_rput [OF assms]
    by (auto split: sum.splits prod.splits intro: keeps_trans)
qed

lemma stmt_keeps:
  "keeps w (snd (insert_quota i now w))" "keeps w (snd (upsert_quota e i t c now w))"
  "keeps w (snd (insert_usage e r now w))"
  by (auto simp: insert_quota_def upsert_quota_def insert_usage_def keeps_def Let_def split: option.splits)

lemma AllowRate_keeps: "keeps w (snd (AllowRate e i n w))"
proof -
  have "keeps (tick w) (snd (rdb_IncrExpire e (rate_key i (rate_bucket (clock e (ev w)))) (70 * Second) (tick w)))"
    by (rule rdb_IncrExpire_keeps) (simp add: eq_commute)
  then show ?thesis
    by (auto simp: AllowRate_def time_Now_def split: sum.splits prod.splits dest: keeps_tickD)
qed

lemma keepsD:
  "rdb_Get e k w = (rv, w') \<Longrightarrow> keeps w w'"
  "rdb_Set e (tok_key i) v ttl w = (ru, w') \<Longrightarrow> keeps w w'"
  "rdb_Set e (cost_key i) v ttl w = (ru, w') \<Longrightarrow> keeps w w'"
  "rdb_IncrBy e (tok_key i) n w = (ri, w') \<Longrightarrow> keeps w w'"
  "rdb_IncrByFloat e (cost_key i) c w = (rr, w') \<Longrightarrow> keeps w w'"
  using rdb_keeps by (metis snd_conv redis_keys_distinct(1,2))+

lemma quota_db_keeps: "keeps w (snd (quota_db e i w))"
  unfolding quota_db_def find_read
  by (auto split: sum.splits prod.splits dest!: db_read keepsD(2,3) intro: keeps_trans keeps_tickD)

lemma quotaTotals_keeps: "keeps w (snd (quotaTotals e i w))"
  using quota_db_keeps
  by (auto simp: quotaTotals_def split: sum.splits prod.splits dest!: keepsD(1) intro: keeps_trans)

lemma AddUsage_keeps: "keeps w (snd (AddUsage e i t c w))"
proof -
  have "keeps w w'" if "db_call e (upsert_quota e i t c) w = (r, w')" for r :: "unit result" and w'
    using keeps_call(1) [of "upsert_quota e i t c" w e] stmt_keeps(2) that by simp
  then show ?thesis
    by (auto simp: AddUsage_def split: sum.splits prod.splits dest!: keepsD(4,5) intro: keeps_trans)
qed

lemma RecordRequest_keeps: "keeps w (snd (RecordRequest e r w))"
  unfolding RecordRequest_world by (rule keeps_call) (rule stmt_keeps)

lemma reads_keep:
  "keeps w (snd (ListKeys e w))" "keeps w (snd (Get e i w))" "keeps w (snd (get_Stats e w))"
  unfolding ListKeys_def Get_def get_Stats_def find_read Let_def
  by (auto split: sum.splits prod.splits dest!: db_read intro!: keeps_call(1) intro: keeps_tickD)

lemma drawn_mono: "ev w \<le> ev w' \<Longrightarrow> drawn e w \<subseteq> drawn e w'"
  by (auto simp: drawn_def)

lemma cache_ok_keeps:
  assumes "keeps w w'" "cache_ok e s w"
  shows "cache_ok e s w'"
proof -
  have "find_id i w' = find_id i w" for i using assms(1) by (simp add: keeps_def find_id_def)
  moreover have "drawn e w \<subseteq> drawn e w'" using assms(1) by (simp add: keeps_def drawn_mono)
  ultimately show ?thesis using assms unfolding cache_ok_def keeps_def entry_ok_def
    by (metis subsetD)
qed

lemma cache_inv_keeps:
  "keeps w w' \<Longrightarrow> db_ok w' \<Longrightarrow> cache_inv e s w \<Longrightarrow> cache_inv e s w'"
  using cache_ok_keeps drawn_mono [of w w' e] by (auto simp: cache_inv_def keeps_def ids_def)

lemma cache_inv_tick: "cache_inv e s w \<Longrightarrow> cache_inv e s (tick w)"
  by (rule cache_inv_keeps [OF keeps_tick]) (simp_all add: cache_inv_def)

section \<open>Writes to the key table\<close>

lemma find_map_upd:
  "(\<And>r. h (g r) = h r) \<Longrightarrow> find (\<lambda>r. h r = j) (map g rs) = map_option g (find (\<lambda>r. h r = j) rs)"
  by (induction rs) auto

lemma find_id_update:
  assumes "\<And>k. ID (f k) = ID k"
  shows "find_id j (snd (update_rows i f w)) =
     map_option (\<lambda>r. if j = i then r\<lparr>row_key := f (row_key r)\<rparr> else r) (find_id j w)"
proof -
  let ?g = "\<lambda>r. if ID (row_key r) = i then r\<lparr>row_key := f (row_key r)\<rparr> else r"
  have "find_id j (snd (update_rows i f w)) = map_option ?g (find_id j w)"
    using assms by (simp add: find_id_def update_rows_def find_map_upd [where h = "\<lambda>r. ID (row_key r)"])
  also have "\<dots> = map_option (\<lambda>r. if j = i then r\<lparr>row_key := f (row_key r)\<rparr> else r) (find_id j w)"
    by (cases "find_id j w") (auto dest: find_idD)
  finally show ?thesis .
qed

lemma update_rows_fields [simp]:
  "ev (snd (update_rows i f w)) = ev w" "redis (snd (update_rows i f w)) = redis w"
  by (simp_all add: update_rows_def)

lemma ids_update:
  assumes "\<And>k. ID (f k) = ID k"
  shows "ids (snd (update_rows i f w)) = ids w"
proof -
  have "map (\<lambda>r. ID (row_key r)) (api_keys (snd (update_rows i f w))) = map (\<lambda>r. ID (row_key r)) (api_keys w)"
    using assms by (simp add: update_rows_def)
  then show ?thesis unfolding ids_def by (metis list.set_map)
qed

lemma fst_update_rows: "fst (update_rows i f w) = Inr (length (filter (\<lambda>r. ID (row_key r) = i) (api_keys w)))"
  by (simp add: update_rows_def)

lemma invalidateCache_nf [nofault]:
  "no_faults e \<Longrightarrow> invalidateCache e i w =
     (case find_id i w of
        None \<Rightarrow> tick w
      | Some r \<Rightarrow> (tick (tick w))\<lparr>redis := (redis w)(verify_key (Prefix (row_key r)) := None)\<rparr>)"
  by (auto simp: invalidateCache_def nofault rdb_Del_def split: option.splits)

text \<open>A successful write that keeps id and prefix, followed by the invalidation: exactly the entry of the
  row's prefix goes.\<close>

lemma write_nf:
  assumes "no_faults e" "\<And>k. ID (f k) = ID k" "\<And>k. Prefix (f k) = Prefix k"
    and "find_id i w = Some r"
  shows "after_write e i (update_rows i f w) =
     (None, (tick (tick (snd (update_rows i f w))))\<lparr>redis := (redis w)(verify_key (Prefix (row_key r)) := None)\<rparr>)"
proof -
  have "i \<in> ids w" using assms(4) find_id_None [of i w] by auto
  then have n: "length (filter (\<lambda>r. ID (row_key r) = i) (api_keys w)) \<noteq> 0" by (simp add: matching_rows)
  obtain w1 where w1: "update_rows i f w = (Inr (length (filter (\<lambda>r. ID (row_key r) = i) (api_keys w))), w1)"
    by (simp add: update_rows_def)
  have "find_id i w1 = Some (r\<lparr>row_key := f (row_key r)\<rparr>)"
    using find_id_update [OF assms(2), of i i w] assms(4) by (simp add: w1)
  moreover have "redis w1 = redis w" using update_rows_fields(2) [of i f w] by (simp add: w1)
  ultimately show ?thesis
    using n assms(3) by (simp add: w1 after_write_def invalidateCache_nf [OF assms(1)])
qed

lemma cache_ok_write:
  assumes "db_ok w" "cache_ok e s w" "\<And>k. ID (f k) = ID k" "\<And>k. Prefix (f k) = Prefix k"
    and "find_id i w = Some r"
    and w': "api_keys w' = api_keys (snd (update_rows i f w))" "ev w \<le> ev w'"
      "redis w' = (redis w)(verify_key (Prefix (row_key r)) := None)"
  shows "cache_ok e s w'"
  unfolding cache_ok_def
proof (intro allI impI)
  fix p entry x
  assume "redis w' (verify_key p) = Some (REntry entry, x)"
  then have p: "p \<noteq> Prefix (row_key r)" and "redis w (verify_key p) = Some (REntry entry, x)"
    by (auto simp: w' split: if_splits)
  with assms(2) have "entry_ok e s w p entry" by (auto simp: cache_ok_def)
  then obtain k where k: "prefixOf s (ce_Plain entry) = p" "ce_Key entry = Some k" "Prefix k = p" "ID k \<in> drawn e w"
    and kr: "\<And>r. find_id (ID k) w = Some r \<Longrightarrow>
      untouched k = untouched (scan_key e r) \<and> verifyHash e (ce_Plain entry) (row_hash r)"
    by (auto simp: entry_ok_def)
  have "ID k \<noteq> i"
  proof
    assume "ID k = i"
    with assms(5) kr have "untouched k = untouched (scan_key e r)" by blast
    then have "Prefix k = Prefix (row_key r)" by (auto dest: untouched_eqD)
    with p k show False by simp
  qed
  moreover have "find_id j w' = find_id j (snd (update_rows i f w))" for j
    by (simp add: find_id_def w')
  ultimately have "find_id (ID k) w' = find_id (ID k) w"
    using find_id_update [OF assms(3)] by (simp add: option.map_ident)
  then show "entry_ok e s w' p entry"
    using k kr drawn_mono [OF w'(2), of e] by (auto simp: entry_ok_def)
qed

lemma cache_inv_write:
  assumes "no_faults e" "cache_inv e s w" "\<And>k. ID (f k) = ID k" "\<And>k. Prefix (f k) = Prefix k"
  shows "cache_inv e s (snd (after_write e i (update_rows i f (tick w))))" (is "cache_inv e s ?w'")
proof (cases "find_id i w")
  case None
  then have "i \<notin> ids w" by (simp add: find_id_None)
  then have "filter (\<lambda>r. ID (row_key r) = i) (api_keys w) = []" by (simp add: matching_rows)
  then have "?w' = tick w"
    by (auto simp: after_write_def update_rows_def filter_empty_conv map_if_id split: prod.split)
  with assms(2) show ?thesis by (simp add: cache_inv_tick)
next
  case (Some r)
  define w' where "w' = ?w'"
  have w': "w' = (tick (tick (snd (update_rows i f (tick w)))))
      \<lparr>redis := (redis w)(verify_key (Prefix (row_key r)) := None)\<rparr>"
    using write_nf [OF assms(1) assms(3,4), of i "tick w" r] Some by (simp add: w'_def)
  from assms(2) have inv: "db_ok w" "ids w \<subseteq> drawn e w" "cache_ok e s w" by (simp_all add: cache_inv_def)
  have "api_keys w' = api_keys (snd (update_rows i f w))" "ev w \<le> ev w'"
    "redis w' = (redis w)(verify_key (Prefix (row_key r)) := None)"
    by (simp_all add: w') (simp add: update_rows_def)
  then have "cache_ok e s w'" by (rule cache_ok_write [OF inv(1,3) assms(3,4) Some])
  moreover have "db_ok w'" using update_rows_db_ok [OF _ assms(3,4), of "tick w" i] inv(1) by (simp add: w')
  moreover have "ids w' = ids w" by (simp add: w' ids_update assms(3))
  moreover have "drawn e w \<subseteq> drawn e w'" by (intro drawn_mono) (simp add: w')
  ultimately have "cache_inv e s w'" using inv(2) by (auto simp: cache_inv_def)
  then show ?thesis by (simp add: w'_def)
qed

lemma Touch_cache_inv:
  assumes "no_faults e" "cache_inv e s w"
  shows "cache_inv e s (TouchLastUsed e i w)"
proof -
  let ?f = "\<lambda>k. k\<lparr>LastUsedAt := Some (clock e (ev w))\<rparr>"
  let ?w' = "snd (update_rows i ?f (tick w))"
  have w': "TouchLastUsed e i w = ?w'" by (simp add: TouchLastUsed_def nofault assms(1))
  have f: "find_id j ?w' = map_option (\<lambda>r. if j = i then r\<lparr>row_key := ?f (row_key r)\<rparr> else r) (find_id j w)" for j
    using find_id_update [of ?f j i "tick w"] by simp
  have "entry_ok e s ?w' p entry" if "entry_ok e s w p entry" for p entry
    using that drawn_mono [of w ?w' e] f
    by (fastforce simp: entry_ok_def untouched_def scan_key_def split: if_splits)
  then have "cache_ok e s ?w'" using assms(2) by (simp add: cache_inv_def cache_ok_def)
  moreover have "db_ok ?w'" using assms(2) by (intro update_rows_db_ok) (auto simp: cache_inv_def)
  moreover have "ids ?w' = ids w" by (simp add: ids_update)
  moreover have "drawn e w \<subseteq> drawn e ?w'" by (intro drawn_mono) simp
  ultimately show ?thesis using assms(2) by (auto simp: cache_inv_def w')
qed

lemma find_id_delete: "j \<noteq> i \<Longrightarrow> find_id j (snd (delete_rows i w)) = find_id j w"
proof -
  have "find (\<lambda>r. h r = j) (filter (\<lambda>r. h r \<noteq> i) rs) = find (\<lambda>r. h r = j) rs" if "j \<noteq> i"
    for h :: "api_key_row \<Rightarrow> uuid" and rs
    using that by (induction rs) auto
  then show "j \<noteq> i \<Longrightarrow> ?thesis" by (auto simp: find_id_def delete_rows_def Let_def)
qed

lemma find_id_deleted: "find_id i (snd (delete_rows i w)) = None"
  by (auto simp: find_id_None ids_def delete_rows_def Let_def filter_empty_conv)

lemma delete_rows_fields [simp]:
  "ev (snd (delete_rows i w)) = ev w" "redis (snd (delete_rows i w)) = redis w"
  by (simp_all add: delete_rows_def Let_def)

text \<open>Without failures \<open>Delete\<close> removes the rows and leaves Redis as it was: the row is gone when
  \<open>invalidateCache\<close> asks for its prefix.\<close>

lemma Delete_nf:
  assumes "no_faults e"
  shows "Delete e i w =
    (if i \<in> ids w then (None, tick (snd (delete_rows i (tick w)))) else (Some ErrNotFound, tick w))"
proof (cases "i \<in> ids w")
  case True
  then have "fst (delete_rows i (tick w)) = Inr n \<Longrightarrow> n \<noteq> 0" for n
    using matching_rows [of i w] by (auto simp: delete_rows_def Let_def)
  moreover obtain n where "fst (delete_rows i (tick w)) = Inr n" by (simp add: delete_rows_def Let_def)
  ultimately obtain w1 n where "delete_rows i (tick w) = (Inr n, w1)" "n \<noteq> 0" by (metis prod.collapse)
  with True show ?thesis
    using assms find_id_deleted [of i "tick w"] by (simp add: Delete_def nofault after_write_def)
next
  case False
  with assms show ?thesis by (simp add: Delete_def nofault delete_rows_absent after_write_def)
qed

lemma Delete_cache_inv:
  assumes "no_faults e" "cache_inv e s w"
  shows "cache_inv e s (snd (Delete e i w))"
proof (cases "i \<in> ids w")
  case True
  let ?w' = "tick (snd (delete_rows i (tick w)))"
  have "entry_ok e s ?w' p entry" if "entry_ok e s w p entry" for p entry
  proof -
    from that obtain k where k: "prefixOf s (ce_Plain entry) = p" "ce_Key entry = Some k" "Prefix k = p" "ID k \<in> drawn e w"
      and kr: "\<And>r. find_id (ID k) w = Some r \<Longrightarrow>
        untouched k = untouched (scan_key e r) \<and> verifyHash e (ce_Plain entry) (row_hash r)"
      by (auto simp: entry_ok_def)
    have "find_id (ID k) ?w' = Some r \<Longrightarrow> find_id (ID k) w = Some r" for r
      using find_id_delete [of "ID k" i "tick w"] find_id_deleted [of i "tick w"] by (cases "ID k = i") auto
    with k kr drawn_mono [of w ?w' e] show ?thesis by (auto simp: entry_ok_def)
  qed
  then have "cache_ok e s ?w'" using assms(2) by (simp add: cache_inv_def cache_ok_def)
  moreover have "db_ok ?w'" using assms(2) by (simp add: cache_inv_def delete_rows_db_ok)
  moreover have "ids ?w' \<subseteq> ids w" by (auto simp: ids_def delete_rows_def Let_def)
  moreover have "drawn e w \<subseteq> drawn e ?w'" by (intro drawn_mono) simp
  ultimately have "cache_inv e s ?w'" using assms(2) by (auto simp: cache_inv_def)
  with True show ?thesis by (simp add: Delete_nf assms(1))
qed (use assms in \<open>simp add: Delete_nf cache_inv_tick\<close>)

end
