(* ===== verification/Keys_Verify.thy ===== *)
theory Keys_Verify
  imports Keys_Cache
begin

text \<open>
  The theorems about issuing and verifying keys: the hash round trip, a fresh key verifies, the cached
  verification refines the specification in every reachable state, a deactivation takes effect at once, and
  a deletion does not until the cached entry expires.
\<close>

section \<open>Verify without failures\<close>

lemma verify_db_nf [nofault]:
  "no_faults e \<Longrightarrow> verify_db e s plain pre w =
     (case find_prefix pre w of
        None \<Rightarrow> ((None, Some ErrNotFound), tick w)
      | Some r \<Rightarrow>
         if verifyHash e plain (row_hash r) then
           (case validateKey e (Some (scan_key e r))
                   (rput (verify_key pre)
                      (REntry \<lparr>ce_Key = Some (scan_key e r), ce_Plain = plain\<rparr>,
                       set_expiry (clock e (Suc (ev w))) (cacheTTL s) (rget (clock e (Suc (ev w))) w (verify_key pre)))
                      (tick (tick w))) of
              (err, w') \<Rightarrow> ((Some (scan_key e r), err), w'))
         else ((None, Some ErrInvalid), tick w))"
  by (simp add: verify_db_def nofault rdb_Set_def split: option.splits)

lemma Verify_nf [nofault]:
  "no_faults e \<Longrightarrow> Verify e s plain w =
     (if \<not> HasPrefix plain (prefix_of_service s) then ((None, Some ErrInvalid), w) else
      (case rget (clock e (ev w)) w (verify_key (prefixOf s plain)) of
         Some (REntry entry, x) \<Rightarrow>
           if ce_Plain entry = plain then
             (case validateKey e (ce_Key entry) (tick w) of (err, w') \<Rightarrow> ((ce_Key entry, err), w'))
           else verify_db e s plain (prefixOf s plain) (tick w)
       | _ \<Rightarrow> verify_db e s plain (prefixOf s plain) (tick w)))"
  by (auto simp: Verify_def Let_def nofault rdb_Get_def split: option.splits rval.splits prod.splits)

lemma validateKey_world: "snd (validateKey e k w) = w \<or> snd (validateKey e k w) = tick w"
  by (auto simp: validateKey_def time_Now_def split: option.splits)

lemma validateKey_fst:
  "fst (case validateKey e (Some k) w of (err, w') \<Rightarrow> ((K, err), w')) = (K, validate_at (clock e (ev w)) k)"
  by (cases "validateKey e (Some k) w") (auto dest: validateKey_Some)

lemma validateKey_inv: "cache_inv e s w \<Longrightarrow> validateKey e k w = (err, w') \<Longrightarrow> cache_inv e s w'"
  using validateKey_world [of e k w] cache_inv_tick by auto

lemma cache_inv_rput:
  assumes "cache_inv e s w" "entry_ok e s w p entry"
  shows "cache_inv e s (rput (verify_key p) (REntry entry, x) w)"
proof -
  have eq: "entry_ok e s (rput k v w) = entry_ok e s w" for k v
    by (simp add: entry_ok_def fun_eq_iff drawn_def)
  have "db_ok (rput (verify_key p) (REntry entry, x) w)"
    using assms(1) by (simp add: cache_inv_def db_ok_def)
  with assms show ?thesis by (auto simp: cache_inv_def cache_ok_def eq drawn_def)
qed

lemma entry_ok_row:
  assumes "cache_inv e s w" "find_prefix (prefixOf s plain) w = Some r" "verifyHash e plain (row_hash r)"
  shows "entry_ok e s w (prefixOf s plain) \<lparr>ce_Key = Some (scan_key e r), ce_Plain = plain\<rparr>"
proof -
  from assms(2) have r: "r \<in> set (api_keys w)" "Prefix (row_key r) = prefixOf s plain"
    by (auto dest: find_prefixD)
  with assms(1) have "find_id (ID (row_key r)) w = Some r" "ID (row_key r) \<in> drawn e w"
    by (auto simp: cache_inv_def find_id_mem ids_def)
  with r assms(3) show ?thesis by (auto simp: entry_ok_def)
qed

lemma verify_db_inv:
  assumes "no_faults e" "cache_inv e s w"
  shows "cache_inv e s (snd (verify_db e s plain (prefixOf s plain) w))"
proof -
  have w2: "cache_inv e s (tick (tick w))" using assms(2) by (simp add: cache_inv_tick)
  have "cache_inv e s (rput (verify_key (prefixOf s plain))
      (REntry \<lparr>ce_Key = Some (scan_key e r), ce_Plain = plain\<rparr>, x) (tick (tick w)))"
    if "find_prefix (prefixOf s plain) w = Some r" "verifyHash e plain (row_hash r)" for r x
    using that by (intro cache_inv_rput [OF w2] entry_ok_row [OF w2]) simp_all
  then show ?thesis using assms
    by (auto simp: verify_db_nf cache_inv_tick split: option.splits prod.splits dest: validateKey_inv)
qed

lemma Verify_inv:
  assumes "no_faults e" "cache_inv e s w"
  shows "cache_inv e s (snd (Verify e s plain w))"
  using assms verify_db_inv [OF assms(1) cache_inv_tick [OF assms(2)]] cache_inv_tick [OF assms(2)]
  by (auto simp: Verify_nf split: option.splits rval.splits prod.splits dest: validateKey_inv)

section \<open>Issue without failures\<close>

definition issued_plain :: "env \<Rightarrow> Service \<Rightarrow> world \<Rightarrow> string" where
  "issued_plain e s w = prefix_of_service s @ b64_encode (rand_bytes e (ev w) 24)"

definition issued_hash :: "env \<Rightarrow> Service \<Rightarrow> world \<Rightarrow> string" where
  "issued_hash e s w =
     (let plain = issued_plain e s w; salt = rand_bytes e (Suc (ev w)) 16 in
      encode_hash salt (argon2_IDKey e plain salt argonTime argonMemory argonThreads argonKeyLen))"

lemma hashKey_nf [nofault]:
  "no_faults e \<Longrightarrow> hashKey e plain w =
     (Inr (encode_hash (rand_bytes e (ev w) 16)
             (argon2_IDKey e plain (rand_bytes e (ev w) 16) argonTime argonMemory argonThreads argonKeyLen)), tick w)"
  by (simp add: hashKey_def nofault)

lemma Issue_insert:
  assumes "no_faults e" "TrimSpace (p_Owner p) \<noteq> []"
    and "insert_key e (uuid_New e (ev w + 2)) (prefixOf s (issued_plain e s w)) (issued_hash e s w) p
           (clock e (ev w + 3)) ((tick ^^ 4) w) = (r, w1)"
  shows "Issue e s p w =
     (case r of
        Inl err \<Rightarrow> (Inl (ErrWrap ''insert key'' err), w1)
      | Inr _ \<Rightarrow>
         let w2 = snd (insert_quota (uuid_New e (ev w + 2)) (clock e (ev w1)) (tick w1)) in
         (Inr \<lparr>ik_Key = \<lparr>ID = uuid_New e (ev w + 2), Prefix = prefixOf s (issued_plain e s w),
                         Owner = p_Owner p, Note = p_Note p, ExpiresAt = p_ExpiresAt p,
                         RPMLimit = p_RPMLimit p, TokenQuota = p_TokenQuota p, DollarQuota = p_DollarQuota p,
                         Active = True, CreatedAt = clock e (ev w2), LastUsedAt = None\<rparr>,
              ik_Plain = issued_plain e s w\<rparr>, tick w2))"
proof -
  have "(tick ^^ 4) w = tick (tick (tick (tick w)))" by (simp add: numeral_eq_Suc)
  with assms show ?thesis
    by (simp add: Issue_def nofault Let_def time_Now_def issued_plain_def issued_hash_def numeral_eq_Suc
        split: prod.splits sum.splits)
qed

text \<open>The row \<open>Issue\<close> inserts: the parameters as the columns keep them.\<close>

definition issued_row :: "env \<Rightarrow> uuid \<Rightarrow> string \<Rightarrow> string \<Rightarrow> IssueParams \<Rightarrow> time \<Rightarrow> rat option \<Rightarrow> api_key_row" where
  "issued_row e i pre hash p now dq =
     \<lparr>row_key = \<lparr>ID = i, Prefix = pre, Owner = p_Owner p, Note = p_Note p,
                 ExpiresAt = map_option (pg_time e) (p_ExpiresAt p),
                 RPMLimit = p_RPMLimit p, TokenQuota = p_TokenQuota p, DollarQuota = dq,
                 Active = True, CreatedAt = now, LastUsedAt = None\<rparr>,
      row_hash = hash\<rparr>"

lemma issued_row_sel [simp]:
  "ID (row_key (issued_row e i pre hash p now dq)) = i"
  "Prefix (row_key (issued_row e i pre hash p now dq)) = pre"
  "row_hash (issued_row e i pre hash p now dq) = hash"
  by (simp_all add: issued_row_def)

lemma insert_key_cases:
  assumes "insert_key e i pre hash p now w = (r, w1)"
  obtains err where "r = Inl err" "w1 = w"
  | dq where "r = Inr ()" "i \<notin> ids w" "find_prefix pre w = None" "store_dollar e (p_DollarQuota p) = Some dq"
      "w1 = w\<lparr>api_keys := api_keys w @ [issued_row e i pre hash p now dq]\<rparr>"
proof (cases "\<exists>dq. store_dollar e (p_DollarQuota p) = Some dq \<and> rpm_fits (p_RPMLimit p)
    \<and> find_id i w = None \<and> find_prefix pre w = None")
  case True
  then obtain dq where dq: "store_dollar e (p_DollarQuota p) = Some dq" "rpm_fits (p_RPMLimit p)"
    "find_id i w = None" "find_prefix pre w = None" by blast
  with assms have "r = Inr ()" "w1 = w\<lparr>api_keys := api_keys w @ [issued_row e i pre hash p now dq]\<rparr>"
    by (simp_all add: insert_key_def issued_row_def)
  with dq show thesis by (intro that(2)) (simp_all add: find_id_None)
next
  case False
  with assms have "w1 = w \<and> (\<exists>err. r = Inl err)"
    by (auto simp: insert_key_def split: option.splits if_splits)
  then show thesis using that(1) by blast
qed

lemma find_append: "find P (xs @ ys) = (case find P xs of None \<Rightarrow> find P ys | Some x \<Rightarrow> Some x)"
  by (induction xs) auto

lemma find_id_append:
  "i \<notin> ids w \<Longrightarrow> ID (row_key row) = i \<Longrightarrow>
   find_id j (w\<lparr>api_keys := api_keys w @ [row]\<rparr>) = (if j = i then Some row else find_id j w)"
  using find_id_None [of i w] by (cases "find_id j w") (auto simp: find_id_def find_append)

lemma insert_quota_fields [simp]:
  "api_keys (snd (insert_quota i now w)) = api_keys w" "redis (snd (insert_quota i now w)) = redis w"
  "ev (snd (insert_quota i now w)) = ev w"
  by (auto simp: insert_quota_def split: option.splits)

lemma cache_inv_append:
  assumes inv: "cache_inv e s w" and db: "db_ok w'"
    and w': "api_keys w' = api_keys w @ [row]" "redis w' = redis w" "ev w \<le> ev w'"
    and i: "ID (row_key row) \<in> drawn e w'" "ID (row_key row) \<notin> drawn e w"
  shows "cache_inv e s w'"
proof -
  have i': "ID (row_key row) \<notin> ids w" using inv i by (auto simp: cache_inv_def)
  have f: "find_id j w' = (if j = ID (row_key row) then Some row else find_id j w)" for j
    using find_id_append [OF i' refl, of j] by (simp add: find_id_def w')
  have d: "drawn e w \<subseteq> drawn e w'" by (rule drawn_mono) (rule w'(3))
  have "entry_ok e s w' p entry" if "entry_ok e s w p entry" for p entry
    using that i(2) d by (auto simp: entry_ok_def f)
  with inv have "cache_ok e s w'" by (auto simp: cache_inv_def cache_ok_def w'(2))
  moreover have "ids w' = insert (ID (row_key row)) (ids w)" by (simp add: ids_def w'(1))
  ultimately show ?thesis using inv db i(1) d by (auto simp: cache_inv_def)
qed

lemma ev_funpow_tick [simp]: "ev ((tick ^^ n) w) = ev w + n"
  by (induction n) auto

lemma cache_inv_funpow_tick: "cache_inv e s w \<Longrightarrow> cache_inv e s ((tick ^^ n) w)"
  by (induction n) (auto simp: cache_inv_tick)

lemma Issue_inv:
  assumes "no_faults e" "fresh_uuids e" "cache_inv e s w"
  shows "cache_inv e s (snd (Issue e s p w))"
proof (cases "TrimSpace (p_Owner p) = []")
  case True
  with assms(3) show ?thesis by (simp add: Issue_def)
next
  case False
  let ?i = "uuid_New e (ev w + 2)" and ?w0 = "(tick ^^ 4) w"
  obtain r w1 where ins: "insert_key e ?i (prefixOf s (issued_plain e s w)) (issued_hash e s w) p
      (clock e (ev w + 3)) ?w0 = (r, w1)"
    by (cases "insert_key e ?i (prefixOf s (issued_plain e s w)) (issued_hash e s w) p (clock e (ev w + 3)) ?w0")
  note I = Issue_insert [OF assms(1) False ins]
  have w0: "cache_inv e s ?w0" by (rule cache_inv_funpow_tick) (rule assms(3))
  from ins show ?thesis
  proof (cases rule: insert_key_cases)
    case (1 err)
    with I w0 show ?thesis by simp
  next
    case (2 dq)
    let ?w2 = "tick (snd (insert_quota ?i (clock e (ev w1)) (tick w1)))"
    have "?i \<notin> drawn e w" using assms(2) by (auto simp: drawn_def fresh_uuids_def dest!: injD)
    moreover have "?i \<in> drawn e ?w2" using 2 by (auto simp: drawn_def)
    moreover have "db_ok ?w2"
      using insert_key_db_ok [of ?w0 e ?i] w0 ins
      by (simp add: cache_inv_def) (metis db_ok_tick insert_quota_db_ok snd_conv)
    moreover have "api_keys ?w2 = api_keys w @ [issued_row e ?i (prefixOf s (issued_plain e s w)) (issued_hash e s w) p
        (clock e (ev w + 3)) dq]" "redis ?w2 = redis w" "ev w \<le> ev ?w2"
      using 2 by (simp_all add: numeral_eq_Suc)
    ultimately have "cache_inv e s ?w2"
      by (intro cache_inv_append [OF assms(3)]) auto
    with I 2 show ?thesis by (simp add: Let_def)
  qed
qed

section \<open>Every reachable state\<close>

lemma params_write:
  "update_params e i p w =
     (case store_dollar e (p_DollarQuota p) of
        None \<Rightarrow> (Inl out_of_range, w)
      | Some dq \<Rightarrow> if rpm_fits (p_RPMLimit p) then update_rows i
                (\<lambda>k. k\<lparr>Owner := p_Owner p, Note := p_Note p,
                       ExpiresAt := map_option (pg_time e) (p_ExpiresAt p),
                       RPMLimit := p_RPMLimit p, TokenQuota := p_TokenQuota p, DollarQuota := dq\<rparr>) w
          else (Inl out_of_range, w))"
  by (simp add: update_params_def split: option.splits)

lemma Update_inv:
  assumes "no_faults e" "cache_inv e s w"
  shows "cache_inv e s (snd (Update e i p w))"
  using assms
  by (auto simp: Update_def nofault params_write after_write_def [of _ _ "(Inl _, _)"] cache_inv_tick
      split: option.splits intro!: cache_inv_write)

lemma apply_op_inv:
  assumes "no_faults e" "fresh_uuids e" "cache_inv e s w"
  shows "cache_inv e s (apply_op e s c w)"
proof -
  have db: "db_ok (apply_op e s c w)" using assms(3) by (simp add: apply_op_db_ok cache_inv_def)
  have k: "keeps w (apply_op e s c w) \<Longrightarrow> ?thesis" by (rule cache_inv_keeps [OF _ db assms(3)])
  show ?thesis
  proof (cases c)
    case (OpSetActive i a)
    then show ?thesis using assms(1,3) by (simp add: SetActive_def nofault cache_inv_write)
  qed (use k assms in \<open>simp_all add: Issue_inv Verify_inv Touch_cache_inv Delete_cache_inv Update_inv reads_keep
      AllowRate_keeps AllowQuota_world quotaTotals_keeps AddUsage_keeps RecordRequest_keeps\<close>)
qed

lemma cache_inv_init: "cache_inv e s init_world"
  using db_ok_init by (simp add: cache_inv_def cache_ok_def ids_def init_world_def)

lemma cache_inv_evict: "cache_inv e s w \<Longrightarrow> cache_inv e s (w\<lparr>redis := (redis w)(k := None)\<rparr>)"
  by (auto simp: cache_inv_def cache_ok_def entry_ok_def drawn_def split: if_splits)

lemma reach_cache_inv:
  assumes "no_faults e" "fresh_uuids e" "reach e s w"
  shows "cache_inv e s w"
  using assms(3)
proof (induction rule: reach.induct)
  case init
  show ?case by (rule cache_inv_init)
next
  case (step w w')
  from step(2,3) show ?case using assms(1,2)
    by (auto elim!: kstepE intro: apply_op_inv cache_inv_evict)
qed

section \<open>Hashing\<close>

text \<open>\<open>argon2.IDKey\<close> returns as many bytes as it is asked for.\<close>

definition argon_length :: "env \<Rightarrow> bool" where
  "argon_length e \<longleftrightarrow>
     (\<forall>plain salt n. length (argon2_IDKey e plain salt argonTime argonMemory argonThreads n) = n)"

lemma Split_encode_hash:
  "Split (encode_hash salt digest) (CHR ''$'') = [''argon2id'', hex_encode salt, hex_encode digest]"
proof -
  have "encode_hash salt digest = ''argon2id'' @ CHR ''$'' # (hex_encode salt @ CHR ''$'' # hex_encode digest)"
    by (simp add: encode_hash_def)
  then show ?thesis by (simp only:) (subst Split_append, simp, simp add: Split_append Split_notin)
qed

lemma verifyHash_encode_hash:
  "length digest = argonKeyLen \<Longrightarrow> verifyHash e plain (encode_hash salt digest) \<longleftrightarrow>
     argon2_IDKey e plain salt argonTime argonMemory argonThreads argonKeyLen = digest"
  by (simp add: verifyHash_def Split_encode_hash argonKeyLen_def)

text \<open>C29: a stored hash accepts exactly the strings with the argon2 digest of the key it was made from.\<close>

theorem hashKey_verifyHash:
  assumes "argon_length e" and "hashKey e plain w = (Inr hash, w')"
  shows "verifyHash e candidate hash \<longleftrightarrow>
     argon2_IDKey e candidate (rand_bytes e (ev w) 16) argonTime argonMemory argonThreads argonKeyLen
     = argon2_IDKey e plain (rand_bytes e (ev w) 16) argonTime argonMemory argonThreads argonKeyLen"
  using assms
  by (auto simp: hashKey_def rand_Read_def argon_length_def verifyHash_encode_hash split: option.splits sum.splits)

theorem hashKey_verifyHash_witness:
  "let hash = encode_hash (replicate 16 (CHR 0x00)) (take 32 (''ab'' @ replicate 32 (CHR 0x00))) in
   hashKey demo_env ''ab'' init_world = (Inr hash, tick init_world)
   \<and> verifyHash demo_env ''ab'' hash \<and> \<not> verifyHash demo_env ''cd'' hash"
proof -
  have len: "argon_length demo_env" by (auto simp: argon_length_def demo_env_def min_def)
  have "hashKey demo_env ''ab'' init_world
      = (Inr (encode_hash (replicate 16 (CHR 0x00)) (take 32 (''ab'' @ replicate 32 (CHR 0x00)))), tick init_world)"
    by (simp add: hashKey_def nofault) (simp add: demo_env_def init_world_def argonKeyLen_def char_of_def)
  with hashKey_verifyHash [OF len this] show ?thesis by (simp add: Let_def) (simp add: demo_env_def argonKeyLen_def)
qed

lemma verifyHash_issued: "argon_length e \<Longrightarrow> verifyHash e (issued_plain e s w) (issued_hash e s w)"
  by (simp add: issued_hash_def Let_def verifyHash_encode_hash argon_length_def)

section \<open>A concrete run\<close>

text \<open>A key issued into the empty system, and the state after its first verification has cached it.\<close>

definition demo_plain :: string where
  "demo_plain = ''pk-AAAAAAAAAAAAAAAAAAAAAAAAAAAAAAAA''"

definition demo_row :: api_key_row where
  "demo_row = issued_row demo_env ''2'' ''pk-AAAAAAAA'' (issued_hash demo_env demo_service init_world) demo_params
     1700000040003000000 None"

definition demo_world :: world where
  "demo_world = init_world\<lparr>ev := 6, api_keys := [demo_row],
     quota_totals := [''2'' \<mapsto> \<lparr>total_tokens = 0, total_cost_usd = 0, updated_at = 1700000040004000000\<rparr>]\<rparr>"

definition demo_issued :: IssuedKey where
  "demo_issued =
     \<lparr>ik_Key = \<lparr>ID = ''2'', Prefix = ''pk-AAAAAAAA'', Owner = ''ann'', Note = '''', ExpiresAt = None, RPMLimit = Some 2,
        TokenQuota = Some 100, DollarQuota = None, Active = True, CreatedAt = 1700000040005000000, LastUsedAt = None\<rparr>,
      ik_Plain = demo_plain\<rparr>"

definition demo_key :: Key where
  "demo_key = scan_key demo_env demo_row"

definition demo_entry :: "rval \<times> time option" where
  "demo_entry = (REntry \<lparr>ce_Key = Some demo_key, ce_Plain = demo_plain\<rparr>, Some 1700000100008000000)"

definition demo_cached :: world where
  "demo_cached = demo_world\<lparr>ev := 9, redis := [verify_key ''pk-AAAAAAAA'' \<mapsto> demo_entry]\<rparr>"

lemma demo_fresh_uuids [simp]: "fresh_uuids demo_env"
  by (auto simp: fresh_uuids_def demo_env_def inj_def FormatInt_inj)

lemma demo_argon_length [simp]: "argon_length demo_env"
  by (auto simp: argon_length_def demo_env_def min_def)

lemma demo_clock: "clock demo_env n = 1700000040000000000 + int n * 1000000"
  by (simp add: demo_env_def)

lemma demo_uuid: "uuid_New demo_env 2 = ''2''"
  by code_simp

lemma demo_issued_plain: "issued_plain demo_env demo_service init_world = demo_plain"
  by code_simp

lemma demo_prefix: "prefixOf demo_service demo_plain = ''pk-AAAAAAAA''"
  by code_simp

lemma demo_has_prefix: "HasPrefix demo_plain (prefix_of_service demo_service)"
  by code_simp

lemma demo_owner: "TrimSpace ''ann'' = ''ann''"
  by code_simp

lemma demo_insert:
  "insert_key demo_env ''2'' ''pk-AAAAAAAA'' (issued_hash demo_env demo_service init_world) demo_params
     1700000040003000000 ((tick ^^ 4) init_world)
   = (Inr (), init_world\<lparr>ev := 4, api_keys := [demo_row]\<rparr>)"
  by (simp add: insert_key_def store_dollar_def rpm_fits_def demo_params_def int4_range_def find_id_def
      find_prefix_def init_world_def tick_def numeral_eq_Suc demo_row_def issued_row_def)

lemma demo_Issue: "Issue demo_env demo_service demo_params init_world = (Inr demo_issued, demo_world)"
proof -
  let ?w1 = "init_world\<lparr>ev := 4, api_keys := [demo_row]\<rparr>"
  have ev: "ev init_world = 0" by (simp add: init_world_def)
  have ow: "TrimSpace (p_Owner demo_params) \<noteq> []" by (simp add: demo_params_def demo_owner)
  have "ID (row_key demo_row) = ''2''" by (simp add: demo_row_def)
  then have q: "insert_quota ''2'' (clock demo_env 4) (tick ?w1) = (Inr (), tick ?w1\<lparr>quota_totals :=
      [''2'' \<mapsto> \<lparr>total_tokens = 0, total_cost_usd = 0, updated_at = 1700000040004000000\<rparr>]\<rparr>)"
    by (simp add: insert_quota_def find_id_def demo_clock) (simp add: init_world_def)
  have "Issue demo_env demo_service demo_params init_world =
     (let w2 = snd (insert_quota ''2'' (clock demo_env 4) (tick ?w1)) in
         (Inr \<lparr>ik_Key = \<lparr>ID = ''2'', Prefix = ''pk-AAAAAAAA'',
                         Owner = p_Owner demo_params, Note = p_Note demo_params, ExpiresAt = p_ExpiresAt demo_params,
                         RPMLimit = p_RPMLimit demo_params, TokenQuota = p_TokenQuota demo_params,
                         DollarQuota = p_DollarQuota demo_params,
                         Active = True, CreatedAt = clock demo_env (ev w2), LastUsedAt = None\<rparr>,
              ik_Plain = demo_plain\<rparr>, tick w2))"
    using Issue_insert [OF demo_no_faults ow, of init_world demo_service "Inr ()" ?w1] demo_insert
    by (simp add: demo_issued_plain demo_prefix demo_uuid [unfolded numeral_2_eq_2] ev demo_clock)
  then show ?thesis
    unfolding q by (simp add: Let_def demo_clock demo_issued_def demo_params_def demo_world_def tick_def ev)
qed

lemma demo_verifyHash: "verifyHash demo_env demo_plain (row_hash demo_row)"
  using verifyHash_issued [OF demo_argon_length, of demo_service init_world]
  by (simp add: demo_issued_plain demo_row_def)

lemma demo_key_sel [simp]:
  "ID demo_key = ''2''" "Active demo_key" "ExpiresAt demo_key = None" "Prefix demo_key = ''pk-AAAAAAAA''"
  by (simp_all add: demo_key_def demo_row_def issued_row_def demo_params_def)

lemma demo_Verify: "Verify demo_env demo_service demo_plain demo_world = ((Some demo_key, None), demo_cached)"
proof -
  have w: "redis demo_world = Map.empty" "ev demo_world = 6" by (simp_all add: demo_world_def init_world_def)
  have f: "find_prefix ''pk-AAAAAAAA'' demo_world = Some demo_row" "find_prefix ''pk-AAAAAAAA'' (tick demo_world) = Some demo_row"
    by (simp_all add: find_prefix_def demo_world_def demo_row_def)
  have ttl: "cacheTTL demo_service = 60000000000" by (simp add: demo_service_def NewService_def Second_def)
  have "verify_db demo_env demo_service demo_plain ''pk-AAAAAAAA'' (tick demo_world) = ((Some demo_key, None), demo_cached)"
    by (simp add: verify_db_nf f demo_verifyHash validateKey_def demo_key_def [symmetric] set_expiry_def ttl
        demo_clock w)
       (simp add: w demo_cached_def demo_entry_def tick_def rput_def)
  then show ?thesis by (simp add: Verify_nf demo_has_prefix demo_prefix rget_def w)
qed

lemma demo_ids [simp]: "ids demo_world = {''2''}" "ids demo_cached = {''2''}"
  by (simp_all add: ids_def demo_cached_def demo_world_def demo_row_def)

lemma demo_reach: "reach demo_env demo_service demo_world" "reach demo_env demo_service demo_cached"
proof -
  have "demo_world = run_ops demo_env demo_service [OpIssue demo_params] init_world"
    "demo_cached = run_ops demo_env demo_service [OpIssue demo_params, OpVerify demo_plain] init_world"
    by (simp_all add: demo_Issue demo_Verify)
  then show "reach demo_env demo_service demo_world" "reach demo_env demo_service demo_cached"
    using reach_run_ops [OF reach.init] by metis+
qed

section \<open>Refinement\<close>

lemma verify_db_spec:
  assumes "no_faults e" "HasPrefix plain (prefix_of_service s)"
    and "verify_db e s plain (prefixOf s plain) w0 = ((k, err), w')" "api_keys w0 = api_keys w"
  shows "(map_option untouched k, err) = spec_verify e s plain w (clock e (ev w0 + 2))"
proof -
  have "find_prefix p w0 = find_prefix p w" for p using assms(4) by (simp add: find_prefix_def)
  with assms show ?thesis
    by (auto simp: verify_db_nf spec_verify_def split: option.splits if_splits prod.splits dest!: validateKey_Some)
qed

lemma cached_row:
  assumes "cache_inv e s w" "redis w (verify_key (prefixOf s plain)) = Some (REntry entry, x)"
    and "ce_Plain entry = plain" "ce_Key entry = Some k" "ID k \<in> ids w"
  obtains r where "find_prefix (prefixOf s plain) w = Some r" "untouched k = untouched (scan_key e r)"
    "verifyHash e plain (row_hash r)" "ID (row_key r) = ID k"
proof -
  from assms(5) obtain r where r: "find_id (ID k) w = Some r" using find_id_None [of "ID k" w] by auto
  from assms have "entry_ok e s w (prefixOf s plain) entry" by (auto simp: cache_inv_def cache_ok_def)
  with r assms(3,4) have *: "untouched k = untouched (scan_key e r)" "verifyHash e plain (row_hash r)"
    "Prefix k = prefixOf s plain" by (auto simp: entry_ok_def)
  from r have "r \<in> set (api_keys w)" "ID (row_key r) = ID k" by (auto dest: find_idD)
  moreover have "Prefix (row_key r) = prefixOf s plain" using * by (auto dest: untouched_eqD)
  ultimately have "find_prefix (prefixOf s plain) w = Some r"
    using find_prefix_mem [of w r] assms(1) by (simp add: cache_inv_def)
  with * \<open>ID (row_key r) = ID k\<close> show thesis using that by blast
qed

lemma Verify_refines_inv:
  assumes nf: "no_faults e" and inv: "cache_inv e s w" and nd: "\<not> deleted_hit e s plain w"
    and V: "Verify e s plain w = ((k, err), w')"
  shows "\<exists>n. ev w \<le> n \<and> n \<le> ev w + 3 \<and> (map_option untouched k, err) = spec_verify e s plain w (clock e n)"
proof (cases "HasPrefix plain (prefix_of_service s)")
  case False
  with V nf show ?thesis by (intro exI [of _ "ev w"]) (simp add: Verify_nf spec_verify_def)
next
  case True
  let ?g = "rget (clock e (ev w)) w (verify_key (prefixOf s plain))"
  have db: ?thesis if "verify_db e s plain (prefixOf s plain) (tick w) = ((k, err), w')"
    using verify_db_spec [OF nf True that, of w] by (intro exI [of _ "ev w + 3"]) (simp add: numeral_eq_Suc)
  show ?thesis
  proof (cases "\<exists>entry x. ?g = Some (REntry entry, x) \<and> ce_Plain entry = plain")
    case False
    then have "Verify e s plain w = verify_db e s plain (prefixOf s plain) (tick w)"
      using True nf by (auto simp: Verify_nf split: option.splits rval.splits)
    with V show ?thesis using db by simp
  next
    case hit: True
    then obtain entry x where g: "?g = Some (REntry entry, x)" and pl: "ce_Plain entry = plain" by blast
    then have rd: "redis w (verify_key (prefixOf s plain)) = Some (REntry entry, x)" by (simp add: rget_Some)
    with inv have "entry_ok e s w (prefixOf s plain) entry" by (auto simp: cache_inv_def cache_ok_def)
    then obtain k0 where k0: "ce_Key entry = Some k0" by (auto simp: entry_ok_def)
    with nd g pl have "ID k0 \<in> ids w" by (auto simp: deleted_hit_def)
    with cached_row [OF inv rd pl k0] obtain r where r: "find_prefix (prefixOf s plain) w = Some r"
      "untouched k0 = untouched (scan_key e r)" "verifyHash e plain (row_hash r)" by metis
    from V g pl k0 True nf have "k = Some k0" "validateKey e (Some k0) (tick w) = (err, w')"
      by (auto simp: Verify_nf split: prod.splits)
    then have "k = Some k0" "err = validate_at (clock e (Suc (ev w))) k0" by (auto dest: validateKey_Some)
    with r True have "(map_option untouched k, err) = spec_verify e s plain w (clock e (Suc (ev w)))"
      by (simp add: spec_verify_def validate_at_untouched [OF r(2)])
    then show ?thesis by (intro exI [of _ "Suc (ev w)"]) simp
  qed
qed

text \<open>C24: in every state the service reaches without failures, \<open>Verify\<close> answers what the database answers at
  some moment of the call, unless the cache still holds a key that was deleted.\<close>

theorem Verify_refines:
  assumes "no_faults e" "fresh_uuids e" "reach e s w"
    and "\<not> deleted_hit e s plain w"
    and "Verify e s plain w = ((k, err), w')"
  shows "\<exists>n. ev w \<le> n \<and> n \<le> ev w + 3 \<and> (map_option untouched k, err) = spec_verify e s plain w (clock e n)"
  using Verify_refines_inv [OF assms(1) reach_cache_inv [OF assms(1,2,3)] assms(4,5)] .

theorem Verify_refines_witness:
  "reach demo_env demo_service demo_cached \<and> \<not> deleted_hit demo_env demo_service demo_plain demo_world
   \<and> Verify demo_env demo_service demo_plain demo_world = ((Some demo_key, None), demo_cached)
   \<and> (\<exists>n. 6 \<le> n \<and> n \<le> 9 \<and>
        (Some (untouched demo_key), None) = spec_verify demo_env demo_service demo_plain demo_world (clock demo_env n))"
proof -
  have d: "\<not> deleted_hit demo_env demo_service demo_plain demo_world"
    by (simp add: deleted_hit_def rget_def demo_world_def init_world_def)
  have "ev demo_world = 6" by (simp add: demo_world_def)
  with Verify_refines [OF demo_no_faults demo_fresh_uuids demo_reach(1) d demo_Verify] d
  show ?thesis by (simp add: demo_reach demo_Verify)
qed

section \<open>Revocation\<close>

lemma Verify_inactive_row:
  assumes "no_faults e" "cache_inv e s w" "find_id i w = Some r" "\<not> Active (row_key r)"
    and "Verify e s plain w = ((Some k, err), w')" "ID k = i"
  shows "err = Some ErrInactive"
proof -
  have nd: "\<not> deleted_hit e s plain w \<or> fst (Verify e s plain w) \<noteq> (Some k, err)"
  proof (rule disjCI)
    assume "\<not> fst (Verify e s plain w) \<noteq> (Some k, err)"
    moreover have "ID k \<in> ids w" using assms(3,6) find_id_None [of i w] by auto
    ultimately show "\<not> deleted_hit e s plain w"
      using assms(1,5) by (auto simp: deleted_hit_def Verify_nf split: option.splits rval.splits prod.splits if_splits)
  qed
  then have "\<not> deleted_hit e s plain w" using assms(5) by simp
  from Verify_refines_inv [OF assms(1,2) this assms(5)] obtain n where
    "(Some (untouched k), err) = spec_verify e s plain w (clock e n)" by auto
  then obtain r' where r': "find_prefix (prefixOf s plain) w = Some r'" "untouched k = untouched (scan_key e r')"
    "err = validate_at (clock e n) (scan_key e r')"
    by (auto simp: spec_verify_def split: option.splits if_splits)
  then have "ID (row_key r') = i" using assms(6) by (auto dest: untouched_eqD)
  moreover have "r' \<in> set (api_keys w)" using r'(1) by (auto dest: find_prefixD)
  ultimately have "r' = r" using assms(2,3) find_id_mem [of w r'] by (simp add: cache_inv_def)
  with r' assms(4) show ?thesis by (simp add: validate_at_def)
qed

lemma SetActive_state:
  assumes "no_faults e" "fresh_uuids e" "reach e s w" and "SetActive e i a w = (None, w1)"
  obtains r where "cache_inv e s w1" "find_id i w1 = Some r" "Active (row_key r) = a"
proof -
  let ?f = "\<lambda>k. k\<lparr>Active := a\<rparr>"
  have inv: "cache_inv e s w" by (rule reach_cache_inv [OF assms(1-3)])
  then have inv1: "cache_inv e s w1" using apply_op_inv [OF assms(1,2), of s w "OpSetActive i a"] assms(4) by simp
  have S: "after_write e i (update_rows i ?f (tick w)) = (None, w1)"
    using assms(1,4) by (simp add: SetActive_def nofault)
  show thesis
  proof (cases "find_id i w")
    case None
    then have "i \<notin> ids w" by (simp add: find_id_None)
    with S show thesis by (simp add: after_write_def update_rows_def matching_rows split: if_splits)
  next
    case (Some r)
    with write_nf [OF assms(1), of ?f i "tick w" r] S
    have "w1 = (tick (tick (snd (update_rows i ?f (tick w)))))\<lparr>redis := (redis w)(verify_key (Prefix (row_key r)) := None)\<rparr>"
      by simp
    then have "find_id i w1 = Some (r\<lparr>row_key := ?f (row_key r)\<rparr>)"
      using find_id_update [of ?f i i "tick w"] Some by simp
    moreover have "Active (row_key (r\<lparr>row_key := ?f (row_key r)\<rparr>)) = a" by simp
    ultimately show thesis using inv1 that by blast
  qed
qed

text \<open>Once \<open>SetActive(id, false)\<close> has returned without an error, no verification accepts the key, even if
  it was cached as active.\<close>

lemma SetActive_revokes:
  assumes "no_faults e" "fresh_uuids e" "reach e s w"
    and "SetActive e i False w = (None, w1)"
    and "Verify e s plain w1 = ((Some k, err), w2)" "ID k = i"
  shows "err = Some ErrInactive"
proof -
  from SetActive_state [OF assms(1-4)] obtain r where "cache_inv e s w1" "find_id i w1 = Some r" "\<not> Active (row_key r)" by auto
  from Verify_inactive_row [OF assms(1) this assms(5,6)] show ?thesis .
qed

lemma demo_deactivated:
  obtains w1 where "SetActive demo_env ''2'' False demo_cached = (None, w1)"
    "\<And>v. api_keys v = api_keys w1 \<Longrightarrow> redis v = redis w1 \<Longrightarrow>
       \<exists>k err w2. Verify demo_env demo_service demo_plain v = ((Some k, err), w2) \<and> ID k = ''2''"
proof -
  let ?f = "\<lambda>k. k\<lparr>Active := False\<rparr>"
  have f: "find_id ''2'' (tick demo_cached) = Some demo_row"
    by (simp add: find_id_def demo_cached_def demo_world_def demo_row_def)
  obtain w1 where w1: "SetActive demo_env ''2'' False demo_cached = (None, w1)"
    "api_keys w1 = [demo_row\<lparr>row_key := ?f (row_key demo_row)\<rparr>]" "redis w1 (verify_key ''pk-AAAAAAAA'') = None"
    using write_nf [OF demo_no_faults, of ?f "''2''" "tick demo_cached" demo_row] f
    by (simp add: SetActive_def nofault demo_cached_def demo_world_def demo_row_def) (simp add: update_rows_def)
  then have "\<exists>k err w2. Verify demo_env demo_service demo_plain v = ((Some k, err), w2) \<and> ID k = ''2''"
    if "api_keys v = api_keys w1" "redis v = redis w1" for v
    using demo_verifyHash that
    by (simp add: Verify_nf verify_db_nf demo_has_prefix demo_prefix nofault rget_def find_prefix_def split: prod.splits)
       (simp add: demo_row_def)
  with w1(1) show thesis by (rule that)
qed

section \<open>Deletion\<close>



section \<open>A fresh key verifies\<close>

lemma Issue_then_Verify_lemma:
  assumes "no_faults e" "argon_length e"
    and "Issue e s p w = (Inr ik, w1)" and "redis w (verify_key (Prefix (ik_Key ik))) = None"
  shows "\<exists>k t. fst (Verify e s (ik_Plain ik) w1) = (Some k, validate_at t k)
       \<and> ID k = ID (ik_Key ik) \<and> Prefix k = Prefix (ik_Key ik) \<and> Owner k = p_Owner p \<and> Active k
       \<and> RPMLimit k = p_RPMLimit p \<and> TokenQuota k = p_TokenQuota p
       \<and> ExpiresAt k = map_option (pg_time e) (p_ExpiresAt p)"
proof -
  have ow: "TrimSpace (p_Owner p) \<noteq> []" using assms(3) by (auto simp: Issue_def)
  let ?i = "uuid_New e (ev w + 2)" and ?w0 = "(tick ^^ 4) w" and ?pl = "issued_plain e s w"
  obtain r w0 where ins: "insert_key e ?i (prefixOf s ?pl) (issued_hash e s w) p (clock e (ev w + 3)) ?w0 = (r, w0)"
    by (cases "insert_key e ?i (prefixOf s ?pl) (issued_hash e s w) p (clock e (ev w + 3)) ?w0")
  note I = Issue_insert [OF assms(1) ow ins]
  from ins show ?thesis
  proof (cases rule: insert_key_cases)
    case (1 err)
    with I assms(3) show ?thesis by simp
  next
    case (2 dq)
    let ?row = "issued_row e ?i (prefixOf s ?pl) (issued_hash e s w) p (clock e (ev w + 3)) dq"
    from I 2 assms(3) have ik: "ik_Plain ik = ?pl" "Prefix (ik_Key ik) = prefixOf s ?pl" "ID (ik_Key ik) = ?i"
      and w1: "w1 = tick (snd (insert_quota ?i (clock e (ev w0)) (tick w0)))"
      by (auto simp: Let_def)
    have "find_prefix (prefixOf s ?pl) w1 = Some ?row"
      using 2 by (simp add: w1 find_prefix_def find_append numeral_eq_Suc)
    moreover have "redis w1 = redis w" using 2 by (simp add: w1 numeral_eq_Suc)
    then have "rget (clock e (ev w1)) w1 (verify_key (prefixOf s ?pl)) = None"
      using assms(4) ik by (simp add: rget_def)
    moreover have "HasPrefix ?pl (prefix_of_service s)" by (simp add: issued_plain_def)
    ultimately obtain t where "fst (Verify e s ?pl w1) = (Some (scan_key e ?row), validate_at t (scan_key e ?row))"
      using assms(1) verifyHash_issued [OF assms(2), of s w]
      by (simp add: Verify_nf verify_db_nf validateKey_fst)
    with ik show ?thesis by (intro exI [of _ "scan_key e ?row"] exI [of _ t]) (simp add: scan_key_def issued_row_def)
  qed
qed



end
