(* ===== verification/Keys_Limits.thy ===== *)
theory Keys_Limits
  imports Keys_Verify
begin

text \<open>
  Rate limit and quota.  The rate limit is shown to admit exactly the first \<open>limit\<close> requests of a minute,
  whatever other operations run in between.  The token counter in Redis is shown to equal the total in
  Postgres after any sequence of operations that neither fails nor loses Redis keys, so that the quota
  decision is the one the database would give; and the two ways in which it stops being so are shown
  (a counter re-created after eviction, the dollar total written with six decimals).
\<close>

section \<open>Sequences of operations\<close>

text \<open>The decisions on \<open>AllowRate\<close> calls for key \<open>i\<close> (with a positive limit) along a sequence.\<close>

fun rate_trace :: "env \<Rightarrow> Service \<Rightarrow> uuid \<Rightarrow> op list \<Rightarrow> world \<Rightarrow> (int \<times> bool result) list" where
  "rate_trace e s i [] w = []"
| "rate_trace e s i (c # cs) w =
     (case c of
        OpAllowRate j n \<Rightarrow> if j = i \<and> n > 0 then [(n, fst (AllowRate e i n w))] else []
      | _ \<Rightarrow> []) @ rate_trace e s i cs (apply_op e s c w)"

section \<open>Frame: which Redis keys an operation can write\<close>

text \<open>\<open>still k w w'\<close>: the entry of \<open>k\<close> is unchanged and events have only been added.\<close>

definition still :: "string \<Rightarrow> world \<Rightarrow> world \<Rightarrow> bool" where
  "still k w w' \<longleftrightarrow> redis w' k = redis w k \<and> ev w \<le> ev w'"

lemma still_refl [simp]: "still k w w"
  by (simp add: still_def)

lemma still_trans: "still k w w' \<Longrightarrow> still k w' w'' \<Longrightarrow> still k w w''"
  by (simp add: still_def)

lemma still_tick [simp]: "still k w (tick w)"
  by (simp add: still_def)

lemma still_tickD: "still k (tick w) w' \<Longrightarrow> still k w w'"
  by (simp add: still_def)

lemma still_rput: "k \<noteq> k' \<Longrightarrow> still k w (rput k' x w)"
  by (simp add: still_def)

lemma still_call:
  assumes "\<And>now w. still k w (snd (f now w))"
  shows "still k w (snd (db_call e f w))" "still k w (snd (rdb_call e f w))"
  using assms [THEN still_tickD] by (auto simp: db_call_def rdb_call_def split: option.splits)

lemma still_incr_by: "k \<noteq> k' \<Longrightarrow> still k w (snd (incr_by now k' n w))"
  by (auto simp: incr_by_def intro: still_rput split: option.splits rval.splits prod.splits)

lemma still_rdb:
  "still k w (snd (rdb_Get e k' w))"
  "k \<noteq> k' \<Longrightarrow> still k w (snd (rdb_Set e k' v ttl w))"
  "k \<noteq> k' \<Longrightarrow> still k w (snd (rdb_Del e k' w))"
  "k \<noteq> k' \<Longrightarrow> still k w (snd (rdb_IncrBy e k' n w))"
  "k \<noteq> k' \<Longrightarrow> still k w (snd (rdb_IncrByFloat e k' c w))"
  by (auto simp: rdb_Get_def rdb_Set_def rdb_Del_def rdb_IncrBy_def rdb_IncrByFloat_def Let_def still_def [of _ _ "_\<lparr>redis := _\<rparr>"]
      intro!: still_call still_rput still_incr_by split: option.splits rval.splits prod.splits)

lemma still_IncrExpire:
  assumes "k \<noteq> k'"
  shows "still k w (snd (rdb_IncrExpire e k' ttl w))"
  unfolding rdb_IncrExpire_def
proof (rule still_call(2))
  fix now w
  show "still k w (snd (case incr_by now k' 1 w of (Inl err, w') \<Rightarrow> (Inl err, w')
      | (Inr v, w') \<Rightarrow> (Inr v, rput k' (RInt v, Some (now + ttl)) w')))"
    using still_incr_by [OF assms, of w now 1] still_rput [OF assms]
    by (auto split: sum.splits prod.splits intro: still_trans)
qed

lemma stillD:
  "rdb_Get e k' w = (rv, w') \<Longrightarrow> still k w w'"
  "rdb_Set e k' v ttl w = (ru, w') \<Longrightarrow> k \<noteq> k' \<Longrightarrow> still k w w'"
  "rdb_Del e k' w = (ru, w') \<Longrightarrow> k \<noteq> k' \<Longrightarrow> still k w w'"
  "rdb_IncrBy e k' n w = (ri, w') \<Longrightarrow> k \<noteq> k' \<Longrightarrow> still k w w'"
  "rdb_IncrByFloat e k' c w = (rr, w') \<Longrightarrow> k \<noteq> k' \<Longrightarrow> still k w w'"
  using still_rdb by (metis snd_conv)+

lemma still_stmt:
  "still k w (snd (insert_quota i now w))" "still k w (snd (upsert_quota e i t c now w))"
  "still k w (snd (insert_usage e r now w))" "still k w (snd (insert_key e i pre hash p now w))"
  "still k w (snd (update_rows i f w))" "still k w (snd (update_params e i p w))" "still k w (snd (delete_rows i w))"
  by (auto simp: insert_quota_def upsert_quota_def insert_usage_def insert_key_def update_params_def still_def Let_def
      split: option.splits)

lemma still_callD: "db_call e f w = (r, w') \<Longrightarrow> (\<And>now w. still k w (snd (f now w))) \<Longrightarrow> still k w w'"
  using still_call(1) by (metis snd_conv)

lemma still_validateKey: "validateKey e x w = (r, w') \<Longrightarrow> still k w w'"
  using validateKey_world [of e x w] by auto

lemma still_invalidateCache:
  assumes "\<And>p. k \<noteq> verify_key p"
  shows "still k w (invalidateCache e i w)"
  unfolding invalidateCache_def find_read
  using still_rdb(3) [OF assms, of _ e] by (auto split: sum.splits prod.splits dest!: db_read intro: still_tickD)

lemma still_after_write:
  assumes "\<And>p. k \<noteq> verify_key p"
  shows "still k w (snd rw) \<Longrightarrow> still k w (snd (after_write e i rw))"
  using still_invalidateCache [OF assms] by (auto simp: after_write_def split: sum.splits prod.splits intro: still_trans)

lemma still_verify_db:
  assumes "\<And>p. k \<noteq> verify_key p"
  shows "still k w (snd (verify_db e s plain pre w))"
  unfolding verify_db_def find_read using assms
  by (auto split: sum.splits prod.splits if_splits dest!: db_read still_validateKey [where k = k] stillD(2) [where k = k]
      intro: still_trans still_tickD)

lemma still_Verify:
  assumes "\<And>p. k \<noteq> verify_key p"
  shows "still k w (snd (Verify e s plain w))"
  using still_verify_db [OF assms]
  by (auto simp: Verify_def Let_def split: sum.splits prod.splits rval.splits if_splits
      dest!: stillD(1) [where k = k] still_validateKey [where k = k] intro: still_trans)

lemma still_Issue: "still k w (snd (Issue e s p w))"
  by (auto simp: Issue_def hashKey_def rand_Read_def time_Now_def Let_def split: sum.splits prod.splits option.splits
      dest!: still_callD [where k = k] intro: still_stmt) (auto simp: still_def)

lemma still_quota_db:
  assumes "k \<noteq> tok_key i" "k \<noteq> cost_key i"
  shows "still k w (snd (quota_db e i w))"
  unfolding quota_db_def find_read using assms
  by (auto split: sum.splits prod.splits dest!: db_read stillD(2) [where k = k] intro: still_trans still_tickD)

lemma still_quotaTotals:
  assumes "k \<noteq> tok_key i" "k \<noteq> cost_key i"
  shows "still k w (snd (quotaTotals e i w))"
  using still_quota_db [OF assms]
  by (auto simp: quotaTotals_def split: sum.splits prod.splits dest!: stillD(1) [where k = k] intro: still_trans)

lemma still_AddUsage:
  assumes "k \<noteq> tok_key i" "k \<noteq> cost_key i"
  shows "still k w (snd (AddUsage e i t c w))"
  using assms
  by (auto simp: AddUsage_def split: sum.splits prod.splits
      dest!: still_callD [where k = k] stillD(4,5) [where k = k] intro: still_stmt still_trans)

lemma still_reads:
  "still k w (snd (ListKeys e w))" "still k w (snd (Get e i w))" "still k w (snd (get_Stats e w))"
  unfolding ListKeys_def Get_def get_Stats_def find_read Let_def
  by (auto split: sum.splits prod.splits dest!: db_read intro!: still_call(1) intro: still_tickD)

text \<open>Rate counters are written by \<open>AllowRate\<close> only.\<close>

lemma still_rate_key:
  assumes "\<And>j n. c \<noteq> OpAllowRate j n"
  shows "still (rate_key i b) w (apply_op e s c w)"
proof -
  have k: "rate_key i b \<noteq> verify_key p" "rate_key i b \<noteq> tok_key j" "rate_key i b \<noteq> cost_key j" for p j
    using redis_keys_distinct by metis+
  show ?thesis
    using assms k
    by (cases c) (auto simp: TouchLastUsed_def SetActive_def Delete_def Update_def AllowQuota_world RecordRequest_world
        still_Issue still_Verify still_quotaTotals still_AddUsage still_reads
        intro!: still_call(1) still_after_write intro: still_stmt)
qed

section \<open>Rate limit\<close>

definition minute :: "int \<Rightarrow> time \<Rightarrow> bool" where
  "minute b t \<longleftrightarrow> b * 60 * Second \<le> t \<and> t < (b + 1) * 60 * Second"

lemma rate_bucket_minute:
  assumes "0 \<le> b" "minute b t"
  shows "rate_bucket t = b"
proof -
  define q where "q = t div Second"
  have "b * 60 \<le> q" "q < (b + 1) * 60"
    using assms(2) by (auto simp: q_def minute_def Second_def)
  then have "q div 60 = b" by (intro int_div_pos_eq [of _ _ _ "q - 60 * b"]) auto
  moreover have "0 \<le> q" using \<open>b * 60 \<le> q\<close> assms(1) by linarith
  ultimately have "0 \<le> q" "q div 60 = b" by auto
  then show ?thesis by (simp add: rate_bucket_def q_def)
qed

text \<open>The counter of key \<open>i\<close> for minute \<open>b\<close> stands at \<open>j\<close>, and outlives the minute.\<close>

definition counter :: "world \<Rightarrow> uuid \<Rightarrow> int \<Rightarrow> int \<Rightarrow> bool" where
  "counter w i b j \<longleftrightarrow>
     (if j = 0 then redis w (rate_key i b) = None
      else \<exists>d. redis w (rate_key i b) = Some (RInt j, Some d) \<and> (b * 60 + 70) * Second \<le> d)"

lemma counter_still: "still (rate_key i b) w w' \<Longrightarrow> counter w i b j \<Longrightarrow> counter w' i b j"
  by (simp add: still_def counter_def)

lemma rdb_IncrExpire_nf [nofault]:
  "no_faults e \<Longrightarrow> rdb_IncrExpire e k ttl w =
     (case incr_by (clock e (ev w)) k 1 (tick w) of
        (Inl err, w') \<Rightarrow> (Inl err, w')
      | (Inr v, w') \<Rightarrow> (Inr v, rput k (RInt v, Some (clock e (ev w) + ttl)) w'))"
  by (simp add: rdb_IncrExpire_def nofault)

lemma AllowRate_counts:
  assumes "no_faults e" "0 \<le> b" "0 < limit" "0 \<le> j" "j < 2 ^ 62" "counter w i b j"
    and "minute b (clock e (ev w))" "minute b (clock e (Suc (ev w)))"
  shows "fst (AllowRate e i limit w) = Inr (j + 1 \<le> limit) \<and> counter (snd (AllowRate e i limit w)) i b (j + 1)"
proof -
  let ?now = "clock e (Suc (ev w))" and ?k = "rate_key i b"
  have b: "rate_bucket (clock e (ev w)) = b" by (rule rate_bucket_minute [OF assms(2,7)])
  have now: "b * 60 * Second \<le> ?now" "?now < (b * 60 + 70) * Second"
    using assms(8) by (auto simp: minute_def Second_def)
  define w1 where "w1 = tick (tick w)"
  have "\<exists>x. incr_by ?now ?k 1 w1 = (Inr (j + 1), rput ?k (RInt (j + 1), x) w1)"
  proof (cases "j = 0")
    case True
    with assms(6) show ?thesis by (auto simp: counter_def incr_by_def w1_def rget_None)
  next
    case False
    with assms(6) obtain d where "redis w ?k = Some (RInt j, Some d)" "(b * 60 + 70) * Second \<le> d"
      by (auto simp: counter_def)
    moreover from this(2) now have "?now < d" by linarith
    moreover have "int64_range (j + 1)" using assms(4,5) by (simp add: int64_range_def)
    ultimately show ?thesis by (auto simp: incr_by_def w1_def rget_def)
  qed
  then obtain x where x: "incr_by ?now ?k 1 w1 = (Inr (j + 1), rput ?k (RInt (j + 1), x) w1)" by blast
  have A: "AllowRate e i limit w =
      (Inr (j + 1 \<le> limit), rput ?k (RInt (j + 1), Some (?now + 70 * Second)) (rput ?k (RInt (j + 1), x) w1))"
    using assms(1,3) x by (simp add: AllowRate_def time_Now_def b nofault w1_def)
  have "(b * 60 + 70) * Second \<le> ?now + 70 * Second" using now(1) by (simp add: distrib_right)
  with assms(4) show ?thesis by (simp add: A counter_def)
qed

lemma rate_key_inj:
  assumes "CHR '':'' \<notin> set i" "CHR '':'' \<notin> set j" "i \<noteq> j"
  shows "rate_key i b \<noteq> rate_key j b'"
proof
  assume "rate_key i b = rate_key j b'"
  then have "i @ CHR '':'' # FormatInt b = j @ CHR '':'' # FormatInt b'" by (simp add: rate_key_def)
  then have "takeWhile (\<lambda>x. x \<noteq> CHR '':'') (i @ CHR '':'' # FormatInt b)
    = takeWhile (\<lambda>x. x \<noteq> CHR '':'') (j @ CHR '':'' # FormatInt b')" by simp
  with assms show False by (simp add: takeWhile_neq_append)
qed

lemma still_AllowRate_other:
  assumes "CHR '':'' \<notin> set i" "CHR '':'' \<notin> set j" "i \<noteq> j"
  shows "still (rate_key i b) w (snd (AllowRate e j n w))"
proof -
  have "still (rate_key i b) (tick w)
      (snd (rdb_IncrExpire e (rate_key j (rate_bucket (clock e (ev w)))) (70 * Second) (tick w)))"
    by (rule still_IncrExpire) (rule rate_key_inj [OF assms])
  then show ?thesis
    by (auto simp: AllowRate_def time_Now_def split: sum.splits prod.splits dest: still_tickD)
qed

lemma ev_apply_op: "ev w \<le> ev (apply_op e s c w)"
proof (cases "\<exists>j n. c = OpAllowRate j n")
  case True
  then show ?thesis using AllowRate_keeps by (auto simp: keeps_def)
next
  case False
  then show ?thesis using still_rate_key [of c _ 0 w e s] by (auto simp: still_def)
qed

lemma ev_run_ops: "ev w \<le> ev (run_ops e s cs w)"
  by (induction cs arbitrary: w) (auto intro: order_trans [OF ev_apply_op])

lemma ev_AllowRate:
  "no_faults e \<Longrightarrow> 0 < n \<Longrightarrow> ev w + 2 \<le> ev (snd (AllowRate e i n w))"
  by (auto simp: AllowRate_def time_Now_def nofault incr_by_def
      split: sum.splits prod.splits option.splits rval.splits if_splits)

lemma rate_trace_skip:
  assumes "no_faults e" "CHR '':'' \<notin> set i" "\<nexists>n. c = OpAllowRate i n \<and> n > 0"
    and "\<forall>j n. c = OpAllowRate j n \<longrightarrow> CHR '':'' \<notin> set j"
  shows "still (rate_key i b) w (apply_op e s c w) \<and> rate_trace e s i (c # cs) w = rate_trace e s i cs (apply_op e s c w)"
proof
  show "still (rate_key i b) w (apply_op e s c w)"
  proof (cases "\<exists>j n. c = OpAllowRate j n")
    case True
    then obtain j n where c: "c = OpAllowRate j n" by blast
    show ?thesis
    proof (cases "j = i")
      case True
      with c assms(3) show ?thesis by (simp add: AllowRate_def)
    next
      case False
      with c assms(4) show ?thesis using still_AllowRate_other [OF assms(2), of j] by simp
    qed
  qed (simp add: still_rate_key)
  show "rate_trace e s i (c # cs) w = rate_trace e s i cs (apply_op e s c w)"
    using assms(3) by (auto split: op.splits)
qed

lemma rate_trace_counts:
  assumes "no_faults e" "0 \<le> b" "CHR '':'' \<notin> set i"
  shows "\<lbrakk>\<forall>j n. OpAllowRate j n \<in> set cs \<longrightarrow> CHR '':'' \<notin> set j;
      \<forall>n. ev w \<le> n \<and> n < ev (run_ops e s cs w) \<longrightarrow> minute b (clock e n);
      counter w i b j; 0 \<le> j; j + int (length cs) \<le> 2 ^ 62; m < length (rate_trace e s i cs w)\<rbrakk>
    \<Longrightarrow> snd (rate_trace e s i cs w ! m) = Inr (j + int m + 1 \<le> fst (rate_trace e s i cs w ! m))"
proof (induction cs arbitrary: w j m)
  case (Cons c cs)
  let ?w' = "apply_op e s c w"
  have later: "\<forall>n. ev ?w' \<le> n \<and> n < ev (run_ops e s cs ?w') \<longrightarrow> minute b (clock e n)"
    using Cons.prems(2) ev_apply_op [of w e s c] by auto
  have colon: "\<forall>j n. OpAllowRate j n \<in> set cs \<longrightarrow> CHR '':'' \<notin> set j" using Cons.prems(1) by auto
  show ?case
  proof (cases "\<exists>n. c = OpAllowRate i n \<and> n > 0")
    case True
    then obtain n where c: "c = OpAllowRate i n" and n: "n > 0" by blast
    then have "ev w + 2 \<le> ev (run_ops e s (c # cs) w)"
      using ev_AllowRate [OF assms(1) n, of w i] ev_run_ops [of ?w' e s cs] by simp
    then have "minute b (clock e (ev w))" "minute b (clock e (Suc (ev w)))" using Cons.prems(2) by auto
    from AllowRate_counts [OF assms(1,2) n Cons.prems(4) _ Cons.prems(3) this] Cons.prems(5)
    have A: "fst (AllowRate e i n w) = Inr (j + 1 \<le> n)" "counter ?w' i b (j + 1)" by (simp_all add: c)
    show ?thesis
    proof (cases m)
      case 0
      with A c n show ?thesis by simp
    next
      case (Suc m')
      with Cons.prems(6) c n have "m' < length (rate_trace e s i cs ?w')" by simp
      from Cons.IH [OF colon later A(2) _ _ this] Cons.prems(4,5) Suc c n show ?thesis
        by (simp add: add.commute add.left_commute)
    qed
  next
    case False
    have "\<forall>j n. c = OpAllowRate j n \<longrightarrow> CHR '':'' \<notin> set j" using Cons.prems(1) by auto
    from rate_trace_skip [OF assms(1,3) False this, of b w s cs]
    have S: "still (rate_key i b) w ?w'" "rate_trace e s i (c # cs) w = rate_trace e s i cs ?w'" by auto
    then have "counter ?w' i b j" using Cons.prems(3) counter_still by blast
    from Cons.IH [OF colon later this] Cons.prems(4-6) S(2) show ?thesis by simp
  qed
qed simp

text \<open>C26: within one minute, starting without a counter, the \<open>m\<close>-th rate check of a key is passed exactly when
  \<open>m\<close> does not exceed its limit, however other operations are interleaved.\<close>

theorem rate_limit_exact:
  assumes "no_faults e" "0 \<le> b" "CHR '':'' \<notin> set i"
    and "\<forall>j n. OpAllowRate j n \<in> set cs \<longrightarrow> CHR '':'' \<notin> set j"
    and "\<forall>n. ev w \<le> n \<and> n < ev (run_ops e s cs w) \<longrightarrow> minute b (clock e n)"
    and "redis w (rate_key i b) = None" "int (length cs) \<le> 2 ^ 62"
    and "m < length (rate_trace e s i cs w)"
  shows "snd (rate_trace e s i cs w ! m) = Inr (int (Suc m) \<le> fst (rate_trace e s i cs w ! m))"
  using rate_trace_counts [OF assms(1-5), of 0 m] assms(6-8) by (simp add: counter_def add.commute)

lemma ev_AllowRate_eq:
  "no_faults e \<Longrightarrow> 0 < n \<Longrightarrow> ev (snd (AllowRate e i n w)) = ev w + 2"
  by (auto simp: AllowRate_def time_Now_def nofault incr_by_def
      split: sum.splits prod.splits option.splits rval.splits if_splits)

theorem rate_limit_exact_witness:
  "let cs = replicate 3 (OpAllowRate ''2'' 2); tr = rate_trace demo_env demo_service ''2'' cs demo_world in
   length tr = 3 \<and> tr ! 0 = (2, Inr True) \<and> tr ! 1 = (2, Inr True) \<and> tr ! 2 = (2, Inr False)"
proof -
  let ?cs = "replicate 3 (OpAllowRate ''2'' 2)"
  let ?tr = "rate_trace demo_env demo_service ''2'' ?cs demo_world"
  have w: "redis demo_world = Map.empty" "ev demo_world = 6" by (simp_all add: demo_world_def init_world_def)
  have "ev (run_ops demo_env demo_service ?cs demo_world) = 12"
    by (simp add: numeral_eq_Suc ev_AllowRate_eq w(2) [unfolded numeral_eq_Suc])
  then have t: "\<forall>n. ev demo_world \<le> n \<and> n < ev (run_ops demo_env demo_service ?cs demo_world)
      \<longrightarrow> minute 28333334 (clock demo_env n)"
    by (auto simp: w minute_def demo_clock Second_def)
  have len: "length ?tr = 3" "m < 3 \<Longrightarrow> fst (?tr ! m) = 2" for m
    by (auto simp: numeral_eq_Suc less_Suc_eq)
  have "snd (?tr ! m) = Inr (int (Suc m) \<le> fst (?tr ! m))" if "m < 3" for m
    by (rule rate_limit_exact [OF demo_no_faults _ _ _ t]) (use that len in \<open>simp_all add: w\<close>)
  with len(2) have "?tr ! m = (2, Inr (int (Suc m) \<le> 2))" if "m < 3" for m
    using that by (simp add: prod_eq_iff)
  from this [of 0] this [of 1] this [of 2] len(1) show ?thesis by (simp add: Let_def)
qed

section \<open>Quota\<close>

text \<open>The total Postgres has for a key.\<close>

definition db_tokens :: "world \<Rightarrow> uuid \<Rightarrow> int" where
  "db_tokens w i = (case quota_totals w i of None \<Rightarrow> 0 | Some q \<Rightarrow> total_tokens q)"

text \<open>Every existing key has its totals row, and the counter in Redis, if there is one, equals the row; where
  there is none, nothing has been counted yet.\<close>

definition tok_ok :: "world \<Rightarrow> uuid \<Rightarrow> bool" where
  "tok_ok w i \<longleftrightarrow>
     (i \<in> ids w \<longrightarrow>
        quota_totals w i \<noteq> None
      \<and> (redis w (tok_key i) = None \<longrightarrow> db_tokens w i = 0)
      \<and> (\<forall>x. redis w (tok_key i) = Some x \<longrightarrow> x = (RInt (db_tokens w i), None)))"

definition quota_inv :: "env \<Rightarrow> world \<Rightarrow> bool" where
  "quota_inv e w \<longleftrightarrow>
     db_ok w \<and> (\<forall>i. tok_ok w i) \<and> ids w \<subseteq> drawn e w
   \<and> (\<forall>i. redis w (tok_key i) \<noteq> None \<longrightarrow> i \<in> drawn e w)
   \<and> (\<forall>i. redis w (cost_key i) \<noteq> None \<longrightarrow> redis w (tok_key i) \<noteq> None)"

lemma tok_key_inj [simp]: "tok_key i = tok_key j \<longleftrightarrow> i = j"
  by (simp add: tok_key_def)

lemma cost_key_inj [simp]: "cost_key i = cost_key j \<longleftrightarrow> i = j"
  by (simp add: cost_key_def)

subsection \<open>The two calls without failures\<close>

lemma quota_db_nf [nofault]:
  "no_faults e \<Longrightarrow> quota_db e i w =
     (case quota_totals w i of
        None \<Rightarrow> (Inl ErrNoRows, tick w)
      | Some q \<Rightarrow>
         (Inr (total_tokens q, pg_float e (total_cost_usd q)),
          rput (cost_key i) (RDec (fmt_f (pg_float e (total_cost_usd q))), None)
            (tick (rput (tok_key i) (RInt (total_tokens q), None) (tick (tick w))))))"
  by (auto simp: quota_db_def nofault rdb_Set_def set_expiry_def split: option.splits)

lemma AddUsage_nf:
  assumes "no_faults e" "\<not> (t = 0 \<and> c = 0)"
    and "upsert_quota e i t c (clock e (ev w)) (tick w) = (Inr (), w1)"
  shows "AddUsage e i t c w =
     (None, snd (rdb_IncrByFloat e (cost_key i) c (snd (rdb_IncrBy e (tok_key i) t w1))))"
  using assms by (auto simp: AddUsage_def nofault split: prod.splits)

lemma upsert_quota_cases:
  assumes "upsert_quota e i t c now w = (r, w1)"
  obtains err where "r = Inl err" "w1 = w"
  | q' where "r = Inr ()" "i \<in> ids w" "w1 = w\<lparr>quota_totals := (quota_totals w)(i \<mapsto> q')\<rparr>"
      "total_tokens q' = db_tokens w i + t" "quota_totals w i = None \<or> int64_range (db_tokens w i + t)"
proof (cases "\<exists>err. r = Inl err")
  case True
  with assms have "w1 = w" by (auto simp: upsert_quota_def split: option.splits if_splits)
  with True show thesis using that(1) by blast
next
  case False
  with assms have "i \<in> ids w" using find_id_None [of i w] by (auto simp: upsert_quota_def split: option.splits if_splits)
  show thesis
  proof (cases "quota_totals w i")
    case None
    with assms False \<open>i \<in> ids w\<close> show thesis
      by (intro that(2) [of "the (quota_totals w1 i)"]) (auto simp: upsert_quota_def db_tokens_def split: option.splits if_splits)
  next
    case (Some q)
    with assms False \<open>i \<in> ids w\<close> show thesis
      by (intro that(2) [of "the (quota_totals w1 i)"]) (auto simp: upsert_quota_def db_tokens_def split: option.splits if_splits)
  qed
qed

lemma upsert_quota_ok:
  assumes "\<not> isl (fst (upsert_quota e i t c now w))"
  obtains w1 where "upsert_quota e i t c now w = (Inr (), w1)" "ids w1 = ids w" "db_tokens w1 i = db_tokens w i + t"
proof -
  obtain r w1 where u: "upsert_quota e i t c now w = (r, w1)" by (cases "upsert_quota e i t c now w")
  from u show thesis
  proof (cases rule: upsert_quota_cases)
    case (1 err)
    with u assms show thesis by simp
  next
    case (2 q')
    with u show thesis by (intro that [of w1]) (simp_all add: ids_def, simp add: db_tokens_def)
  qed
qed

text \<open>C39: what the dollar check reads after the totals have been cached is the total rounded to six decimals.\<close>

theorem dollar_total_is_rounded:
  assumes "no_faults e" and "quota_totals w i = Some q" and "redis w (tok_key i) = None"
  shows "fst (quotaTotals e i w) = Inr (total_tokens q, pg_float e (total_cost_usd q))
       \<and> fst (quotaTotals e i (snd (quotaTotals e i w)))
           = Inr (total_tokens q, round64 (fmt_f (pg_float e (total_cost_usd q))))"
  using assms
  by (simp add: quotaTotals_def nofault rdb_Get_def rget_def cmd_Int64_def cmd_Float64_def redis_nil_def)

definition demo_spent :: world where
  "demo_spent = demo_world\<lparr>quota_totals := [''2'' \<mapsto> \<lparr>total_tokens = 70, total_cost_usd = 1 / 256, updated_at = 0\<rparr>]\<rparr>"

lemma demo_spent_fields [simp]:
  "quota_totals demo_spent ''2'' = Some \<lparr>total_tokens = 70, total_cost_usd = 1 / 256, updated_at = 0\<rparr>"
  "redis demo_spent = Map.empty" "ids demo_spent = {''2''}"
  by (simp_all add: demo_spent_def demo_world_def init_world_def ids_def demo_row_def)

theorem dollar_total_is_rounded_witness:
  "fst (quotaTotals demo_env ''2'' demo_spent) = Inr (70, 1 / 256)
   \<and> fst (quotaTotals demo_env ''2'' (snd (quotaTotals demo_env ''2'' demo_spent))) = Inr (70, round64 (3906 / 1000000))"
proof -
  have "pg_float demo_env (1 / 256) = 1 / 256" by code_simp
  moreover have "fmt_f (1 / 256) = 3906 / 1000000" by code_simp
  ultimately show ?thesis
    using dollar_total_is_rounded [OF demo_no_faults, of demo_spent "''2''"]
    by (simp only: demo_spent_fields quota_row.select_convs option.inject simp_thms)
qed

text \<open>C38: usage added while Redis has no counter for the key (an evicted or restarted Redis) makes the quota
  check count from zero, although Postgres has the full total.\<close>

theorem AddUsage_restarts_count:
  assumes "no_faults e" and "quota_totals w i = Some q"
    and "redis w (tok_key i) = None" "redis w (cost_key i) = None"
    and "AddUsage e i t c w = (None, w1)" and "t \<noteq> 0"
  shows "db_tokens w1 i = total_tokens q + t
       \<and> fst (AllowQuota e i (Some limit) None w1) = Inr (t < limit)"
proof -
  obtain r w0 where u: "upsert_quota e i t c (clock e (ev w)) (tick w) = (r, w0)"
    by (cases "upsert_quota e i t c (clock e (ev w)) (tick w)")
  from u show ?thesis
  proof (cases rule: upsert_quota_cases)
    case (1 err)
    with u assms show ?thesis by (simp add: AddUsage_def nofault)
  next
    case (2 q')
    with u have "upsert_quota e i t c (clock e (ev w)) (tick w) = (Inr (), w0)" by simp
    from AddUsage_nf [OF assms(1) _ this] assms(5,6)
    have w1: "w1 = snd (rdb_IncrByFloat e (cost_key i) c (snd (rdb_IncrBy e (tok_key i) t w0)))" by simp
    have q: "quota_totals w1 i = Some q'" "redis w1 (tok_key i) = Some (RInt t, None)"
      "redis w1 (cost_key i) = Some (RDec (incrbyfloat e 0 c), None)"
      using 2 assms(1,3,4) by (simp_all add: w1 rdb_IncrByFloat_def rdb_IncrBy_def nofault incr_by_def rget_def Let_def)
    then have "fst (AllowQuota e i (Some limit) None w1) = Inr (t < limit)"
      using assms(1) by (auto simp: AllowQuota_def quotaTotals_def nofault rdb_Get_def rget_def cmd_Int64_def cmd_Float64_def)
    with q(1) 2(4) assms(2) show ?thesis by (simp add: db_tokens_def)
  qed
qed

theorem AddUsage_restarts_count_witness:
  "let w1 = snd (AddUsage demo_env ''2'' 5 0 demo_spent) in
   db_tokens w1 ''2'' = 75 \<and> fst (AllowQuota demo_env ''2'' (Some 10) None w1) = Inr True"
proof -
  have "numeric_14_8 (pg_decimal demo_env 0) = Some 0" "numeric_14_8 (1 / 256) = Some (1 / 256)" by code_simp+
  moreover have "find_id ''2'' (tick demo_spent) \<noteq> None" by (simp add: find_id_None)
  ultimately have "isl (fst (upsert_quota demo_env ''2'' 5 0 (clock demo_env (ev demo_spent)) (tick demo_spent))) = False"
    by (simp add: upsert_quota_def int64_range_def)
  then have "AddUsage demo_env ''2'' 5 0 demo_spent = (None, snd (AddUsage demo_env ''2'' 5 0 demo_spent))"
    by (auto simp: AddUsage_def db_call_nf split: sum.splits prod.splits)
  from AddUsage_restarts_count [OF demo_no_faults _ _ _ this, where limit = 10] show ?thesis
    by (simp add: Let_def)
qed

subsection \<open>The counter agrees with the table\<close>

text \<open>\<open>qframe w w'\<close>: nothing the quota depends on has changed.\<close>

definition qframe :: "world \<Rightarrow> world \<Rightarrow> bool" where
  "qframe w w' \<longleftrightarrow> quota_totals w' = quota_totals w \<and> ids w' = ids w
     \<and> (\<forall>i. still (tok_key i) w w' \<and> still (cost_key i) w w')"

lemma quota_inv_qframe:
  assumes "qframe w w'" "db_ok w'" "quota_inv e w"
  shows "quota_inv e w'"
proof -
  have eq: "quota_totals w' = quota_totals w" "ids w' = ids w" "redis w' (tok_key i) = redis w (tok_key i)"
    "redis w' (cost_key i) = redis w (cost_key i)" and ev: "ev w \<le> ev w'" for i
    using assms(1) by (auto simp: qframe_def still_def)
  have "tok_ok w' i = tok_ok w i" for i by (simp add: tok_ok_def db_tokens_def eq)
  with assms(2,3) drawn_mono [OF ev, of e] show ?thesis by (auto simp: quota_inv_def eq)
qed

lemma same_tables_qframe:
  "same_tables w w' \<Longrightarrow> (\<And>i. still (tok_key i) w w' \<and> still (cost_key i) w w') \<Longrightarrow> qframe w w'"
  by (simp add: qframe_def same_tables_def ids_def)

lemma verify_db_tables: "same_tables w (snd (verify_db e s plain pre w))"
  unfolding verify_db_def find_read
  by (auto split: sum.splits prod.splits if_splits dest!: db_read rdbD(2))
     (metis same_tables_tick(2) same_tables_trans snd_conv validateKey_tables)

lemma Verify_tables: "same_tables w (snd (Verify e s plain w))"
  using verify_db_tables validateKey_tables
  by (auto simp: Verify_def Let_def split: sum.splits prod.splits rval.splits if_splits dest!: rdbD(1))
     (metis same_tables_trans snd_conv)+

lemma ev_still: "still k w w' \<Longrightarrow> ev w \<le> ev w'"
  by (simp add: still_def)

lemma neq_keys:
  "tok_key i \<noteq> verify_key p" "cost_key i \<noteq> verify_key p" "rate_key i b \<noteq> tok_key j" "rate_key i b \<noteq> cost_key j"
  using redis_keys_distinct by metis+

lemma write_qframe:
  assumes "no_faults e" "\<And>k. ID (f k) = ID k" "\<And>k. Prefix (f k) = Prefix k"
  shows "qframe w (snd (after_write e i (update_rows i f (tick w))))" (is "qframe w ?w'")
proof -
  let ?w1 = "snd (update_rows i f (tick w))"
  have "same_tables ?w1 ?w'"
    using invalidateCache_tables by (auto simp: after_write_def split: sum.splits prod.splits)
  then have "quota_totals ?w' = quota_totals w" "ids ?w' = ids w"
    using ids_update [OF assms(2), of i "tick w"] by (auto simp: same_tables_def ids_def update_rows_def)
  moreover have "still (tok_key j) w ?w'" "still (cost_key j) w ?w'" for j
    by (simp_all add: still_after_write neq_keys still_def [of _ w "snd (update_rows i f (tick w))"])
  ultimately show ?thesis by (simp add: qframe_def)
qed

lemma still_AllowRate:
  assumes "\<And>b. k \<noteq> rate_key i b"
  shows "still k w (snd (AllowRate e i n w))"
proof -
  have "still k (tick w) (snd (rdb_IncrExpire e (rate_key i (rate_bucket (clock e (ev w)))) (70 * Second) (tick w)))"
    by (rule still_IncrExpire) (rule assms)
  then show ?thesis
    by (auto simp: AllowRate_def time_Now_def split: sum.splits prod.splits dest: still_tickD)
qed

lemma AllowRate_qframe: "qframe w (snd (AllowRate e i n w))"
  by (rule same_tables_qframe [OF AllowRate_tables]) (simp add: still_AllowRate)

lemma Update_qframe: "no_faults e \<Longrightarrow> qframe w (snd (Update e i p w))"
  using write_qframe [of e _ w i]
  by (auto simp: Update_def nofault params_write after_write_def [of _ _ "(Inl _, _)"] qframe_def split: option.splits)

lemma reads_qframe: "qframe w (snd (ListKeys e w))" "qframe w (snd (Get e i w))" "qframe w (snd (get_Stats e w))"
proof -
  have "same_tables w (snd (ListKeys e w))" "same_tables w (snd (Get e i w))" "same_tables w (snd (get_Stats e w))"
    unfolding ListKeys_def Get_def get_Stats_def find_read Let_def
    by (auto simp: db_call_def split: sum.splits prod.splits option.splits)
  then show "qframe w (snd (ListKeys e w))" "qframe w (snd (Get e i w))" "qframe w (snd (get_Stats e w))"
    by (auto intro!: same_tables_qframe simp: still_reads)
qed

lemma quiet_op_qframe:
  assumes "no_faults e" and "\<And>p. c \<noteq> OpIssue p" "\<And>i. c \<noteq> OpDelete i" "\<And>i tq dq. c \<noteq> OpAllowQuota i tq dq"
    "\<And>i t d. c \<noteq> OpAddUsage i t d"
  shows "qframe w (apply_op e s c w)"
proof (cases c)
  case (OpVerify plain)
  then show ?thesis by (auto intro!: same_tables_qframe [OF Verify_tables] still_Verify simp: neq_keys)
next
  case (OpTouch i)
  then show ?thesis
    using assms(1) ids_update [of "\<lambda>k. k\<lparr>LastUsedAt := Some (clock e (ev w))\<rparr>" i "tick w"]
    by (simp add: TouchLastUsed_def nofault qframe_def still_def) (simp add: update_rows_def)
next
  case (OpSetActive i a)
  then show ?thesis using assms(1) by (simp add: SetActive_def nofault write_qframe)
next
  case (OpRecord r)
  then show ?thesis using assms(1)
    by (auto simp: RecordRequest_world nofault qframe_def still_def insert_usage_def Let_def split: option.splits)
qed (use assms in \<open>simp_all add: reads_qframe AllowRate_qframe Update_qframe\<close>)

lemma Delete_quota_inv:
  assumes "no_faults e" "quota_inv e w"
  shows "quota_inv e (snd (Delete e i w))"
proof (cases "i \<in> ids w")
  case False
  then have "qframe w (snd (Delete e i w))" using assms(1) by (simp add: Delete_nf qframe_def still_def)
  moreover have "db_ok (snd (Delete e i w))" using apply_op_db_ok [of w e _ "OpDelete i"] assms(2) by (simp add: quota_inv_def)
  ultimately show ?thesis using assms(2) by (rule quota_inv_qframe)
next
  case True
  define w' where "w' = tick (snd (delete_rows i (tick w)))"
  have w': "ids w' = ids w - {i}" "quota_totals w' = (quota_totals w)(i := None)" "redis w' = redis w" "ev w \<le> ev w'"
    using True by (auto simp: w'_def delete_rows_def Let_def matching_rows ids_def)
  have "db_ok w'" using assms(2) by (simp add: w'_def quota_inv_def delete_rows_db_ok)
  moreover have "db_tokens w' j = db_tokens w j" if "j \<noteq> i" for j using that by (simp add: db_tokens_def w'(2))
  then have "tok_ok w' j" if "tok_ok w j" for j using that by (auto simp: tok_ok_def w'(1-3))
  ultimately have "quota_inv e w'"
    using assms(2) drawn_mono [OF w'(4), of e] by (auto simp: quota_inv_def w'(1,3))
  with True assms(1) show ?thesis by (simp add: Delete_nf w'_def)
qed

lemma quota_inv_tick: "quota_inv e w \<Longrightarrow> quota_inv e (tick w)"
  by (rule quota_inv_qframe [of w]) (simp_all add: qframe_def quota_inv_def)

text \<open>Writing the counter of an existing key with its total, and anything to its cost.\<close>

lemma quota_inv_write:
  assumes inv: "quota_inv e w" and i: "i \<in> ids w" and q: "quota_totals w i = Some q"
    and t: "total_tokens q' = t"
    and w': "ids w' = ids w" "quota_totals w' = (quota_totals w)(i \<mapsto> q')" "db_ok w'" "ev w \<le> ev w'"
      "redis w' = (redis w)(tok_key i \<mapsto> (RInt t, None), cost_key i \<mapsto> x)"
  shows "quota_inv e w'"
proof -
  have r: "redis w' (tok_key j) = (if j = i then Some (RInt t, None) else redis w (tok_key j))"
    "redis w' (cost_key j) = (if j = i then Some x else redis w (cost_key j))" for j
    by (simp_all add: w'(5))
  have "db_tokens w' j = (if j = i then t else db_tokens w j)" for j by (simp add: db_tokens_def w'(2) t)
  then have "tok_ok w' j" if "tok_ok w j" for j using that by (auto simp: tok_ok_def w'(1,2) r)
  with inv i w'(3) drawn_mono [OF w'(4), of e] show ?thesis by (auto simp: quota_inv_def w'(1) r)
qed

lemma quota_db_quota_inv:
  assumes "no_faults e" "quota_inv e w"
  shows "quota_inv e (snd (quota_db e i w))"
proof (cases "quota_totals w i")
  case None
  with assms show ?thesis by (simp add: quota_db_nf quota_inv_tick)
next
  case (Some q)
  define w' where "w' = snd (quota_db e i w)"
  have i: "i \<in> ids w" using Some assms(2) by (auto simp: quota_inv_def db_ok_def)
  have ok: "db_ok w'" using assms(2) by (simp add: w'_def quota_inv_def quota_db_db_ok)
  have nf: "w' = rput (cost_key i) (RDec (fmt_f (pg_float e (total_cost_usd q))), None)
            (tick (rput (tok_key i) (RInt (total_tokens q), None) (tick (tick w))))"
    using assms(1) Some by (simp add: w'_def quota_db_nf)
  have "quota_totals w' = (quota_totals w)(i \<mapsto> q)" using Some by (simp add: nf fun_upd_idem)
  moreover have "ids w' = ids w" "ev w \<le> ev w'" by (simp_all add: nf ids_def)
  moreover have "redis w' = (redis w)(tok_key i \<mapsto> (RInt (total_tokens q), None),
      cost_key i \<mapsto> (RDec (fmt_f (pg_float e (total_cost_usd q))), None))" by (simp add: nf)
  ultimately show ?thesis
    using quota_inv_write [OF assms(2) i Some refl _ _ ok] by (simp add: w'_def)
qed

lemma quotaTotals_quota_inv:
  assumes "no_faults e" "quota_inv e w"
  shows "quota_inv e (snd (quotaTotals e i w))"
  using assms quota_db_quota_inv [OF assms(1)] quota_inv_tick
  by (simp add: quotaTotals_def rdb_call_nf rdb_Get_def split: sum.splits)

lemma IncrByFloat_shape:
  assumes "no_faults e"
  obtains "snd (rdb_IncrByFloat e k c w) = tick w" "redis w k \<noteq> None"
  | x where "snd (rdb_IncrByFloat e k c w) = rput k x (tick w)"
proof (cases "rget (clock e (ev w)) w k")
  case None
  with assms show thesis by (intro that(2)) (simp add: rdb_IncrByFloat_def rdb_call_nf Let_def)
next
  case (Some x)
  then obtain v d where x: "rget (clock e (ev w)) w k = Some (v, d)" "redis w k = Some (v, d)"
    by (cases x) (auto simp: rget_Some)
  show thesis
  proof (cases v)
    case (REntry c)
    with x assms show thesis by (intro that(1)) (simp_all add: rdb_IncrByFloat_def rdb_call_nf)
  qed (use x assms in \<open>(intro that(2), simp add: rdb_IncrByFloat_def rdb_call_nf Let_def)+\<close>)
qed

lemma AddUsage_quota_inv:
  assumes nf: "no_faults e" and inv: "quota_inv e w"
  shows "quota_inv e (snd (AddUsage e i t c w))"
proof (cases "t = 0 \<and> c = 0")
  case True
  with inv show ?thesis by (simp add: AddUsage_def)
next
  case False
  define w' where "w' = snd (AddUsage e i t c w)"
  obtain r w1 where u: "upsert_quota e i t c (clock e (ev w)) (tick w) = (r, w1)"
    by (cases "upsert_quota e i t c (clock e (ev w)) (tick w)")
  from u show ?thesis
  proof (cases rule: upsert_quota_cases)
    case (1 err)
    with u False nf inv show ?thesis by (simp add: AddUsage_def db_call_nf quota_inv_tick)
  next
    case (2 q')
    then have i: "i \<in> ids w" and q': "total_tokens q' = db_tokens w i + t" by (simp_all add: db_tokens_def)
    have tok: "tok_ok w i" using inv by (simp add: quota_inv_def)
    with i obtain q where q: "quota_totals w i = Some q" by (auto simp: tok_ok_def)
    with 2 have range: "int64_range (db_tokens w i + t)" by (simp add: db_tokens_def)
    define w2 where "w2 = rput (tok_key i) (RInt (db_tokens w i + t), None) (tick w1)"
    have r1: "redis w1 = redis w" using 2(3) by simp
    have "snd (rdb_IncrBy e (tok_key i) t w1) = w2"
      using tok i nf range
      by (cases "redis w (tok_key i)") (auto simp: tok_ok_def rdb_IncrBy_def rdb_call_nf incr_by_def rget_def w2_def r1)
    then have w': "w' = snd (rdb_IncrByFloat e (cost_key i) c w2)"
      using AddUsage_nf [OF nf False] u 2 by (simp add: w'_def)
    have 0: "ids w1 = ids w" "ev w1 = Suc (ev w)" "quota_totals w1 = (quota_totals w)(i \<mapsto> q')"
      using 2(3) by (simp_all add: ids_def)
    have ok: "db_ok w'" using AddUsage_db_ok inv by (simp add: w'_def quota_inv_def)
    from nf have "\<exists>x. redis w' = (redis w)(tok_key i \<mapsto> (RInt (db_tokens w i + t), None), cost_key i \<mapsto> x)
        \<and> ids w' = ids w \<and> ev w \<le> ev w' \<and> quota_totals w' = (quota_totals w)(i \<mapsto> q')"
    proof (cases rule: IncrByFloat_shape [of e "cost_key i" c w2])
      case 1
      from 1(2) obtain x where "redis w (cost_key i) = Some x" by (auto simp: w2_def r1)
      then have "redis w' = (redis w)(tok_key i \<mapsto> (RInt (db_tokens w i + t), None), cost_key i \<mapsto> x)"
        using 1(1) by (auto simp: w' w2_def r1 fun_eq_iff)
      with 1(1) show ?thesis by (intro exI [of _ x]) (simp add: w' w2_def 0)
    next
      case (2 x)
      then show ?thesis by (intro exI [of _ x]) (simp add: w' w2_def 0 r1)
    qed
    then show ?thesis using quota_inv_write [OF inv i q q' _ _ ok] by (auto simp: w'_def)
  qed
qed

lemma Issue_quota_inv:
  assumes "no_faults e" "fresh_uuids e" "quota_inv e w"
  shows "quota_inv e (snd (Issue e s p w))"
proof (cases "TrimSpace (p_Owner p) = []")
  case True
  with assms(3) show ?thesis by (simp add: Issue_def)
next
  case False
  let ?i = "uuid_New e (ev w + 2)" and ?w0 = "(tick ^^ 4) w"
  obtain r w1 where ins: "insert_key e ?i (prefixOf s (issued_plain e s w)) (issued_hash e s w) p
      (clock e (ev w + 3)) ?w0 = (r, w1)"
    by (cases "insert_key e ?i (prefixOf s (issued_plain e s w)) (issued_hash e s w) p (clock e (ev w + 3)) ?w0")
  note I = Issue_insert [OF assms(1) False ins]
  have ok: "db_ok (snd (Issue e s p w))" using Issue_db_ok assms(3) by (simp add: quota_inv_def)
  from ins show ?thesis
  proof (cases rule: insert_key_cases)
    case (1 err)
    moreover have "quota_inv e ?w0" using assms(3) quota_inv_tick by (simp add: numeral_eq_Suc)
    ultimately show ?thesis using I by simp
  next
    case (2 dq)
    define w' where "w' = tick (snd (insert_quota ?i (clock e (ev w1)) (tick w1)))"
    have new: "?i \<notin> drawn e w" using assms(2) by (auto simp: drawn_def fresh_uuids_def dest!: injD)
    with assms(3) have old: "?i \<notin> ids w" "redis w (tok_key ?i) = None" "quota_totals w ?i = None"
      by (auto simp: quota_inv_def db_ok_def)
    have "ids w1 = insert ?i (ids w)" "quota_totals w1 = quota_totals w" "redis w1 = redis w" "ev w1 = ev w + 4"
      using 2 by (simp_all add: ids_def numeral_eq_Suc)
    then have w': "ids w' = insert ?i (ids w)" "redis w' = redis w" "ev w \<le> ev w'"
      "\<exists>q. total_tokens q = 0 \<and> quota_totals w' = (quota_totals w)(?i \<mapsto> q)" "?i \<in> drawn e w'"
      using old(3) find_id_None [of ?i w1]
      by (auto simp: w'_def insert_quota_def ids_def drawn_def find_id_def)
         (metis quota_row.select_convs(1))
    have "db_ok w'" using ok I 2 by (simp add: w'_def Let_def)
    moreover have "tok_ok w' j" for j
      using w'(4) assms(3) old by (auto simp: tok_ok_def db_tokens_def w'(1,2) quota_inv_def)
    ultimately have "quota_inv e w'"
      using assms(3) w'(5) drawn_mono [OF w'(3), of e] by (auto simp: quota_inv_def w'(1,2))
    with I 2 show ?thesis by (simp add: w'_def Let_def)
  qed
qed

lemma apply_op_quota_inv:
  assumes "no_faults e" "fresh_uuids e" "quota_inv e w"
  shows "quota_inv e (apply_op e s c w)"
proof (cases "(\<forall>p. c \<noteq> OpIssue p) \<and> (\<forall>i. c \<noteq> OpDelete i) \<and> (\<forall>i tq dq. c \<noteq> OpAllowQuota i tq dq)
    \<and> (\<forall>i t d. c \<noteq> OpAddUsage i t d)")
  case True
  then have "qframe w (apply_op e s c w)" using assms(1) by (intro quiet_op_qframe) blast+
  moreover have "db_ok (apply_op e s c w)" using assms(3) by (simp add: apply_op_db_ok quota_inv_def)
  ultimately show ?thesis using assms(3) by (rule quota_inv_qframe)
next
  case False
  then show ?thesis
    using assms by (auto simp: AllowQuota_world quotaTotals_quota_inv Issue_quota_inv Delete_quota_inv AddUsage_quota_inv)
qed

lemma run_ops_quota_inv:
  "no_faults e \<Longrightarrow> fresh_uuids e \<Longrightarrow> quota_inv e w \<Longrightarrow> quota_inv e (run_ops e s cs w)"
  by (induction cs arbitrary: w) (auto simp: apply_op_quota_inv)

lemma quota_inv_init: "quota_inv e init_world"
  using db_ok_init by (simp add: quota_inv_def tok_ok_def init_world_def ids_def)

lemma quotaTotals_tokens:
  assumes "no_faults e" "quota_inv e w" "i \<in> ids w"
  shows "\<exists>c. fst (quotaTotals e i w) = Inr (db_tokens w i, c)"
proof -
  have tok: "tok_ok w i" using assms(2) by (simp add: quota_inv_def)
  with assms(3) obtain q where q: "quota_totals w i = Some q" by (auto simp: tok_ok_def)
  then have db: "\<exists>c. fst (quota_db e i w') = Inr (db_tokens w i, c)" if "quota_totals w' = quota_totals w" for w'
    using that assms(1) by (simp add: quota_db_nf db_tokens_def)
  then show ?thesis
    using tok assms(1,3)
    by (cases "redis w (tok_key i)")
       (auto simp: quotaTotals_def rdb_Get_def rdb_call_nf rget_def cmd_Int64_def tok_ok_def split: sum.splits)
qed

text \<open>C25: after any sequence of operations from an empty system in which no service call fails, the token quota
  check of an existing key passes exactly when the tokens recorded for it in Postgres are below the quota.\<close>

theorem AllowQuota_exact:
  assumes "no_faults e" "fresh_uuids e" "w = run_ops e s cs init_world" "i \<in> ids w"
  shows "fst (AllowQuota e i (Some quota) None w) = Inr (db_tokens w i < quota)"
proof -
  have "quota_inv e w" unfolding assms(3) by (rule run_ops_quota_inv [OF assms(1,2) quota_inv_init])
  from quotaTotals_tokens [OF assms(1) this assms(4)] show ?thesis
    by (auto simp: AllowQuota_def split: prod.splits)
qed

theorem AllowQuota_exact_witness:
  "let w = run_ops demo_env demo_service demo_ops init_world in
   ''2'' \<in> ids w \<and> db_tokens w ''2'' = 10
   \<and> fst (AllowQuota demo_env ''2'' (Some 10) None w) = Inr False
   \<and> fst (AllowQuota demo_env ''2'' (Some 11) None w) = Inr True"
proof -
  define w where "w = run_ops demo_env demo_service demo_ops init_world"
  have ops: "w = snd (AddUsage demo_env ''2'' 10 0 demo_cached)"
    using demo_Issue demo_Verify by (simp add: w_def demo_ops_def demo_plain_def)
  have "numeric_14_8 (pg_decimal demo_env 0) = Some 0" "numeric_14_8 0 = Some 0" by code_simp+
  moreover have "find_id ''2'' (tick demo_cached) \<noteq> None" by (simp add: find_id_None)
  moreover have "quota_totals demo_cached ''2'' = Some \<lparr>total_tokens = 0, total_cost_usd = 0, updated_at = 1700000040004000000\<rparr>"
    by (simp add: demo_cached_def demo_world_def)
  ultimately have "\<not> isl (fst (upsert_quota demo_env ''2'' 10 0 (clock demo_env (ev demo_cached)) (tick demo_cached)))"
    "db_tokens (tick demo_cached) ''2'' = 0"
    by (simp_all add: upsert_quota_def int64_range_def db_tokens_def)
  then obtain w1 where u: "upsert_quota demo_env ''2'' 10 0 (clock demo_env (ev demo_cached)) (tick demo_cached) = (Inr (), w1)"
    "ids w1 = {''2''}" "db_tokens w1 ''2'' = 10"
    by (elim upsert_quota_ok) simp
  from AddUsage_nf [OF demo_no_faults _ this(1)] have "same_tables w1 w"
    using rdb_tables(4,6) same_tables_trans by (simp add: ops) blast
  with u have w: "''2'' \<in> ids w" "db_tokens w ''2'' = 10" by (auto simp: same_tables_def ids_def db_tokens_def)
  from AllowQuota_exact [OF demo_no_faults demo_fresh_uuids w_def w(1)] w show ?thesis
    by (simp add: Let_def w_def [symmetric])
qed

end
