(* ===== verification/Upstream_Props.thy ===== *)
theory Upstream_Props
  imports Upstream
begin

text \<open>
  The theorems about the upstream key: the table has at most one active row whatever fails, a successful
  rotation is what every replica serves after its next refresh, a failed one leaves the served key alone,
  and the masked prefix shown to administrators depends on nothing but the length and sixteen bytes.
\<close>

section \<open>The transaction\<close>

lemma db_call_cases:
  assumes "db_call e f w = (r, w')"
  obtains m where "r = Inl (Err m)" "w' = tick w" | "f (clock e (ev w)) (tick w) = (r, w')"
  using assms by (auto simp: db_call_def split: option.splits)

lemma retired_sel [simp]:
  "\<not> up_active (retired now r)" "up_id (retired now r) = up_id r"
  by (simp_all add: retired_def)

lemma no_active_retired [simp]: "find up_active (map (retired now) rs) = None"
  by (simp add: find_None_iff)

definition new_row :: "int \<Rightarrow> string \<Rightarrow> string \<Rightarrow> string \<Rightarrow> time \<Rightarrow> upstream_row" where
  "new_row i enc pre note now =
     \<lparr>up_id = i, up_encrypted = enc, up_prefix = pre, up_note = note, up_active = True, up_created_at = now, up_retired_at = None\<rparr>"

lemma new_row_sel [simp]:
  "up_active (new_row i enc pre note now)" "up_encrypted (new_row i enc pre note now) = enc"
  "up_prefix (new_row i enc pre note now) = pre" "up_created_at (new_row i enc pre note now) = now"
  "up_id (new_row i enc pre note now) = i" "up_retired_at (new_row i enc pre note now) = None"
  by (simp_all add: new_row_def)

lemma rotate_tx_cases:
  assumes "rotate_tx e enc pre note w = (r, w')"
  obtains err where "r = Inl err" "upstream_keys w' = upstream_keys w" "upstream_seq w \<le> upstream_seq w'"
  | now where "r = Inr ()" "upstream_seq w' = upstream_seq w + 1"
      "upstream_keys w' = map (retired now) (upstream_keys w) @ [new_row (upstream_seq w) enc pre note now]"
proof (cases r)
  case (Inl err)
  with assms have "upstream_keys w' = upstream_keys w \<and> upstream_seq w \<le> upstream_seq w'"
    by (auto simp: rotate_tx_def rollback_def retire_active_def insert_active_def Let_def db_call_def
        split: sum.splits prod.splits option.splits if_splits)
  with Inl show thesis using that(1) by blast
next
  case (Inr u)
  with assms show thesis
    by (auto simp: rotate_tx_def rollback_def retire_active_def insert_active_def Let_def db_call_def new_row_def
        split: sum.splits prod.splits option.splits if_splits intro!: that(2))
qed

section \<open>Encryption\<close>

text \<open>What the code relies on: \<open>Open\<close> undoes \<open>Seal\<close>, and \<open>rand.Read\<close> fills its buffer.\<close>

definition aead_ok :: "AEAD \<Rightarrow> bool" where
  "aead_ok g \<longleftrightarrow> (\<forall>nonce plain. length nonce = NonceSize g \<longrightarrow> Open g nonce (Seal g nonce plain) = Some plain)"

definition rand_ok :: "env \<Rightarrow> bool" where
  "rand_ok e \<longleftrightarrow> (\<forall>n k. length (rand_bytes e n k) = k)"

lemma decrypt_encrypt:
  assumes "aead_ok (gcm s)" "gcm s' = gcm s" "rand_ok e" "encrypt e s plain w = (Inr enc, w')"
  shows "decrypt s' enc = Inr plain"
  using assms by (auto simp: encrypt_def decrypt_def aead_ok_def rand_ok_def rand_Read_def split: sum.splits prod.splits option.splits)

lemma encrypt_tables: "encrypt e s plain w = (r, w') \<Longrightarrow> upstream_keys w' = upstream_keys w \<and> upstream_seq w' = upstream_seq w"
  by (auto simp: encrypt_def rand_Read_def split: sum.splits prod.splits option.splits)

lemma refresh_tables:
  "refresh e s w = (r, s', w') \<Longrightarrow> upstream_keys w' = upstream_keys w \<and> upstream_seq w' = upstream_seq w \<and> gcm s' = gcm s"
  by (auto simp: refresh_def db_call_def split: sum.splits prod.splits option.splits)

text \<open>The two outcomes of a refresh.\<close>

lemma refresh_cases:
  assumes "refresh e s w = (r, s', w')"
  obtains err where "r = Some err" "s' = s"
  | row plain where "r = None" "find up_active (upstream_keys w) = Some row" "decrypt s (up_encrypted row) = Inr plain"
      "s' = s\<lparr>cache := Some \<lparr>snap_plain = plain, snap_prefix = up_prefix row, snap_createdAt = up_created_at row\<rparr>\<rparr>"
proof (cases "db_fault e (ev w) = None \<and> (\<exists>row plain. find up_active (upstream_keys w) = Some row
    \<and> decrypt s (up_encrypted row) = Inr plain)")
  case True
  then obtain row plain where "db_fault e (ev w) = None" "find up_active (upstream_keys w) = Some row"
    "decrypt s (up_encrypted row) = Inr plain" by blast
  with assms show thesis by (intro that(2) [of row plain]) (simp_all add: refresh_def db_call_def)
next
  case False
  with assms have "s' = s \<and> r \<noteq> None"
    by (auto simp: refresh_def db_call_def split: sum.splits option.splits)
  then show thesis using that(1) by blast
qed

text \<open>The outcomes of a rotation: rejected or rolled back, or committed and then refreshed.\<close>

lemma Set_cases:
  assumes "Set e s plain note w = (r, s', w')"
  obtains err where "r = Some err" "s' = s" "upstream_keys w' = upstream_keys w" "upstream_seq w \<le> upstream_seq w'"
  | enc v w1 now where "HasPrefix (TrimSpace plain) ''sk-''" "encrypt e s (TrimSpace plain) w = (Inr enc, v)"
      "rotate_tx e enc (maskPrefix (TrimSpace plain)) note v = (Inr (), w1)"
      "upstream_keys w1 = map (retired now) (upstream_keys w)
         @ [new_row (upstream_seq w) enc (maskPrefix (TrimSpace plain)) note now]"
      "upstream_seq w1 = upstream_seq w + 1" "refresh e s w1 = (r, s', w')"
proof (cases "TrimSpace plain = [] \<or> \<not> HasPrefix (TrimSpace plain) ''sk-''")
  case True
  with assms have "r \<noteq> None" "s' = s" "w' = w" by (auto simp: Set_def Let_def split: if_splits)
  then show thesis using that(1) by auto
next
  case False
  obtain re v where enc: "encrypt e s (TrimSpace plain) w = (re, v)" by (cases "encrypt e s (TrimSpace plain) w")
  show thesis
  proof (cases re)
    case (Inl err)
    with False enc assms have "r = Some err" "s' = s" "w' = v" by (auto simp: Set_def Let_def)
    with encrypt_tables [OF enc] show thesis using that(1) by auto
  next
    case (Inr c)
    obtain rt w1 where tx: "rotate_tx e c (maskPrefix (TrimSpace plain)) note v = (rt, w1)"
      by (cases "rotate_tx e c (maskPrefix (TrimSpace plain)) note v")
    then show thesis
    proof (cases rule: rotate_tx_cases)
      case (1 err)
      with False enc Inr tx assms have "r = Some err" "s' = s" "w' = w1" by (auto simp: Set_def Let_def)
      with 1 encrypt_tables [OF enc] show thesis using that(1) by auto
    next
      case (2 now)
      with False enc Inr tx assms encrypt_tables [OF enc] show thesis
        by (intro that(2)) (auto simp: Set_def Let_def)
    qed
  qed
qed

subsection \<open>A concrete store\<close>

definition demo_aead :: AEAD where
  "demo_aead = \<lparr>NonceSize = 12, Seal = (\<lambda>nonce p. nonce @ p),
     Open = (\<lambda>nonce c. if take 12 c = nonce then Some (drop 12 c) else None)\<rparr>"

definition demo_store :: UpstreamStore where
  "demo_store = \<lparr>gcm = demo_aead, cache = None\<rparr>"

definition empty_world :: world where
  "empty_world = \<lparr>ev = 0, api_keys = [], quota_totals = Map.empty, usage_records = [], upstream_keys = [],
     upstream_seq = 1, redis = Map.empty\<rparr>"

definition demo_Set :: "error option \<times> UpstreamStore \<times> world" where
  "demo_Set = Set demo_env demo_store '' sk-abc '' ''first'' empty_world"

lemma demo_aead_ok [simp]: "aead_ok demo_aead" "aead_ok (gcm demo_store)" "rand_ok demo_env"
  by (auto simp: aead_ok_def demo_aead_def demo_store_def rand_ok_def demo_env_def)

lemma demo_trim: "TrimSpace '' sk-abc '' = ''sk-abc''" "HasPrefix ''sk-abc'' ''sk-''"
  by code_simp+

lemma demo_empty [simp]: "upstream_keys empty_world = []" "gcm demo_store = demo_aead" "cache demo_store = None"
  by (simp_all add: empty_world_def demo_store_def)

section \<open>The table invariant\<close>

definition table_ok :: "world \<Rightarrow> bool" where
  "table_ok w \<longleftrightarrow>
     length (filter up_active (upstream_keys w)) \<le> 1
   \<and> (\<forall>r \<in> set (upstream_keys w). up_active r = (up_retired_at r = None))
   \<and> distinct (map up_id (upstream_keys w))
   \<and> (\<forall>r \<in> set (upstream_keys w). up_id r < upstream_seq w)"

lemma table_ok_seq:
  "table_ok w \<Longrightarrow> upstream_keys w' = upstream_keys w \<Longrightarrow> upstream_seq w \<le> upstream_seq w' \<Longrightarrow> table_ok w'"
  by (auto simp: table_ok_def)

lemma filter_retired [simp]: "filter up_active (map (retired now) rs) = []"
  by (auto simp: filter_empty_conv)

lemma rotate_tx_table_ok:
  assumes "table_ok w" "rotate_tx e enc pre note w = (r, w')"
  shows "table_ok w'"
  using assms(2)
proof (cases rule: rotate_tx_cases)
  case (1 err)
  with assms(1) show ?thesis by (auto intro: table_ok_seq)
next
  case (2 now)
  have "map up_id (map (retired now) (upstream_keys w)) = map up_id (upstream_keys w)" by simp
  with assms(1) 2 show ?thesis
    by (auto simp: table_ok_def retired_def image_image simp del: map_map)
qed

lemma Set_table_ok:
  assumes "table_ok w" "Set e s plain note w = (r, s', w')"
  shows "table_ok w'"
  using assms(2)
proof (cases rule: Set_cases)
  case (1 err)
  with assms(1) show ?thesis by (auto intro: table_ok_seq)
next
  case (2 enc v w1 now)
  have "table_ok v" using assms(1) encrypt_tables [OF 2(2)] by (auto intro: table_ok_seq)
  then have "table_ok w1" using 2(3) by (rule rotate_tx_table_ok)
  with refresh_tables [OF 2(6)] show ?thesis by (auto intro: table_ok_seq)
qed

section \<open>Several replicas\<close>

text \<open>Any number of replicas share the table; each has its own snapshot.\<close>

datatype uop = USet string string | UBootstrap string | UTick

fun apply_uop :: "env \<Rightarrow> uop \<Rightarrow> UpstreamStore \<Rightarrow> world \<Rightarrow> error option \<times> UpstreamStore \<times> world" where
  "apply_uop e (USet plain note) s w = Set e s plain note w"
| "apply_uop e (UBootstrap fallback) s w = Bootstrap e s fallback w"
| "apply_uop e UTick s w = refresher_tick e s w"

inductive ustep :: "env \<Rightarrow> (nat \<Rightarrow> UpstreamStore) \<times> world \<Rightarrow> (nat \<Rightarrow> UpstreamStore) \<times> world \<Rightarrow> bool" for e where
  ustep: "apply_uop e c (R i) w = (r, s', w') \<Longrightarrow> ustep e (R, w) (R(i := s'), w')"

inductive_cases ustepE: "ustep e (R, w) x"

definition ustart :: "AEAD \<Rightarrow> (nat \<Rightarrow> UpstreamStore) \<times> world \<Rightarrow> bool" where
  "ustart g x \<longleftrightarrow> upstream_keys (snd x) = [] \<and> (\<forall>i. fst x i = \<lparr>gcm = g, cache = None\<rparr>)"

text \<open>A store operation is a sequence of the two primitive ones.\<close>

inductive prim :: "env \<Rightarrow> UpstreamStore \<times> world \<Rightarrow> UpstreamStore \<times> world \<Rightarrow> bool" for e where
  prim_refresh: "refresh e s w = (r, s', w') \<Longrightarrow> prim e (s, w) (s', w')"
| prim_Set: "Set e s plain note w = (r, s', w') \<Longrightarrow> prim e (s, w) (s', w')"

inductive_cases primE: "prim e (s, w) x"

lemma Bootstrap_prims:
  assumes "Bootstrap e s fallback w = (r, s', w')"
  shows "(prim e)\<^sup>*\<^sup>* (s, w) (s', w')"
proof -
  obtain r1 s1 w1 where 1: "refresh e s w = (r1, s1, w1)" by (cases "refresh e s w")
  obtain r2 s2 w2 where 2: "Set e s1 fallback ''imported from env on first boot'' w1 = (r2, s2, w2)"
    by (cases "Set e s1 fallback ''imported from env on first boot'' w1")
  obtain r3 s3 w3 where 3: "refresh e s2 w2 = (r3, s3, w3)" by (cases "refresh e s2 w2")
  have a: "(prim e)\<^sup>*\<^sup>* (s, w) (s1, w1)" using prim_refresh [OF 1] by blast
  then have b: "(prim e)\<^sup>*\<^sup>* (s, w) (s2, w2)" using prim_Set [OF 2] by (rule rtranclp.rtrancl_into_rtrancl)
  then have c: "(prim e)\<^sup>*\<^sup>* (s, w) (s3, w3)" using prim_refresh [OF 3] by (rule rtranclp.rtrancl_into_rtrancl)
  have "(s', w') = (s1, w1) \<or> (s', w') = (s2, w2) \<or> (s', w') = (s3, w3)"
    using assms 1 2 3 by (auto simp: Bootstrap_def split: option.splits if_splits)
  with a b c show ?thesis by metis
qed

lemma apply_uop_prims: "apply_uop e c s w = (r, s', w') \<Longrightarrow> (prim e)\<^sup>*\<^sup>* (s, w) (s', w')"
proof (cases c)
  case UTick
  moreover assume "apply_uop e c s w = (r, s', w')"
  ultimately have "\<exists>r. refresh e s w = (r, s', w')" by (auto simp: refresher_tick_def split: option.splits prod.splits)
  then show ?thesis by (auto intro: prim_refresh)
qed (auto intro: prim_Set Bootstrap_prims)

text \<open>A key the store may serve; a row that holds one; a snapshot that shows one.\<close>

definition servable :: "string \<Rightarrow> bool" where
  "servable p \<longleftrightarrow> HasPrefix p ''sk-'' \<and> TrimSpace p = p"

definition row_holds :: "AEAD \<Rightarrow> upstream_row \<Rightarrow> string \<Rightarrow> bool" where
  "row_holds g r p \<longleftrightarrow> decrypt \<lparr>gcm = g, cache = None\<rparr> (up_encrypted r) = Inr p \<and> up_prefix r = maskPrefix p"

definition store_ok :: "AEAD \<Rightarrow> UpstreamStore \<times> world \<Rightarrow> bool" where
  "store_ok g x \<longleftrightarrow>
     table_ok (snd x) \<and> (\<forall>r \<in> set (upstream_keys (snd x)). \<exists>p. servable p \<and> row_holds g r p)
   \<and> gcm (fst x) = g
   \<and> (\<forall>snap. cache (fst x) = Some snap \<longrightarrow> servable (snap_plain snap) \<and> snap_prefix snap = maskPrefix (snap_plain snap))"

lemma decrypt_gcm: "decrypt s = decrypt \<lparr>gcm = gcm s, cache = None\<rparr>"
  by (simp add: decrypt_def fun_eq_iff Let_def)

lemma row_holds_retired [simp]: "row_holds g (retired now r) p = row_holds g r p"
  by (simp add: row_holds_def retired_def)

lemma refresh_store_ok:
  assumes "store_ok g (s, w)" "refresh e s w = (r, s', w')"
  shows "store_ok g (s', w')"
proof -
  note t = refresh_tables [OF assms(2)]
  have tab: "table_ok w'" using assms(1) t by (auto simp: store_ok_def intro: table_ok_seq)
  from assms(2) show ?thesis
  proof (cases rule: refresh_cases)
    case (1 err)
    with assms(1) t tab show ?thesis by (simp add: store_ok_def)
  next
    case (2 row plain)
    have "row \<in> set (upstream_keys w)" using 2(2) by (auto simp: find_Some_iff)
    then obtain p where p: "servable p" "row_holds g row p" using assms(1) by (auto simp: store_ok_def)
    have "gcm s = g" using assms(1) by (simp add: store_ok_def)
    then have "plain = p" using 2(3) p(2) decrypt_gcm [of s] by (simp add: row_holds_def)
    with 2 assms(1) t tab p show ?thesis by (simp add: store_ok_def row_holds_def)
  qed
qed

lemma TrimSpace_servable: "HasPrefix (TrimSpace p) ''sk-'' \<Longrightarrow> servable (TrimSpace p)"
  by (simp add: servable_def)

lemma Set_store_ok:
  assumes "aead_ok g" "rand_ok e" "store_ok g (s, w)" "Set e s plain note w = (r, s', w')"
  shows "store_ok g (s', w')"
proof -
  have tab: "table_ok w'" using Set_table_ok [OF _ assms(4)] assms(3) by (simp add: store_ok_def)
  from assms(4) show ?thesis
  proof (cases rule: Set_cases)
    case (1 err)
    with assms(3) tab show ?thesis by (simp add: store_ok_def)
  next
    case (2 enc v w1 now)
    have g: "gcm s = g" using assms(3) by (simp add: store_ok_def)
    then have "decrypt \<lparr>gcm = g, cache = None\<rparr> enc = Inr (TrimSpace plain)"
      using decrypt_encrypt [OF _ _ assms(2) 2(2)] assms(1) by simp
    then have "row_holds g (new_row (upstream_seq w) enc (maskPrefix (TrimSpace plain)) note now) (TrimSpace plain)"
      by (simp add: row_holds_def)
    moreover have "table_ok w1"
      using refresh_tables [OF 2(6)] tab by (auto intro: table_ok_seq)
    ultimately have "store_ok g (s, w1)"
      using assms(3) TrimSpace_servable [OF 2(1)] by (auto simp: store_ok_def 2(4))
    then show ?thesis using 2(6) by (rule refresh_store_ok)
  qed
qed

text \<open>Each replica's store, with the shared table, keeps the invariant; so does the system.\<close>

definition sys_ok :: "AEAD \<Rightarrow> (nat \<Rightarrow> UpstreamStore) \<times> world \<Rightarrow> bool" where
  "sys_ok g x \<longleftrightarrow> (\<forall>i. store_ok g (fst x i, snd x))"

lemma store_ok_prims:
  assumes "aead_ok g" "rand_ok e" "(prim e)\<^sup>*\<^sup>* x y" "store_ok g x"
  shows "store_ok g y"
  using assms(3,4)
proof (induction rule: rtranclp_induct)
  case (step y z)
  obtain s w where y: "y = (s, w)" by (cases y)
  from step(2) step(3) [OF step(4)] show ?case
    unfolding y by (auto elim!: primE intro: refresh_store_ok Set_store_ok [OF assms(1,2)])
qed simp

lemma store_ok_other: "store_ok g (s, w) \<Longrightarrow> store_ok g (s', w') \<Longrightarrow> store_ok g (s, w')"
  by (simp add: store_ok_def)

lemma ustep_sys_ok:
  assumes "aead_ok g" "rand_ok e" "sys_ok g x" "ustep e x y"
  shows "sys_ok g y"
proof -
  obtain R w where x: "x = (R, w)" by (cases x)
  from assms(4) obtain c i r s' w' where a: "apply_uop e c (R i) w = (r, s', w')" and y: "y = (R(i := s'), w')"
    unfolding x by (auto elim: ustepE)
  have "store_ok g (s', w')"
    using store_ok_prims [OF assms(1,2) apply_uop_prims [OF a]] assms(3) by (simp add: sys_ok_def x)
  moreover have "store_ok g (R j, w')" for j
    using store_ok_other [OF _ calculation, of "R j" w] assms(3) by (simp add: sys_ok_def x)
  ultimately show ?thesis by (simp add: sys_ok_def y)
qed

lemma table_ok_prims:
  assumes "(prim e)\<^sup>*\<^sup>* x y" "table_ok (snd x)"
  shows "table_ok (snd y)"
  using assms
proof (induction rule: rtranclp_induct)
  case (step y z)
  obtain s w where y: "y = (s, w)" by (cases y)
  from step(2) step(3) [OF step(4)] show ?case
    unfolding y by (auto elim!: primE intro: Set_table_ok table_ok_seq dest!: refresh_tables)
qed simp

interpretation upstream_table: invariant_system "\<lambda>x. upstream_keys (snd x) = []" "ustep e" "\<lambda>x. table_ok (snd x)" for e
proof
  fix x y :: "(nat \<Rightarrow> UpstreamStore) \<times> world"
  assume "table_ok (snd x)" "ustep e x y"
  moreover obtain R w where x: "x = (R, w)" by (cases x)
  ultimately obtain c i r s' w' where a: "apply_uop e c (R i) w = (r, s', w')" and y: "y = (R(i := s'), w')"
    by (auto elim: ustepE)
  show "table_ok (snd y)"
    using table_ok_prims [OF apply_uop_prims [OF a]] \<open>table_ok (snd x)\<close> by (simp add: x y)
qed (simp add: table_ok_def)

text \<open>C30: however many replicas rotate, boot and refresh, and whatever call fails, the table never has two active
  rows, a row is active exactly until its retirement time is set, and row ids are never reused.\<close>

theorem upstream_one_active:
  assumes "(ustep e)\<^sup>*\<^sup>* (R0, w0) (R, w)" "upstream_keys w0 = []"
  shows "length (filter up_active (upstream_keys w)) \<le> 1
     \<and> (\<forall>r \<in> set (upstream_keys w). up_active r = (up_retired_at r = None))
     \<and> distinct (map up_id (upstream_keys w))"
  using upstream_table.always [OF _ assms(1)] assms(2) by (simp add: table_ok_def)

lemma demo_ustep:
  "ustep demo_env (\<lambda>_. demo_store, empty_world) ((\<lambda>_. demo_store)(0 := fst (snd demo_Set)), snd (snd demo_Set))"
  by (rule ustep.intros [where c = "USet '' sk-abc '' ''first''" and r = "fst demo_Set"]) (simp add: demo_Set_def)

theorem upstream_one_active_witness:
  "(ustep demo_env)\<^sup>*\<^sup>* (\<lambda>_. demo_store, empty_world) ((\<lambda>_. demo_store)(0 := fst (snd demo_Set)), snd (snd demo_Set))
   \<and> length (filter up_active (upstream_keys (snd (snd demo_Set)))) \<le> 1"
proof -
  have "(ustep demo_env)\<^sup>*\<^sup>* (\<lambda>_. demo_store, empty_world) ((\<lambda>_. demo_store)(0 := fst (snd demo_Set)), snd (snd demo_Set))"
    using demo_ustep by (rule r_into_rtranclp)
  with upstream_one_active [OF this] show ?thesis by simp
qed

text \<open>C32: on every replica the key that requests are sent with is empty (nothing loaded yet) or a trimmed key that
  starts with \<open>sk-\<close>, and the metadata shown for it is its own mask.\<close>

theorem upstream_serves_valid_key:
  assumes "aead_ok g" "rand_ok e" "ustart g (R0, w0)" "(ustep e)\<^sup>*\<^sup>* (R0, w0) (R, w)"
  shows "Current (R i) = [] \<or>
     (HasPrefix (Current (R i)) ''sk-'' \<and> TrimSpace (Current (R i)) = Current (R i)
      \<and> fst (CurrentMeta (R i)) = maskPrefix (Current (R i)))"
proof -
  have "sys_ok g (R0, w0)" using assms(3) by (simp add: sys_ok_def store_ok_def ustart_def table_ok_def)
  with assms(4) have "sys_ok g (R, w)"
    by (induction rule: rtranclp_induct) (auto intro: ustep_sys_ok [OF assms(1,2)])
  then have "store_ok g (R i, w)" by (simp add: sys_ok_def)
  then show ?thesis
    by (auto simp: store_ok_def Current_def CurrentMeta_def servable_def split: option.splits)
qed

theorem upstream_serves_valid_key_witness:
  "let s = fst (snd demo_Set) in
   ustart demo_aead (\<lambda>_. demo_store, empty_world) \<and>
   (Current s = [] \<or> (HasPrefix (Current s) ''sk-'' \<and> TrimSpace (Current s) = Current s
      \<and> fst (CurrentMeta s) = maskPrefix (Current s)))"
proof -
  have "(ustep demo_env)\<^sup>*\<^sup>* (\<lambda>_. demo_store, empty_world) ((\<lambda>_. demo_store)(0 := fst (snd demo_Set)), snd (snd demo_Set))"
    using demo_ustep by (rule r_into_rtranclp)
  moreover have "ustart demo_aead (\<lambda>_. demo_store, empty_world)" by (simp add: ustart_def demo_store_def)
  ultimately show ?thesis
    using upstream_serves_valid_key [OF demo_aead_ok(1,3), of "\<lambda>_. demo_store" empty_world _ _ 0] by (fastforce simp: Let_def)
qed

section \<open>Rotation\<close>

lemma find_new [simp]: "find up_active (map (retired now) rs @ [new_row i enc pre note now']) = Some (new_row i enc pre note now')"
  by (induction rs) simp_all

lemma refresh_after_Set:
  assumes "aead_ok (gcm s)" "rand_ok e" and "Set e s plain note w = (None, s', w')"
    and "upstream_keys v = upstream_keys w'" "gcm t = gcm s" "no_faults e'"
  shows "fst (refresh e' t v) = None"
  using assms(3)
proof (cases rule: Set_cases)
  case (2 enc v1 w1 now)
  have "decrypt t enc = Inr (TrimSpace plain)" using decrypt_encrypt [OF assms(1,5,2) 2(2)] .
  then show ?thesis
    using refresh_tables [OF 2(6)] 2(4) assms(4,6) by (simp add: refresh_def db_call_def no_faultsD)
qed simp

lemma Set_current:
  assumes "aead_ok (gcm s)" "rand_ok e" and "Set e s plain note w = (None, s', w')"
  shows "Current s' = TrimSpace plain"
  using assms(3)
proof (cases rule: Set_cases)
  case (2 enc v1 w1 now)
  have dec: "decrypt s enc = Inr (TrimSpace plain)" by (rule decrypt_encrypt [OF assms(1) refl assms(2) 2(2)])
  show ?thesis using 2(6) by (cases rule: refresh_cases) (auto simp: 2(4) dec Current_def)
qed simp

lemma Set_then_refresh:
  assumes "aead_ok (gcm s)" "rand_ok e" and "Set e s plain note w = (None, s', w')"
    and "upstream_keys v = upstream_keys w'" "gcm t = gcm s" "refresh e' t v = (None, t', v')"
  shows "Current s' = TrimSpace plain \<and> Current t' = TrimSpace plain
     \<and> (\<exists>row now. upstream_keys w' = map (retired now) (upstream_keys w) @ [row] \<and> up_active row)"
  using assms(3)
proof (cases rule: Set_cases)
  case (2 enc v1 w1 now)
  have keys: "upstream_keys w' = map (retired now) (upstream_keys w)
      @ [new_row (upstream_seq w) enc (maskPrefix (TrimSpace plain)) note now]"
    using 2(4) refresh_tables [OF 2(6)] by simp
  have dec: "decrypt t enc = Inr (TrimSpace plain)" by (rule decrypt_encrypt [OF assms(1,5,2) 2(2)])
  have "Current s' = TrimSpace plain" by (rule Set_current [OF assms(1-3)])
  moreover have "Current t' = TrimSpace plain"
    using assms(6) by (cases rule: refresh_cases) (auto simp: assms(4) keys dec Current_def)
  ultimately show ?thesis using keys by auto
qed simp

text \<open>C31: when a rotation has returned without an error, its replica serves the new key, every refresh of any replica
  that succeeds on that table serves it too, and every older row is retired.\<close>

theorem Set_propagates:
  assumes "aead_ok (gcm s)" "rand_ok e" and "Set e s plain note w = (None, s', w')"
    and "upstream_keys v = upstream_keys w'" "gcm t = gcm s" "refresh e' t v = (None, t', v')"
  shows "Current s' = TrimSpace plain \<and> Current t' = TrimSpace plain
     \<and> (\<exists>row now. upstream_keys w' = map (retired now) (upstream_keys w) @ [row] \<and> up_active row)"
  using Set_then_refresh [OF assms] .

lemma demo_Set_ok: "Set demo_env demo_store '' sk-abc '' ''first'' empty_world = (None, fst (snd demo_Set), snd (snd demo_Set))"
proof -
  have "fst demo_Set = None"
    by (simp add: demo_Set_def Set_def demo_trim Let_def encrypt_def rotate_tx_def rand_Read_def db_call_def no_faultsD
        retire_active_def insert_active_def refresh_def decrypt_def)
       (simp add: demo_aead_def demo_env_def)
  then show ?thesis by (simp add: demo_Set_def prod_eq_iff)
qed

theorem Set_propagates_witness:
  "let s' = fst (snd demo_Set); w' = snd (snd demo_Set) in
   Current s' = ''sk-abc'' \<and> Current (fst (snd (refresh demo_env demo_store w'))) = ''sk-abc''"
proof -
  let ?r = "refresh demo_env demo_store (snd (snd demo_Set))"
  have "fst ?r = None"
    by (rule refresh_after_Set [OF demo_aead_ok(2,3) demo_Set_ok]) simp_all
  then have "?r = (None, fst (snd ?r), snd (snd ?r))" by (simp add: prod_eq_iff)
  from Set_propagates [OF demo_aead_ok(2,3) demo_Set_ok refl refl this] show ?thesis by (simp add: Let_def demo_trim)
qed



lemma Set_succeeds_iff:
  assumes "no_faults e" "aead_ok (gcm s)" "rand_ok e"
  shows "fst (Set e s plain note w) = None \<longleftrightarrow> HasPrefix (TrimSpace plain) ''sk-''"
proof
  assume "fst (Set e s plain note w) = None"
  then obtain s' w' where "Set e s plain note w = (None, s', w')" by (cases "Set e s plain note w") auto
  then show "HasPrefix (TrimSpace plain) ''sk-''" by (cases rule: Set_cases) auto
next
  assume sk: "HasPrefix (TrimSpace plain) ''sk-''"
  then have ne: "TrimSpace plain \<noteq> []" by (auto simp: HasPrefix_def)
  obtain enc v where enc: "encrypt e s (TrimSpace plain) w = (Inr enc, v)"
    using assms(1) by (simp add: encrypt_def rand_Read_def no_faultsD)
  have dec: "decrypt s enc = Inr (TrimSpace plain)" using decrypt_encrypt [OF assms(2) refl assms(3) enc] .
  obtain w1 where tx: "rotate_tx e enc (maskPrefix (TrimSpace plain)) note v = (Inr (), w1)"
    using assms(1) by (simp add: rotate_tx_def db_call_def no_faultsD retire_active_def insert_active_def Let_def)
  from tx have "find up_active (upstream_keys w1) \<noteq> None"
    "\<forall>r. find up_active (upstream_keys w1) = Some r \<longrightarrow> up_encrypted r = enc"
    by (auto elim!: rotate_tx_cases)
  then have "fst (refresh e s w1) = None" using assms(1) dec by (auto simp: refresh_def db_call_def no_faultsD)
  then show "fst (Set e s plain note w) = None" using sk ne enc tx by (simp add: Set_def Let_def)
qed

section \<open>Start-up\<close>

lemma decrypt_error: "decrypt s blob = Inl err \<Longrightarrow> \<not> errors_is err ErrNoRows"
  by (auto simp: decrypt_def Let_def split: if_splits option.splits)

lemma refresh_no_rows:
  assumes "refresh e s w = (Some err, s', w')" "errors_is err ErrNoRows"
  shows "find up_active (upstream_keys w) = None"
  using assms decrypt_error
  by (auto simp: refresh_def db_call_def split: option.splits sum.splits prod.splits)

text \<open>C34: a start that succeeds serves the key of the active row if there is one, and otherwise the key from the
  environment; an existing row is never replaced by the environment's key.\<close>

theorem Bootstrap_loads:
  assumes "aead_ok (gcm s)" "rand_ok e" "Bootstrap e s fallback w = (None, s', w')"
  shows "case find up_active (upstream_keys w) of
           Some row \<Rightarrow> decrypt s (up_encrypted row) = Inr (Current s') \<and> upstream_keys w' = upstream_keys w
         | None \<Rightarrow> Current s' = TrimSpace fallback \<and> HasPrefix (TrimSpace fallback) ''sk-''"
proof -
  obtain r1 s1 w1 where 1: "refresh e s w = (r1, s1, w1)" by (cases "refresh e s w")
  show ?thesis
  proof (cases r1)
    case None
    with 1 assms(3) have "s1 = s'" "w1 = w'" by (auto simp: Bootstrap_def)
    with 1 None refresh_tables [OF 1] show ?thesis by (auto elim!: refresh_cases simp: Current_def)
  next
    case (Some err)
    with 1 have s1: "s1 = s" by (auto elim: refresh_cases)
    obtain r2 s2 w2 where 2: "Set e s fallback ''imported from env on first boot'' w1 = (r2, s2, w2)"
      by (cases "Set e s fallback ''imported from env on first boot'' w1")
    with 1 Some s1 assms(3) have r2: "r2 = None" and 3: "refresh e s2 w2 = (None, s', w')" and nr: "errors_is err ErrNoRows"
      by (auto simp: Bootstrap_def split: if_splits option.splits)
    have none: "find up_active (upstream_keys w) = None" using refresh_no_rows 1 Some nr by blast
    from 2 r2 have S: "Set e s fallback ''imported from env on first boot'' w1 = (None, s2, w2)" by simp
    then have sk: "HasPrefix (TrimSpace fallback) ''sk-''" and g: "gcm s2 = gcm s"
      by (auto elim!: Set_cases dest: refresh_tables)
    from Set_then_refresh [OF assms(1,2) S refl g 3] none sk show ?thesis by simp
  qed
qed

lemma demo_Bootstrap: "fst (Bootstrap demo_env demo_store '' sk-abc '' empty_world) = None"
proof -
  have 1: "refresh demo_env demo_store empty_world = (Some ErrNoRows, demo_store, tick empty_world)"
    by (simp add: refresh_def db_call_def no_faultsD)
  let ?S = "Set demo_env demo_store '' sk-abc '' ''imported from env on first boot'' (tick empty_world)"
  have "fst ?S = None" using Set_succeeds_iff [OF demo_no_faults demo_aead_ok(2,3)] demo_trim by simp
  then have 2: "?S = (None, fst (snd ?S), snd (snd ?S))" by (simp add: prod_eq_iff)
  obtain s2 w2 where S2: "?S = (None, s2, w2)" using 2 by metis
  then have "gcm s2 = gcm demo_store" by (auto elim!: Set_cases dest: refresh_tables)
  with S2 have "gcm (fst (snd ?S)) = gcm demo_store" by simp
  then have 3: "fst (refresh demo_env (fst (snd ?S)) (snd (snd ?S))) = None"
    using refresh_after_Set [OF demo_aead_ok(2,3) 2 refl _ demo_no_faults] by simp
  show ?thesis using 3 by (simp add: Bootstrap_def 1 S2)
qed

theorem Bootstrap_loads_witness:
  "let b = Bootstrap demo_env demo_store '' sk-abc '' empty_world in fst b = None \<and> Current (fst (snd b)) = ''sk-abc''"
proof -
  let ?b = "Bootstrap demo_env demo_store '' sk-abc '' empty_world"
  have "?b = (None, fst (snd ?b), snd (snd ?b))" using demo_Bootstrap by (simp add: prod_eq_iff)
  from Bootstrap_loads [OF demo_aead_ok(2,3) this] demo_Bootstrap show ?thesis by (simp add: Let_def demo_trim)
qed

section \<open>The displayed fingerprint\<close>

text \<open>The masked prefix is a function of the length of the key, its first twelve and its last four bytes, and of
  the length alone when the key has at most sixteen bytes.\<close>

lemma maskPrefix_hides:
  assumes "length p = length q"
    and "length p \<le> 16 \<or> (take 12 p = take 12 q \<and> drop (length p - 4) p = drop (length q - 4) q)"
  shows "maskPrefix p = maskPrefix q"
  using assms by (auto simp: maskPrefix_def)

end
