(* ===== verification/Config.thy ===== *)
theory Config
  imports Services "HOL-Library.Multiset"
begin

text \<open>
  Package \<open>internal/config\<close>: the settings read from the environment.  \<open>getenv\<close> stands for \<open>os.Getenv\<close>.
\<close>

section \<open>time.ParseDuration\<close>

definition unit_of :: "string \<Rightarrow> int option" where
  "unit_of u = map_of
     [(''ns'', 1), (''us'', 1000), ([CHR 0xC2, CHR 0xB5, CHR ''s''], 1000), ([CHR 0xCE, CHR 0xBC, CHR ''s''], 1000),
      (''ms'', 1000000), (''s'', 1000000000), (''m'', 60000000000), (''h'', 3600000000000)] u"

text \<open>The leading digits as an integer; \<^term>\<open>None\<close> when they exceed \<open>1 << 63\<close>.\<close>

definition leadingInt :: "string \<Rightarrow> int option \<times> string" where
  "leadingInt s =
     (let n = dec_value_int (takeWhile is_digit s) in
      (if n \<le> 2 ^ 63 then Some n else None, dropWhile is_digit s))"

text \<open>The leading digits as a fraction; the digits that do not fit are dropped.\<close>

definition frac_step :: "char \<Rightarrow> int \<times> int \<times> bool \<Rightarrow> int \<times> int \<times> bool" where
  "frac_step c st =
     (case st of (x, scale, over) \<Rightarrow>
        if over then st
        else if x > (2 ^ 63 - 1) div 10 then (x, scale, True)
        else let y = x * 10 + int (digit_val c) in
             if y > 2 ^ 63 then (x, scale, True) else (y, scale * 10, False))"

definition leadingFraction :: "string \<Rightarrow> int \<times> int \<times> string" where
  "leadingFraction s =
     (case fold frac_step (takeWhile is_digit s) (0, 1, False) of (x, scale, _) \<Rightarrow> (x, scale, dropWhile is_digit s))"

text \<open>A number and its unit: its value in nanoseconds, and the rest.\<close>

definition dur_value :: "int \<Rightarrow> int \<Rightarrow> int \<Rightarrow> int \<Rightarrow> int option" where
  "dur_value v f scale u =
     (if v > 2 ^ 63 div u then None else
      if f > 0 then
        let v' = v * u + \<lfloor>round64 (float_of_int f * round64 (of_int u / of_int scale))\<rfloor> in
        if v' > 2 ^ 63 then None else Some v'
      else Some (v * u))"

definition dur_item :: "string \<Rightarrow> (int \<times> string) option" where
  "dur_item s =
     (if s = [] \<or> \<not> (hd s = CHR ''.'' \<or> is_digit (hd s)) then None else
      (case leadingInt s of
         (None, _) \<Rightarrow> None
       | (Some v, s1) \<Rightarrow>
          let pre = (length s1 \<noteq> length s);
              dot = (take 1 s1 = ''.'');
              (f, scale, s2) = (if dot then leadingFraction (drop 1 s1) else (0, 1, s1));
              post = (dot \<and> length s2 \<noteq> length (drop 1 s1));
              u = takeWhile (\<lambda>c. \<not> (c = CHR ''.'' \<or> is_digit c)) s2;
              rest = dropWhile (\<lambda>c. \<not> (c = CHR ''.'' \<or> is_digit c)) s2 in
          if \<not> pre \<and> \<not> post then None else
          (case unit_of u of
             None \<Rightarrow> None
           | Some unit \<Rightarrow> map_option (\<lambda>x. (x, rest)) (dur_value v f scale unit))))"

text \<open>The loop: the sum is kept in 64 bits.  Every round uses up at least one character.\<close>

lemma dur_item_shrinks:
  assumes "dur_item s = Some (v, rest)"
  shows "length rest < length s"
proof -
  let ?drop = "dropWhile (\<lambda>c. \<not> (c = CHR ''.'' \<or> is_digit c))" and ?s1 = "dropWhile is_digit s"
  have l: "length (dropWhile P xs) \<le> length xs" for P and xs :: string by (rule length_dropWhile_le)
  have "s = t @ u \<Longrightarrow> length u < length s \<or> u = s" for t u by (cases t) auto
  then have d: "length ?s1 < length s \<or> ?s1 = s" using takeWhile_dropWhile_id [of is_digit s] by metis
  show ?thesis
  proof (cases "take 1 ?s1 = ''.''")
    case True
    then have "length (drop 1 ?s1) < length ?s1" by (cases ?s1) auto
    moreover have "length rest \<le> length (drop 1 ?s1)"
      using assms True l [of _ "dropWhile is_digit (drop 1 ?s1)"] l [of is_digit "drop 1 ?s1"]
      by (auto simp: dur_item_def leadingInt_def leadingFraction_def Let_def split: if_splits option.splits prod.splits dest: order_trans)
    ultimately show ?thesis using l [of is_digit s] by linarith
  next
    case False
    with assms have "?s1 \<noteq> s" "rest = ?drop ?s1"
      by (auto simp: dur_item_def leadingInt_def Let_def split: if_splits option.splits)
    with d l [of _ ?s1] show ?thesis by (metis order_le_less_trans)
  qed
qed

function dur_sum :: "string \<Rightarrow> int \<Rightarrow> int option" where
  "dur_sum s d =
     (if s = [] then Some d else
      (case dur_item s of
         None \<Rightarrow> None
       | Some (v, rest) \<Rightarrow>
          let d' = (d + v) mod 2 ^ 64 in
          if d' > 2 ^ 63 then None else dur_sum rest d'))"
  by pat_completeness auto
termination by (relation "measure (length \<circ> fst)") (auto dest: dur_item_shrinks)

declare dur_sum.simps [simp del]

definition ParseDuration :: "string \<Rightarrow> int option" where
  "ParseDuration s =
     (let sign = take 1 s; neg = (sign = ''-'');
          s = (if sign = ''-'' \<or> sign = ''+'' then drop 1 s else s) in
      if s = ''0'' then Some 0
      else if s = [] then None
      else (case dur_sum s 0 of
              None \<Rightarrow> None
            | Some d \<Rightarrow> if neg then Some (- d) else if d > 2 ^ 63 - 1 then None else Some d))"

section \<open>Settings\<close>

record Config =
  ListenAddr :: string
  UpstreamURL :: string
  UpstreamAPIKey :: string
  DatabaseURL :: string
  RedisURL :: string
  KeyEncryptionKey :: string
  AdminPassword :: string
  SessionSecret :: string
  SessionTTL :: int
  CORSOrigins :: "string list"
  KeyPrefix :: string
  PricingPath :: string
  StreamTimeout :: int
  VerifyCacheTTL :: int
  UpstreamRefresh :: int

definition parseList :: "string \<Rightarrow> string list" where
  "parseList s = (if s = [] then [] else filter (\<lambda>p. p \<noteq> []) (map TrimSpace (Split s (CHR '',''))))"

definition env_or :: "(string \<Rightarrow> string) \<Rightarrow> string \<Rightarrow> string \<Rightarrow> string" where
  "env_or getenv key deflt = (if getenv key \<noteq> [] then getenv key else deflt)"

definition durationEnv :: "(string \<Rightarrow> string) \<Rightarrow> string \<Rightarrow> int \<Rightarrow> int" where
  "durationEnv getenv key deflt =
     (let v = getenv key in
      if v = [] then deflt else
      (case ParseDuration v of
         Some d \<Rightarrow> d
       | None \<Rightarrow> (case Atoi v of Some n \<Rightarrow> wrap64 (n * Second) | None \<Rightarrow> deflt)))"

definition read_env :: "(string \<Rightarrow> string) \<Rightarrow> Config" where
  "read_env getenv =
     \<lparr>ListenAddr = env_or getenv ''LISTEN_ADDR'' '':8080'',
      UpstreamURL = env_or getenv ''UPSTREAM_URL'' ''https://api.openai.com'',
      UpstreamAPIKey = getenv ''OPENAI_API_KEY'',
      DatabaseURL = getenv ''DATABASE_URL'', RedisURL = getenv ''REDIS_URL'', KeyEncryptionKey = getenv ''KEY_ENCRYPTION_KEY'',
      AdminPassword = getenv ''ADMIN_PASSWORD'', SessionSecret = getenv ''SESSION_SECRET'',
      SessionTTL = durationEnv getenv ''SESSION_TTL'' (24 * 3600 * Second),
      CORSOrigins = parseList (getenv ''CORS_ORIGINS''),
      KeyPrefix = env_or getenv ''KEY_PREFIX'' ''sk-pxy-'', PricingPath = env_or getenv ''PRICING_PATH'' ''pricing.yaml'',
      StreamTimeout = durationEnv getenv ''STREAM_TIMEOUT'' (30 * 60 * Second),
      VerifyCacheTTL = durationEnv getenv ''VERIFY_CACHE_TTL'' (60 * Second),
      UpstreamRefresh = durationEnv getenv ''UPSTREAM_REFRESH'' (30 * Second)\<rparr>"

definition required :: "Config \<Rightarrow> (string \<times> string) list" where
  "required cfg =
     [(''DATABASE_URL'', DatabaseURL cfg), (''REDIS_URL'', RedisURL cfg), (''ADMIN_PASSWORD'', AdminPassword cfg),
      (''SESSION_SECRET'', SessionSecret cfg), (''KEY_ENCRYPTION_KEY'', KeyEncryptionKey cfg)]"

text \<open>\<open>order\<close> is the order in which the iteration over the map visits its entries.\<close>

definition Load :: "((string \<times> string) list \<Rightarrow> (string \<times> string) list) \<Rightarrow> (string \<Rightarrow> string) \<Rightarrow> Config result" where
  "Load order getenv =
     (let cfg = read_env getenv in
      case find (\<lambda>(name, val). val = []) (order (required cfg)) of
        Some (name, _) \<Rightarrow> Inl (Err (name @ '' is required''))
      | None \<Rightarrow>
         if length (SessionSecret cfg) < 16 then Inl (Err ''SESSION_SECRET must be at least 16 characters'')
         else Inr cfg)"

section \<open>What start-up accepts\<close>

text \<open>C18: whatever the order of the iteration over the required settings, loading succeeds exactly if the five of them are
  set and the session secret has at least 16 bytes, and then gives the settings of the environment.\<close>

theorem Load_iff:
  assumes "mset (order (required (read_env getenv))) = mset (required (read_env getenv))"
  shows "Load order getenv = Inr cfg \<longleftrightarrow>
     cfg = read_env getenv \<and> 16 \<le> length (getenv ''SESSION_SECRET'')
     \<and> [] \<notin> set (map getenv [''DATABASE_URL'', ''REDIS_URL'', ''ADMIN_PASSWORD'', ''SESSION_SECRET'', ''KEY_ENCRYPTION_KEY''])"
proof -
  have "set (order (required (read_env getenv))) = set (required (read_env getenv))" using mset_eq_setD [OF assms] .
  then have "find (\<lambda>(name, val). val = []) (order (required (read_env getenv))) = None
      \<longleftrightarrow> (\<forall>(name, val) \<in> set (required (read_env getenv)). val \<noteq> [])"
    by (auto simp: find_None_iff)
  also have "\<dots> \<longleftrightarrow> [] \<notin> set (map getenv [''DATABASE_URL'', ''REDIS_URL'', ''ADMIN_PASSWORD'', ''SESSION_SECRET'', ''KEY_ENCRYPTION_KEY''])"
    by (auto simp: required_def read_env_def)
  finally show ?thesis
    by (auto simp: Load_def Let_def read_env_def [of getenv, THEN arg_cong [where f = SessionSecret]] split: option.splits)
qed

definition demo_getenv :: "string \<Rightarrow> string" where
  "demo_getenv k = (if k = ''CORS_ORIGINS'' then '' https://a.example,, *'' else if k = ''SESSION_TTL'' then ''1h30m''
     else if k = ''OPENAI_API_KEY'' then [] else ''0123456789abcdef'')"

theorem Load_iff_witness:
  "Load rev demo_getenv = Inr (read_env demo_getenv) \<and> Load rev (\<lambda>_. []) \<noteq> Inr (read_env (\<lambda>_. []))"
  using Load_iff [of rev demo_getenv "read_env demo_getenv"] Load_iff [of rev "\<lambda>_. []" "read_env (\<lambda>_. [])"]
  by (simp add: demo_getenv_def)

end
