(* ===== verification/Store.thy ===== *)
theory Store
  imports GoLib "HOL-Library.List_Lexorder" "HOL-Library.Char_ord"
begin

text \<open>
  Package \<open>internal/store\<close>: opening and closing the two connections, and the migrations.  The effect of the SQL text of a
  migration on the schema is a parameter, as are the files embedded in the binary; every call of the database may
  fail.
\<close>

section \<open>Connections\<close>

record conns =
  db_open :: bool
  redis_open :: bool

text \<open>The outcomes of the calls of the two drivers.\<close>

record drivers =
  pgxpool_New :: "string \<Rightarrow> unit result"
  pool_Ping :: "unit result"
  redis_ParseURL :: "string \<Rightarrow> unit result"
  redis_Ping :: "unit result"

definition Open :: "drivers \<Rightarrow> string \<Rightarrow> string \<Rightarrow> unit result \<times> conns" where
  "Open D postgresURL redisURL =
     (let c0 = \<lparr>db_open = False, redis_open = False\<rparr> in
      case pgxpool_New D postgresURL of
        Inl err \<Rightarrow> (Inl (ErrWrap ''postgres'' err), c0)
      | Inr _ \<Rightarrow>
         let c1 = c0\<lparr>db_open := True\<rparr> in
         (case pool_Ping D of
            Inl err \<Rightarrow> (Inl (ErrWrap ''postgres ping'' err), c1\<lparr>db_open := False\<rparr>)
          | Inr _ \<Rightarrow>
             (case redis_ParseURL D redisURL of
                Inl err \<Rightarrow> (Inl (ErrWrap ''redis url'' err), c1\<lparr>db_open := False\<rparr>)
              | Inr _ \<Rightarrow>
                 let c2 = c1\<lparr>redis_open := True\<rparr> in
                 (case redis_Ping D of
                    Inl err \<Rightarrow> (Inl (ErrWrap ''redis ping'' err), c2\<lparr>db_open := False, redis_open := False\<rparr>)
                  | Inr _ \<Rightarrow> (Inr (), c2)))))"

definition Close :: "conns \<Rightarrow> conns" where
  "Close c = (let c = (if db_open c then c\<lparr>db_open := False\<rparr> else c) in if redis_open c then c\<lparr>redis_open := False\<rparr> else c)"

section \<open>The database as migrations see it\<close>

text \<open>\<open>versions\<close> are the rows of \<open>schema_migrations\<close> in the order they were inserted; \<^term>\<open>None\<close>: no such table.\<close>

record 'db mdb =
  mev :: nat
  versions :: "string list option"
  schema :: 'db

text \<open>
  \<open>fault\<close> answers by event number; a \<open>COMMIT\<close> whose answer is lost may have taken effect (\<open>commit_lost\<close>).  \<open>files\<close> are
  the entries of the embedded directory with their contents.
\<close>

record 'db menv =
  fault :: "nat \<Rightarrow> string option"
  commit_lost :: "nat \<Rightarrow> bool"
  exec_sql :: "string \<Rightarrow> 'db \<Rightarrow> 'db result"
  files :: "(string \<times> string) list"

definition next_ev :: "'db mdb \<Rightarrow> 'db mdb" where
  "next_ev s = s\<lparr>mev := Suc (mev s)\<rparr>"

definition call :: "'db menv \<Rightarrow> ('db mdb \<Rightarrow> 'a result \<times> 'db mdb) \<Rightarrow> 'db mdb \<Rightarrow> 'a result \<times> 'db mdb" where
  "call E f s = (case fault E (mev s) of Some m \<Rightarrow> (Inl (Err m), next_ev s) | None \<Rightarrow> f (next_ev s))"

definition versions_of :: "'db mdb \<Rightarrow> string list" where
  "versions_of s = (case versions s of None \<Rightarrow> [] | Some vs \<Rightarrow> vs)"

definition create_table :: "'db menv \<Rightarrow> 'db mdb \<Rightarrow> unit result \<times> 'db mdb" where
  "create_table E = call E (\<lambda>s. (Inr (), s\<lparr>versions := Some (versions_of s)\<rparr>))"

section \<open>Migrate\<close>

text \<open>The transaction of one migration; what a rollback restores is everything but the event counter.\<close>

definition migrate_one :: "'db menv \<Rightarrow> string \<Rightarrow> string \<Rightarrow> string \<Rightarrow> 'db mdb \<Rightarrow> error option \<times> 'db mdb" where
  "migrate_one E name version body s =
     (case call E (\<lambda>s. (Inr (), s)) s of
        (Inl err, s1) \<Rightarrow> (Some err, s1)
      | (Inr _, s1) \<Rightarrow>
         (case call E (\<lambda>s. (exec_sql E body (schema s), s)) s1 of
            (Inl err, s2) \<Rightarrow> (Some (ErrWrap (''apply '' @ name) err), s2)
          | (Inr db, s2) \<Rightarrow>
             (case call E (\<lambda>s. (if version \<in> set (versions_of s) then Inl (Err ''duplicate key value violates unique constraint'') else Inr (), s)) s2 of
                (Inl err, s3) \<Rightarrow> (Some err, s3)
              | (Inr _, s3) \<Rightarrow>
                 let done = s3\<lparr>schema := db, versions := Some (versions_of s3 @ [version])\<rparr> in
                 (case call E (\<lambda>s. (Inr (), s)) s3 of
                    (Inl err, s4) \<Rightarrow> (Some err, if commit_lost E (mev s3) then done\<lparr>mev := mev s4\<rparr> else s4)
                  | (Inr _, s4) \<Rightarrow> (None, done\<lparr>mev := mev s4\<rparr>)))))"

definition version_of :: "string \<Rightarrow> string" where
  "version_of name = TrimSuffix name ''.up.sql''"

fun migrate_loop :: "'db menv \<Rightarrow> string list \<Rightarrow> 'db mdb \<Rightarrow> error option \<times> 'db mdb" where
  "migrate_loop E [] s = (None, s)"
| "migrate_loop E (name # names) s =
     (let version = version_of name in
      case call E (\<lambda>s. (Inr (version \<in> set (versions_of s)), s)) s of
        (Inl err, s) \<Rightarrow> (Some (ErrWrap (''check migration '' @ version) err), s)
      | (Inr True, s) \<Rightarrow> migrate_loop E names s
      | (Inr False, s) \<Rightarrow>
         (case map_of (files E) name of
            None \<Rightarrow> (Some (ErrWrap (''read '' @ name) (Err ''file does not exist'')), s)
          | Some body \<Rightarrow>
             (case migrate_one E name version body s of
                (Some err, s) \<Rightarrow> (Some err, s)
              | (None, s) \<Rightarrow> migrate_loop E names s)))"

definition ups :: "'db menv \<Rightarrow> string list" where
  "ups E = sort (filter (\<lambda>name. HasSuffix name ''.up.sql'') (map fst (files E)))"

definition Migrate :: "'db menv \<Rightarrow> 'db mdb \<Rightarrow> error option \<times> 'db mdb" where
  "Migrate E s =
     (case create_table E s of
        (Inl err, s) \<Rightarrow> (Some (ErrWrap ''create schema_migrations'' err), s)
      | (Inr _, s) \<Rightarrow> migrate_loop E (ups E) s)"

section \<open>Migrations are applied in order, each once\<close>

text \<open>The schema after a list of migrations has been run on another.\<close>

fun run_sql :: "'db menv \<Rightarrow> string list \<Rightarrow> 'db \<Rightarrow> 'db option" where
  "run_sql E [] db = Some db"
| "run_sql E (n # ns) db =
     (case map_of (files E) n of
        None \<Rightarrow> None
      | Some body \<Rightarrow> (case exec_sql E body db of Inl _ \<Rightarrow> None | Inr db' \<Rightarrow> run_sql E ns db'))"

lemma run_sql_append: "run_sql E (xs @ ys) db = Option.bind (run_sql E xs db) (run_sql E ys)"
  by (induction xs arbitrary: db) (auto split: option.splits sum.splits)

text \<open>The first \<open>k\<close> migrations, and no others, have been applied, and are on record.\<close>

definition migrated :: "'db menv \<Rightarrow> 'db \<Rightarrow> nat \<Rightarrow> 'db mdb \<Rightarrow> bool" where
  "migrated E db0 k s \<longleftrightarrow> k \<le> length (ups E) \<and> versions_of s = map version_of (take k (ups E))
     \<and> run_sql E (take k (ups E)) db0 = Some (schema s)"

lemma call_cases:
  assumes "call E f s = (r, s')"
  obtains m where "r = Inl (Err m)" "s' = next_ev s" "fault E (mev s) = Some m" | "f (next_ev s) = (r, s')" "fault E (mev s) = None"
  using assms by (auto simp: call_def split: option.splits)

lemma next_ev_fields [simp]: "versions (next_ev s) = versions s" "schema (next_ev s) = schema s" "versions_of (next_ev s) = versions_of s"
  by (simp_all add: next_ev_def versions_of_def)

lemma migrated_cong: "versions_of s' = versions_of s \<Longrightarrow> schema s' = schema s \<Longrightarrow> migrated E db0 k s' = migrated E db0 k s"
  by (simp add: migrated_def)

lemma version_of_inj:
  assumes "HasSuffix a ''.up.sql''" "HasSuffix b ''.up.sql''" "version_of a = version_of b"
  shows "a = b"
proof -
  obtain x y where "a = x @ ''.up.sql''" "b = y @ ''.up.sql''" using assms(1,2) by (auto simp: HasSuffix_def suffix_def)
  moreover have "version_of (z @ ''.up.sql'') = z" for z
    unfolding version_of_def TrimSuffix_def HasSuffix_def by (simp add: suffixI)
  ultimately show ?thesis using assms(3) by simp
qed

lemma distinct_versions: "distinct (map fst (files E)) \<Longrightarrow> distinct (map version_of (ups E))"
proof -
  assume "distinct (map fst (files E))"
  then have "distinct (ups E)" unfolding ups_def by simp
  then show ?thesis unfolding distinct_map by (auto simp: ups_def inj_on_def intro: version_of_inj)
qed

lemma nth_mem_take: "distinct xs \<Longrightarrow> j < length xs \<Longrightarrow> k \<le> length xs \<Longrightarrow> xs ! j \<in> set (take k xs) \<longleftrightarrow> j < k"
  by (auto simp: in_set_conv_nth nth_eq_iff_index_eq)

lemma versions_mem:
  assumes "distinct (map fst (files E))" "j < length (ups E)" "k \<le> length (ups E)"
  shows "version_of (ups E ! j) \<in> set (map version_of (take k (ups E))) \<longleftrightarrow> j < k"
proof -
  let ?vs = "map version_of (ups E)"
  have "distinct ?vs" by (rule distinct_versions [OF assms(1)])
  then have "?vs ! j \<in> set (take k ?vs) \<longleftrightarrow> j < k"
    using assms(2,3) by (intro nth_mem_take) simp_all
  then show ?thesis using assms(2) by (simp add: take_map)
qed

lemma migrate_one_cases:
  assumes "migrate_one E name version body s = (r, s')"
  obtains "versions_of s' = versions_of s" "schema s' = schema s" "r \<noteq> None"
  | db where "exec_sql E body (schema s) = Inr db" "versions_of s' = versions_of s @ [version]" "schema s' = db"
  using assms
  by (auto simp: migrate_one_def call_def versions_of_def Let_def split: option.splits sum.splits prod.splits if_splits)

text \<open>Nothing fails: no call, and none of the SQL texts in their order.\<close>

definition can_finish :: "'db menv \<Rightarrow> 'db \<Rightarrow> bool" where
  "can_finish E db0 \<longleftrightarrow> (\<forall>n. fault E n = None) \<and> run_sql E (ups E) db0 \<noteq> None"

lemma migrate_loop_prefix:
  assumes "distinct (map fst (files E))"
  shows "\<lbrakk>migrate_loop E (drop j (ups E)) s = (r, s'); migrated E db0 k s; j \<le> k; j \<le> length (ups E)\<rbrakk>
    \<Longrightarrow> (\<exists>k'. migrated E db0 k' s' \<and> (r = None \<longrightarrow> k' = length (ups E))) \<and> (can_finish E db0 \<longrightarrow> r = None)"
proof (induction "length (ups E) - j" arbitrary: j s k)
  case 0
  then have "drop j (ups E) = []" "k = length (ups E)" by (auto simp: migrated_def)
  with 0 show ?case by auto
next
  case (Suc n)
  let ?name = "ups E ! j"
  have j: "j < length (ups E)" using Suc.hyps(2) by simp
  then have dr: "drop j (ups E) = ?name # drop (Suc j) (ups E)" by (rule Cons_nth_drop_Suc [symmetric])
  have k: "k \<le> length (ups E)" using Suc.prems(2) by (simp add: migrated_def)
  have ex: "version_of ?name \<in> set (versions_of s) \<longleftrightarrow> j < k"
    using versions_mem [OF assms j k] Suc.prems(2) by (simp add: migrated_def)
  have m1: "migrated E db0 k (next_ev s)" using Suc.prems(2) migrated_cong [of "next_ev s" s] by simp
  have IH: "migrate_loop E (drop (Suc j) (ups E)) t = (r, s') \<Longrightarrow> migrated E db0 k' t \<Longrightarrow> Suc j \<le> k'
      \<Longrightarrow> (\<exists>k'. migrated E db0 k' s' \<and> (r = None \<longrightarrow> k' = length (ups E))) \<and> (can_finish E db0 \<longrightarrow> r = None)" for t k'
    using Suc.hyps(1) [of "Suc j"] Suc.hyps(2) j by simp
  show ?case
  proof (cases "fault E (mev s)")
    case (Some m)
    with Suc.prems(1) dr have "s' = next_ev s" "r \<noteq> None" by (auto simp: Let_def call_def)
    with m1 Some show ?thesis by (auto simp: can_finish_def)
  next
    case None
    show ?thesis
    proof (cases "j < k")
      case True
      with None Suc.prems(1) dr ex have "migrate_loop E (drop (Suc j) (ups E)) (next_ev s) = (r, s')" by (simp add: Let_def call_def)
      from IH [OF this m1] True show ?thesis by simp
    next
      case False
      then have kj: "k = j" using Suc.prems(3) by simp
      have "ups E = take j (ups E) @ ?name # drop (Suc j) (ups E)" using j by (rule id_take_nth_drop)
      then have "run_sql E (ups E) db0 = Option.bind (run_sql E (take j (ups E)) db0) (run_sql E (?name # drop (Suc j) (ups E)))"
        by (metis run_sql_append)
      then have fin: "can_finish E db0 \<Longrightarrow> \<exists>body db. map_of (files E) ?name = Some body \<and> exec_sql E body (schema s) = Inr db"
        using Suc.prems(2) kj by (auto simp: can_finish_def migrated_def split: option.splits sum.splits)
      show ?thesis
      proof (cases "map_of (files E) ?name")
        case None
        with \<open>fault E (mev s) = None\<close> False Suc.prems(1) dr ex have "s' = next_ev s" "r \<noteq> None" by (auto simp: Let_def call_def)
        with m1 None fin show ?thesis by auto
      next
        case (Some body)
        obtain r1 s1 where o: "migrate_one E ?name (version_of ?name) body (next_ev s) = (r1, s1)"
          by (cases "migrate_one E ?name (version_of ?name) body (next_ev s)")
        have go: "(r, s') = (case r1 of Some err \<Rightarrow> (Some err, s1) | None \<Rightarrow> migrate_loop E (drop (Suc j) (ups E)) s1)"
          using \<open>fault E (mev s) = None\<close> False Suc.prems(1) dr ex Some o by (auto simp: Let_def call_def split: option.splits)
        from o show ?thesis
        proof (cases rule: migrate_one_cases)
          case 1
          have "\<not> can_finish E db0"
          proof
            assume c: "can_finish E db0"
            with fin Some obtain db where "exec_sql E body (schema s) = Inr db" by auto
            with c o False ex have "r1 = None"
              by (auto simp: migrate_one_def call_def can_finish_def Let_def)
            with 1(3) show False by simp
          qed
          with 1 go m1 migrated_cong [of s1 "next_ev s"] show ?thesis by (auto split: option.splits)
        next
          case (2 db)
          have "take (Suc j) (ups E) = take j (ups E) @ [?name]" using j by (rule take_Suc_conv_app_nth)
          with 2 m1 kj j Some have "migrated E db0 (Suc j) s1" by (simp add: migrated_def run_sql_append)
          moreover have "can_finish E db0 \<Longrightarrow> r1 = None"
            using o False ex 2(1) by (auto simp: migrate_one_def call_def can_finish_def Let_def)
          ultimately show ?thesis using IH [of s1 "Suc j"] go by (cases r1) auto
        qed
      qed
    qed
  qed
qed

lemma Migrate_prefix_lemma:
  assumes "distinct (map fst (files E))" "migrated E db0 k s" "Migrate E s = (r, s')"
  shows "(\<exists>k'. migrated E db0 k' s' \<and> (r = None \<longrightarrow> k' = length (ups E))) \<and> (can_finish E db0 \<longrightarrow> r = None)"
proof (cases "fault E (mev s)")
  case (Some m)
  with assms(3) have "s' = next_ev s" "r \<noteq> None" by (auto simp: Migrate_def create_table_def call_def)
  with assms(2) migrated_cong [of s' s] Some show ?thesis by (auto simp: can_finish_def)
next
  case None
  let ?s1 = "(next_ev s)\<lparr>versions := Some (versions_of s)\<rparr>"
  have "migrate_loop E (drop 0 (ups E)) ?s1 = (r, s')" using assms(3) None by (simp add: Migrate_def create_table_def call_def)
  moreover have "migrated E db0 k ?s1" using assms(2) by (simp add: migrated_def versions_of_def)
  ultimately show ?thesis using migrate_loop_prefix [OF assms(1)] by blast
qed

lemma migrate_loop_full:
  "set names \<subseteq> set (ups E) \<Longrightarrow> versions_of s = map version_of (ups E) \<Longrightarrow> migrate_loop E names s = (r, s')
     \<Longrightarrow> versions_of s' = versions_of s \<and> schema s' = schema s"
proof (induction names arbitrary: s)
  case (Cons n ns)
  show ?case
  proof (cases "fault E (mev s)")
    case None
    with Cons.prems have "migrate_loop E ns (next_ev s) = (r, s')" by (auto simp: Let_def call_def)
    with Cons.IH [of "next_ev s"] Cons.prems show ?thesis by simp
  qed (use Cons.prems in \<open>auto simp: Let_def call_def\<close>)
qed simp

lemma Migrate_full:
  assumes "distinct (map fst (files E))" "migrated E db0 (length (ups E)) s"
  shows "migrated E db0 (length (ups E)) (snd (Migrate (E\<lparr>fault := f, commit_lost := c\<rparr>) s))"
proof -
  let ?E = "E\<lparr>fault := f, commit_lost := c\<rparr>"
  have u: "ups ?E = ups E" by (simp add: ups_def)
  have v: "versions_of s = map version_of (ups E)" using assms(2) by (simp add: migrated_def)
  have "versions_of (snd (Migrate ?E s)) = versions_of s \<and> schema (snd (Migrate ?E s)) = schema s"
  proof (cases "f (mev s)")
    case None
    let ?s1 = "(next_ev s)\<lparr>versions := Some (versions_of s)\<rparr>"
    have "Migrate ?E s = migrate_loop ?E (ups E) ?s1" using None u by (simp add: Migrate_def create_table_def call_def)
    moreover have "versions_of ?s1 = map version_of (ups ?E)" unfolding u using v by (simp add: versions_of_def)
    ultimately show ?thesis
      using migrate_loop_full [of "ups E" ?E ?s1 "fst (Migrate ?E s)" "snd (Migrate ?E s)"] u by (simp add: versions_of_def)
  qed (simp add: Migrate_def create_table_def call_def)
  then show ?thesis using assms(2) by (simp add: migrated_def)
qed

text \<open>One run of \<open>Migrate\<close>, by a binary with the same files, with any pattern of failures.\<close>

definition migration_run :: "'db menv \<Rightarrow> 'db mdb \<Rightarrow> 'db mdb \<Rightarrow> bool" where
  "migration_run E s s' \<longleftrightarrow> (\<exists>f c. s' = snd (Migrate (E\<lparr>fault := f, commit_lost := c\<rparr>) s))"

lemma env_fields [simp]:
  "files (E\<lparr>fault := f, commit_lost := c\<rparr>) = files E" "ups (E\<lparr>fault := f, commit_lost := c\<rparr>) = ups E"
  by (simp_all add: ups_def)

lemma run_sql_env [simp]: "run_sql (E\<lparr>fault := f, commit_lost := c\<rparr>) ns db = run_sql E ns db"
  by (induction ns arbitrary: db) (auto split: option.splits sum.splits)

lemma migrated_env [simp]: "migrated (E\<lparr>fault := f, commit_lost := c\<rparr>) = migrated E"
  by (intro ext) (simp add: migrated_def)

lemma migration_run_inv:
  assumes "distinct (map fst (files E))" "migrated E db0 k s" "migration_run E s s'"
  shows "\<exists>k'. migrated E db0 k' s'"
proof -
  obtain f c where s': "s' = snd (Migrate (E\<lparr>fault := f, commit_lost := c\<rparr>) s)" using assms(3) by (auto simp: migration_run_def)
  show ?thesis
    using Migrate_prefix_lemma [of "E\<lparr>fault := f, commit_lost := c\<rparr>" db0 k s "fst (Migrate (E\<lparr>fault := f, commit_lost := c\<rparr>) s)" s'] assms(1,2) s'
    by auto
qed

interpretation migrations: invariant_system
  "\<lambda>s. distinct (map fst (files E)) \<and> versions_of s = [] \<and> schema s = db0" "migration_run E"
  "\<lambda>s. distinct (map fst (files E)) \<and> (\<exists>k. migrated E db0 k s)" for E db0
proof unfold_locales
  fix s assume "distinct (map fst (files E)) \<and> versions_of s = [] \<and> schema s = db0"
  then have "migrated E db0 0 s" by (simp add: migrated_def)
  then show "distinct (map fst (files E)) \<and> (\<exists>k. migrated E db0 k s)" using \<open>_ \<and> _\<close> by blast
next
  fix s t assume inv: "distinct (map fst (files E)) \<and> (\<exists>k. migrated E db0 k s)" and run: "migration_run E s t"
  then obtain k where "migrated E db0 k s" by blast
  from migration_run_inv [OF conjunct1 [OF inv] this run] inv
  show "distinct (map fst (files E)) \<and> (\<exists>k. migrated E db0 k t)" by blast
qed

text \<open>C15: however often start-up is tried and wherever it is interrupted, the schema is the result of the first \<open>k\<close>
  migrations in the order of their names, each run once, and exactly these are on record.\<close>

theorem migrations_prefix:
  assumes "distinct (map fst (files E))" "versions_of s0 = []" and "(migration_run E)\<^sup>*\<^sup>* s0 s"
  shows "\<exists>k \<le> length (ups E). versions_of s = map version_of (take k (ups E)) \<and> run_sql E (take k (ups E)) (schema s0) = Some (schema s)"
  using migrations.always [of E s0 "schema s0" s] assms by (auto simp: migrated_def)

text \<open>The files of the repository, with an SQL interpreter that lists what it has run.\<close>

definition demo_files :: "(string \<times> string) list" where
  "demo_files = [(''001_init.down.sql'', ''d1''), (''001_init.up.sql'', ''u1''), (''002_widen_money_precision.down.sql'', ''d2''),
     (''002_widen_money_precision.up.sql'', ''u2''), (''003_upstream_keys.down.sql'', ''d3''), (''003_upstream_keys.up.sql'', ''u3'')]"

definition demo_menv :: "nat option \<Rightarrow> string list menv" where
  "demo_menv broken = \<lparr>fault = (\<lambda>n. if broken = Some n then Some ''connection reset'' else None), commit_lost = (\<lambda>_. True),
     exec_sql = (\<lambda>body db. Inr (db @ [body])), files = demo_files\<rparr>"

definition demo_mdb :: "string list mdb" where
  "demo_mdb = \<lparr>mev = 0, versions = None, schema = []\<rparr>"

lemma demo_ups: "ups (demo_menv b) = [''001_init.up.sql'', ''002_widen_money_precision.up.sql'', ''003_upstream_keys.up.sql'']"
proof -
  have "ups (demo_menv b) = ups (demo_menv None)" by (simp add: ups_def demo_menv_def)
  also have "\<dots> = [''001_init.up.sql'', ''002_widen_money_precision.up.sql'', ''003_upstream_keys.up.sql'']" by code_simp
  finally show ?thesis .
qed

theorem migrations_prefix_witness:
  "let s = snd (Migrate (demo_menv (Some 10)) demo_mdb) in
   fst (Migrate (demo_menv (Some 10)) demo_mdb) \<noteq> None
   \<and> (\<exists>k \<le> 3. versions_of s = map version_of (take k (ups (demo_menv None))) \<and> run_sql (demo_menv None) (take k (ups (demo_menv None))) [] = Some (schema s))"
proof -
  have d: "distinct (map fst (files (demo_menv None)))" by (simp add: demo_menv_def demo_files_def)
  have "demo_menv (Some 10) = (demo_menv None)\<lparr>fault := fault (demo_menv (Some 10)), commit_lost := commit_lost (demo_menv (Some 10))\<rparr>"
    by (simp add: demo_menv_def)
  then have "migration_run (demo_menv None) demo_mdb (snd (Migrate (demo_menv (Some 10)) demo_mdb))"
    unfolding migration_run_def by metis
  then have "(migration_run (demo_menv None))\<^sup>*\<^sup>* demo_mdb (snd (Migrate (demo_menv (Some 10)) demo_mdb))" by blast
  from migrations_prefix [OF d _ this] have "\<exists>k \<le> 3. versions_of (snd (Migrate (demo_menv (Some 10)) demo_mdb)) = map version_of (take k (ups (demo_menv None)))
      \<and> run_sql (demo_menv None) (take k (ups (demo_menv None))) [] = Some (schema (snd (Migrate (demo_menv (Some 10)) demo_mdb)))"
    unfolding demo_ups by (simp add: demo_mdb_def versions_of_def numeral_3_eq_3)
  moreover have "fst (Migrate (demo_menv (Some 10)) demo_mdb) \<noteq> None" by code_simp
  ultimately show ?thesis by (simp add: Let_def)
qed

text \<open>C16: a run in which nothing fails completes: all migrations have been applied in order, and no later run, whatever
  fails in it, changes the schema or the record.\<close>

theorem Migrate_completes:
  assumes "distinct (map fst (files E))" "versions_of s0 = []" and "(migration_run E)\<^sup>*\<^sup>* s0 s"
    and "\<forall>n. fault E n = None" "run_sql E (ups E) (schema s0) = Some db"
  shows "\<exists>s'. Migrate E s = (None, s') \<and> schema s' = db \<and> versions_of s' = map version_of (ups E)
     \<and> (\<forall>s''. migration_run E s' s'' \<longrightarrow> schema s'' = db \<and> versions_of s'' = map version_of (ups E))"
proof -
  obtain k where k: "migrated E (schema s0) k s" using migrations.always [of E s0 "schema s0" s] assms(1-3) by auto
  obtain r s' where r: "Migrate E s = (r, s')" by (cases "Migrate E s")
  have "can_finish E (schema s0)" using assms(4,5) by (simp add: can_finish_def)
  with Migrate_prefix_lemma [OF assms(1) k r] have n: "r = None" "migrated E (schema s0) (length (ups E)) s'" by auto
  have full: "schema t = db \<and> versions_of t = map version_of (ups E)" if "migrated E (schema s0) (length (ups E)) t" for t
    using that assms(5) by (auto simp: migrated_def)
  have "migrated E (schema s0) (length (ups E)) t" if "migration_run E s' t" for t
    using that n(2) Migrate_full [OF assms(1)] by (auto simp: migration_run_def)
  with r n full show ?thesis by blast
qed

theorem Migrate_completes_witness:
  "\<exists>s'. Migrate (demo_menv None) demo_mdb = (None, s') \<and> schema s' = [''u1'', ''u2'', ''u3'']
     \<and> versions_of s' = [''001_init'', ''002_widen_money_precision'', ''003_upstream_keys'']"
proof -
  have d: "distinct (map fst (files (demo_menv None)))" by (simp add: demo_menv_def demo_files_def)
  have "run_sql (demo_menv None) (ups (demo_menv None)) [] = Some [''u1'', ''u2'', ''u3'']"
    "map version_of (ups (demo_menv None)) = [''001_init'', ''002_widen_money_precision'', ''003_upstream_keys'']"
    unfolding demo_ups by code_simp+
  then show ?thesis
    using Migrate_completes [OF d, of demo_mdb demo_mdb "[''u1'', ''u2'', ''u3'']"] by (auto simp: demo_mdb_def versions_of_def demo_menv_def)
qed

end
