(* ===== verification/Server.thy ===== *)
theory Server
  imports Admin Config Store
begin

text \<open>
  \<open>cmd/openai-proxy/main.go\<close>: start-up in its order, the routes of the server, the access log, and the order of a
  shutdown.
\<close>

section \<open>Start-up\<close>

text \<open>What start-up obtains from outside the program, besides the services and the environment.\<close>

record 'db outside =
  getenv :: "string \<Rightarrow> string"
  map_order :: "(string \<times> string) list \<Rightarrow> (string \<times> string) list"
  drv :: drivers
  migr :: "'db menv"
  url_Parse :: "string \<Rightarrow> url result"
  read_file :: "string \<Rightarrow> string result"
  yaml_models :: "string \<Rightarrow> models option result"
  aes_gcm :: "string \<Rightarrow> AEAD result"

text \<open>The running server: what the handlers are made of.\<close>

record server =
  sv_api :: API
  sv_deps :: Deps
  sv_addr :: string
  sv_refresh :: int

text \<open>What start-up has reached when it returns: the connections, the migrated database, the services.\<close>

record 'db boot =
  b_conns :: conns
  b_mdb :: "'db mdb"
  b_world :: world

definition run_setup ::
  "env \<Rightarrow> 'db outside \<Rightarrow> 'db mdb \<Rightarrow> world \<Rightarrow> (error + server \<times> UpstreamStore) \<times> 'db boot" where
  "run_setup e O0 m w =
     (let closed = \<lparr>db_open = False, redis_open = False\<rparr> in
      case Config.Load (map_order O0) (getenv O0) of
        Inl err \<Rightarrow> (Inl err, \<lparr>b_conns = closed, b_mdb = m, b_world = w\<rparr>)
      | Inr cfg \<Rightarrow>
         (case Open (drv O0) (DatabaseURL cfg) (RedisURL cfg) of
            (Inl err, c) \<Rightarrow> (Inl err, \<lparr>b_conns = c, b_mdb = m, b_world = w\<rparr>)
          | (Inr _, c) \<Rightarrow>
             (case Migrate (migr O0) m of
                (Some err, m) \<Rightarrow> (Inl err, \<lparr>b_conns = Close c, b_mdb = m, b_world = w\<rparr>)
              | (None, m) \<Rightarrow>
                 (case url_Parse O0 (UpstreamURL cfg) of
                    Inl err \<Rightarrow> (Inl err, \<lparr>b_conns = Close c, b_mdb = m, b_world = w\<rparr>)
                  | Inr upstream \<Rightarrow>
                     let prc = (case Pricing.Load (read_file O0) (yaml_models O0) (PricingPath cfg) of Inl _ \<Rightarrow> Empty | Inr p \<Rightarrow> p);
                         keySvc = NewService (KeyPrefix cfg) (VerifyCacheTTL cfg) in
                     (case NewUpstreamStore (aes_gcm O0) (KeyEncryptionKey cfg) of
                        Inl err \<Rightarrow> (Inl err, \<lparr>b_conns = Close c, b_mdb = m, b_world = w\<rparr>)
                      | Inr us \<Rightarrow>
                         (case Bootstrap e us (UpstreamAPIKey cfg) w of
                            (Some err, us, w) \<Rightarrow> (Inl err, \<lparr>b_conns = Close c, b_mdb = m, b_world = w\<rparr>)
                          | (None, us, w) \<Rightarrow>
                             let auth = NewAuth (AdminPassword cfg) (SessionSecret cfg) (SessionTTL cfg) in
                             (Inr (\<lparr>sv_api = NewAPI keySvc auth (CORSOrigins cfg),
                                    sv_deps = NewProxy \<lparr>Upstream_URL = upstream, UpstreamKey = (\<lambda>_. Current us), KeySvc = keySvc,
                                                       PriceTable = prc, Timeout = StreamTimeout cfg\<rparr>,
                                    sv_addr = ListenAddr cfg, sv_refresh = UpstreamRefresh cfg\<rparr>, us),
                              \<lparr>b_conns = c, b_mdb = m, b_world = w\<rparr>)))))))"

section \<open>Routes\<close>

definition okHandler :: "header \<Rightarrow> Request \<Rightarrow> system \<Rightarrow> outcome \<times> system" where
  "okHandler h r sys = (Served \<lparr>rs_status = 200, rs_header = h, rs_body = [''ok'']\<rparr> None, sys)"

text \<open>The proxy asks the store for the key when it builds the request.\<close>

definition proxy_handler :: "env \<Rightarrow> net \<Rightarrow> Deps \<Rightarrow> header \<Rightarrow> Request \<Rightarrow> system \<Rightarrow> outcome \<times> system" where
  "proxy_handler e n d h r sys =
     (case ServeHTTP e n (d\<lparr>UpstreamKey := (\<lambda>_. Current (fst sys))\<rparr>) h r (snd sys) of (out, w) \<Rightarrow> (out, (fst sys, w)))"

definition routes :: "env \<Rightarrow> lib \<Rightarrow> net \<Rightarrow> server \<Rightarrow> (header \<Rightarrow> Request \<Rightarrow> system \<Rightarrow> outcome \<times> system) route list" where
  "routes e L n sv =
     [\<lparr>rt_method = ''GET'', rt_segs = [Lit ''health''], rt_handler = okHandler\<rparr>,
      \<lparr>rt_method = ''GET'', rt_segs = [Lit ''ready''], rt_handler = okHandler\<rparr>,
      \<lparr>rt_method = [], rt_segs = [Lit ''v1'', Rest], rt_handler = CORS (sv_api sv) (proxy_handler e n (sv_deps sv))\<rparr>,
      \<lparr>rt_method = [], rt_segs = [Lit ''admin'', Lit ''api'', Rest], rt_handler = CORS (sv_api sv) (serve_admin e L (sv_api sv))\<rparr>]"

definition serve :: "env \<Rightarrow> lib \<Rightarrow> net \<Rightarrow> server \<Rightarrow> Request \<Rightarrow> system \<Rightarrow> outcome \<times> system" where
  "serve e L n sv r sys =
     (case findHandler (routes e L n sv) r of
        Run f vs \<Rightarrow> f [] (r\<lparr>PathValue := path_value vs\<rparr>) sys
      | RedirectTo p \<Rightarrow> (Redirected p, sys)
      | MethodNotAllowed ms \<Rightarrow> (Served (not_allowed_response ms []) None, sys)
      | NoRoute \<Rightarrow> (Served (not_found_response []) None, sys))"

section \<open>Access log\<close>

text \<open>The calls a handler makes on its writer.\<close>

datatype wcall = WriteHeader int | Write string | Flush

record statusWriter =
  sw_status :: int
  sw_wrote :: bool

definition sw_step :: "wcall \<Rightarrow> statusWriter \<Rightarrow> statusWriter" where
  "sw_step c s =
     (case c of
        WriteHeader code \<Rightarrow> if \<not> sw_wrote s then s\<lparr>sw_status := code, sw_wrote := True\<rparr> else s
      | Write _ \<Rightarrow> s\<lparr>sw_wrote := True\<rparr>
      | Flush \<Rightarrow> s)"

definition logged_status :: "wcall list \<Rightarrow> int" where
  "logged_status cs = sw_status (fold sw_step cs \<lparr>sw_status = 200, sw_wrote = False\<rparr>)"

record log_entry =
  le_method :: string
  le_path :: string
  le_status :: int
  le_dur_ms :: int

text \<open>The handler's calls on the writer are given with its outcome.\<close>

definition withRequestLogging ::
  "env \<Rightarrow> (Request \<Rightarrow> system \<Rightarrow> wcall list \<times> system) \<Rightarrow> Request \<Rightarrow> system \<Rightarrow> (wcall list \<times> log_entry) \<times> system" where
  "withRequestLogging e f r sys =
     (case time_Now e (snd sys) of (start, w) \<Rightarrow>
      (case f r (fst sys, w) of (cs, s, w) \<Rightarrow>
       (case time_Now e w of (now, w) \<Rightarrow>
          ((cs, \<lparr>le_method = Method r, le_path = URL_Path r, le_status = logged_status cs,
                 le_dur_ms = go_quot (now - start) 1000000\<rparr>), (s, w)))))"

text \<open>
  What \<open>net/http\<close> sends: the code of the first \<open>WriteHeader\<close> that is not informational, or 200 if the body is begun, the
  header flushed or the handler finished before one.
\<close>

definition informational :: "int \<Rightarrow> bool" where
  "informational code = (100 \<le> code \<and> code \<le> 199 \<and> code \<noteq> 101)"

fun sent_status :: "wcall list \<Rightarrow> int" where
  "sent_status [] = 200"
| "sent_status (WriteHeader code # cs) = (if informational code then sent_status cs else code)"
| "sent_status (Write _ # cs) = 200"
| "sent_status (Flush # cs) = 200"

section \<open>Shutdown\<close>

text \<open>
  The two goroutines: the main one in \<open>ListenAndServe\<close>, then leaving \<open>run\<close>, whose deferred calls close the connections,
  and with \<open>main\<close> the process; and \<open>gracefulShutdown\<close>, waiting, then inside \<open>server.Shutdown\<close>, then done.  \<open>Shutdown\<close> closes
  the listener, which makes \<open>ListenAndServe\<close> return at once, and itself returns when no request is in flight or after
  15 seconds.
\<close>

datatype main_pc = Listening | Leaving | Exited
datatype gs_pc = Waiting | Draining | Finished

record process =
  pc_main :: main_pc
  pc_gs :: gs_pc
  in_flight :: nat
  listener_failed :: bool

definition booted :: process where
  "booted = \<lparr>pc_main = Listening, pc_gs = Waiting, in_flight = 0, listener_failed = False\<rparr>"

inductive pstep :: "process \<Rightarrow> process \<Rightarrow> bool" where
  accept: "\<lbrakk>pc_main p = Listening; pc_gs p = Waiting\<rbrakk> \<Longrightarrow> pstep p (p\<lparr>in_flight := Suc (in_flight p)\<rparr>)"
| answer: "\<lbrakk>pc_main p \<noteq> Exited; in_flight p = Suc n\<rbrakk> \<Longrightarrow> pstep p (p\<lparr>in_flight := n\<rparr>)"
| signal: "\<lbrakk>pc_main p \<noteq> Exited; pc_gs p = Waiting\<rbrakk> \<Longrightarrow> pstep p (p\<lparr>pc_gs := Draining\<rparr>)"
| listen_returns: "\<lbrakk>pc_main p = Listening; pc_gs p \<noteq> Waiting\<rbrakk> \<Longrightarrow> pstep p (p\<lparr>pc_main := Leaving\<rparr>)"
| listen_fails: "pc_main p = Listening \<Longrightarrow> pstep p (p\<lparr>pc_main := Leaving, listener_failed := True\<rparr>)"
| process_exits: "pc_main p = Leaving \<Longrightarrow> pstep p (p\<lparr>pc_main := Exited\<rparr>)"
| shutdown_returns: "\<lbrakk>pc_main p \<noteq> Exited; pc_gs p = Draining; in_flight p = 0\<rbrakk> \<Longrightarrow> pstep p (p\<lparr>pc_gs := Finished\<rparr>)"
| shutdown_times_out: "\<lbrakk>pc_main p \<noteq> Exited; pc_gs p = Draining\<rbrakk> \<Longrightarrow> pstep p (p\<lparr>pc_gs := Finished\<rparr>)"

inductive_cases pstep_cases: "pstep p q"

end
