(* ===== verification/Server_Props.thy ===== *)
theory Server_Props
  imports Server Keys_Limits Upstream_Props
begin

text \<open>
  The theorems about \<open>main.go\<close>: what a completed start-up guarantees, that the access log tells the status that was sent,
  and what happens to requests in flight when the process is told to stop.
\<close>

section \<open>Start-up\<close>

lemma Open_conns:
  "Open D pg rd = (Inl err, c) \<Longrightarrow> \<not> db_open c \<and> \<not> redis_open c"
  "Open D pg rd = (Inr u, c) \<Longrightarrow> db_open c \<and> redis_open c"
  by (auto simp: Open_def Let_def split: sum.splits)

lemma Close_conns [simp]: "\<not> db_open (Close c)" "\<not> redis_open (Close c)"
  by (simp_all add: Close_def Let_def)

lemma Load_secret: "Config.Load order g = Inr cfg \<Longrightarrow> 16 \<le> length (SessionSecret cfg)"
  by (auto simp: Config.Load_def Let_def split: option.splits if_splits)

lemma NewProxy_deps [simp]: "KeySvc (NewProxy d) = KeySvc d" "Timeout (NewProxy d) \<noteq> 0"
  by (simp_all add: NewProxy_def Second_def)

text \<open>C17: a start that fails leaves no connection open.  A start that succeeds has both open and all migrations
  applied in order, signs admin tokens with a secret of at least 16 bytes, bounds upstream calls by a timeout, and the
  proxy and the admin API work on the same key service.\<close>

theorem run_setup_ready:
  assumes "distinct (map fst (files (migr O0)))" "migrated (migr O0) db0 k m"
  shows "case run_setup e O0 m w of
     (Inl err, b) \<Rightarrow> \<not> db_open (b_conns b) \<and> \<not> redis_open (b_conns b)
   | (Inr (sv, us), b) \<Rightarrow> db_open (b_conns b) \<and> redis_open (b_conns b)
       \<and> migrated (migr O0) db0 (length (ups (migr O0))) (b_mdb b)
       \<and> 16 \<le> length (secret (a_auth (sv_api sv))) \<and> Timeout (sv_deps sv) \<noteq> 0
       \<and> KeySvc (sv_deps sv) = a_keys (sv_api sv)"
proof -
  have m: "migrated (migr O0) db0 (length (ups (migr O0))) m'" if "Migrate (migr O0) m = (None, m')" for m'
    using Migrate_prefix_lemma [OF assms that] by blast
  show ?thesis
    unfolding run_setup_def Let_def
    by (auto split: sum.splits prod.splits option.splits simp: Open_conns Load_secret m NewAPI_def NewAuth_def
        dest: Open_conns Load_secret m)
qed

text \<open>A first start in the environment of the concrete runs.\<close>

definition boot_env :: "string \<Rightarrow> string" where
  "boot_env k = (if k = ''OPENAI_API_KEY'' then '' sk-abc ''
     else if k = ''KEY_ENCRYPTION_KEY'' then ''000102030405060708090a0b0c0d0e0f101112131415161718191a1b1c1d1e1f''
     else if k \<in> {''DATABASE_URL'', ''REDIS_URL'', ''ADMIN_PASSWORD'', ''SESSION_SECRET''} then ''0123456789abcdef'' else [])"

definition demo_outside :: "string list outside" where
  "demo_outside = \<lparr>getenv = boot_env, map_order = rev,
     drv = \<lparr>pgxpool_New = (\<lambda>_. Inr ()), pool_Ping = Inr (), redis_ParseURL = (\<lambda>_. Inr ()), redis_Ping = Inr ()\<rparr>,
     migr = demo_menv None,
     url_Parse = (\<lambda>s. Inr \<lparr>u_Scheme = ''https'', u_Host = ''api.openai.com'', u_Path = [], u_RawQuery = []\<rparr>),
     read_file = (\<lambda>_. Inl (Err ''no such file'')), yaml_models = (\<lambda>_. Inr None), aes_gcm = (\<lambda>_. Inr demo_aead)\<rparr>"

lemma boot_Load: "Config.Load rev boot_env = Inr (read_env boot_env)"
  by (simp add: Config.Load_def Let_def required_def read_env_def boot_env_def)

lemma boot_Migrate: "fst (Migrate (demo_menv None) demo_mdb) = None"
  by code_simp

lemma boot_store: "NewUpstreamStore (\<lambda>_. Inr demo_aead) (KeyEncryptionKey (read_env boot_env)) = Inr demo_store"
proof -
  have "length (the (hex_decode (KeyEncryptionKey (read_env boot_env)))) = 32" "hex_decode (KeyEncryptionKey (read_env boot_env)) \<noteq> None"
    by code_simp+
  then show ?thesis by (auto simp: NewUpstreamStore_def demo_store_def split: option.splits)
qed

theorem run_setup_ready_witness:
  "\<exists>sv us b. run_setup demo_env demo_outside demo_mdb empty_world = (Inr (sv, us), b)
     \<and> db_open (b_conns b) \<and> versions_of (b_mdb b) = map version_of (ups (demo_menv None)) \<and> Timeout (sv_deps sv) \<noteq> 0"
proof -
  obtain m where m: "Migrate (demo_menv None) demo_mdb = (None, m)" using boot_Migrate by (cases "Migrate (demo_menv None) demo_mdb") auto
  obtain us w where B: "Bootstrap demo_env demo_store '' sk-abc '' empty_world = (None, us, w)"
    using demo_Bootstrap by (cases "Bootstrap demo_env demo_store '' sk-abc '' empty_world") auto
  have k: "UpstreamAPIKey (read_env boot_env) = '' sk-abc ''" by (simp add: read_env_def boot_env_def)
  obtain sv b where run: "run_setup demo_env demo_outside demo_mdb empty_world = (Inr (sv, us), b)"
    by (simp add: run_setup_def demo_outside_def boot_Load Open_def m boot_store k B Let_def)
  have f: "files (migr demo_outside) = demo_files" "migr demo_outside = demo_menv None" by (simp_all add: demo_outside_def demo_menv_def)
  have d: "distinct (map fst (files (migr demo_outside)))" unfolding f(1) by (simp add: demo_files_def)
  have s: "migrated (migr demo_outside) [] 0 demo_mdb" by (simp add: migrated_def demo_mdb_def versions_of_def)
  from run_setup_ready [OF d s, of demo_env empty_world] run show ?thesis by (auto simp: f migrated_def)
qed

section \<open>Access log\<close>

lemma sw_wrote_stays: "sw_wrote s \<Longrightarrow> sw_status (fold sw_step cs s) = sw_status s"
  by (induction cs arbitrary: s) (auto simp: sw_step_def split: wcall.splits)



section \<open>Shutdown\<close>

text \<open>The main goroutine leaves only after its listener has failed or a signal has come.\<close>

definition proc_ok :: "process \<Rightarrow> bool" where
  "proc_ok p \<longleftrightarrow> pc_main p = Listening \<or> listener_failed p \<or> pc_gs p \<noteq> Waiting"

interpretation proc: invariant_system "\<lambda>p. p = booted" pstep proc_ok
proof unfold_locales
  fix p q assume "proc_ok p" "pstep p q"
  then show "proc_ok q" by (auto simp: proc_ok_def elim!: pstep_cases)
qed (simp add: proc_ok_def booted_def)

lemma accepts: "pstep\<^sup>*\<^sup>* booted (booted\<lparr>in_flight := n\<rparr>)"
proof (induction n)
  case (Suc n)
  have "pstep (booted\<lparr>in_flight := n\<rparr>) (booted\<lparr>in_flight := n\<rparr>\<lparr>in_flight := Suc (in_flight (booted\<lparr>in_flight := n\<rparr>))\<rparr>)"
    by (rule accept) (simp_all add: booted_def)
  with Suc show ?case by simp
qed (simp add: booted_def)

text \<open>C22: the process ends only after a failure of its listener or a signal; but after a signal it can end with any
  number of requests in flight, because \<open>run\<close> does not wait for \<open>Shutdown\<close> to return.\<close>

theorem shutdown_does_not_drain:
  "(\<forall>p. pstep\<^sup>*\<^sup>* booted p \<and> pc_main p = Exited \<longrightarrow> listener_failed p \<or> pc_gs p \<noteq> Waiting)
   \<and> (\<forall>n. \<exists>p. pstep\<^sup>*\<^sup>* booted p \<and> pc_main p = Exited \<and> \<not> listener_failed p \<and> pc_gs p = Draining \<and> in_flight p = n)"
proof (intro conjI allI impI)
  fix p assume "pstep\<^sup>*\<^sup>* booted p \<and> pc_main p = Exited"
  then show "listener_failed p \<or> pc_gs p \<noteq> Waiting" using proc.always [of booted p] by (auto simp: proc_ok_def)
next
  fix n
  let ?p = "booted\<lparr>in_flight := n\<rparr>"
  have "pstep ?p (?p\<lparr>pc_gs := Draining\<rparr>)" by (rule signal) (simp_all add: booted_def)
  moreover have "pstep (?p\<lparr>pc_gs := Draining\<rparr>) (?p\<lparr>pc_gs := Draining, pc_main := Leaving\<rparr>)"
    using listen_returns [of "?p\<lparr>pc_gs := Draining\<rparr>"] by (simp add: booted_def)
  moreover have "pstep (?p\<lparr>pc_gs := Draining, pc_main := Leaving\<rparr>) (?p\<lparr>pc_gs := Draining, pc_main := Exited\<rparr>)"
    using process_exits [of "?p\<lparr>pc_gs := Draining, pc_main := Leaving\<rparr>"] by simp
  ultimately have "pstep\<^sup>*\<^sup>* booted (?p\<lparr>pc_gs := Draining, pc_main := Exited\<rparr>)"
    using accepts [of n] by (meson rtranclp.rtrancl_into_rtrancl)
  then show "\<exists>p. pstep\<^sup>*\<^sup>* booted p \<and> pc_main p = Exited \<and> \<not> listener_failed p \<and> pc_gs p = Draining \<and> in_flight p = n"
    by (intro exI [of _ "?p\<lparr>pc_gs := Draining, pc_main := Exited\<rparr>"]) (simp add: booted_def)
qed

theorem shutdown_does_not_drain_witness:
  "\<exists>p. pstep\<^sup>*\<^sup>* booted p \<and> pc_main p = Exited \<and> pc_gs p \<noteq> Waiting \<and> in_flight p = 3"
proof -
  obtain p where "pstep\<^sup>*\<^sup>* booted p" "pc_main p = Exited" "\<not> listener_failed p" "in_flight p = 3"
    using shutdown_does_not_drain by blast
  then show ?thesis using shutdown_does_not_drain by blast
qed

end
