(* ===== verification/Proxy_Props.thy ===== *)
theory Proxy_Props
  imports Proxy Keys_Limits
begin

text \<open>
  The theorems about the proxy handler: nothing is forwarded without an accepted key and passed limits, the caller's
  credential never leaves the proxy, the client receives the upstream's bytes, the tail buffer is the window the
  usage is read from, and what is found there is what is billed.
\<close>

section \<open>The tail buffer is a window\<close>

text \<open>The contract of a window over a stream of bytes: what it holds is the last part of all that was written.\<close>

locale window =
  fixes put :: "'a list \<Rightarrow> 'w \<Rightarrow> 'w" and contents :: "'w \<Rightarrow> 'a list" and size_of :: "'w \<Rightarrow> nat"
  assumes contents_put: "contents (put p t) = lastn (size_of t) (contents t @ p)"
    and size_put: "size_of (put p t) = size_of t"
begin

lemma contents_puts: "contents t = lastn (size_of t) xs \<Longrightarrow>
    contents (fold put ps t) = lastn (size_of t) (xs @ concat ps)"
proof (induction ps arbitrary: t xs)
  case (Cons p ps)
  have "contents (put p t) = lastn (size_of (put p t)) (xs @ p)"
    by (simp add: contents_put size_put Cons.prems lastn_append_lastn)
  from Cons.IH [OF this] show ?case by (simp add: size_put)
qed simp

end

interpretation tail: window tail_Write tb_buf "\<lambda>t. nat (tb_cap t)"
proof
  fix p and t :: tailBuffer
  define xs where "xs = tb_buf t @ p"
  have "tb_buf (tail_Write p t) = (if int (length xs) > tb_cap t then drop (nat (int (length xs) - tb_cap t)) xs else xs)"
    by (simp add: tail_Write_def xs_def Let_def)
  also have "\<dots> = lastn (nat (tb_cap t)) xs"
  proof (cases "0 \<le> tb_cap t")
    case True
    then have "nat (int (length xs) - tb_cap t) = length xs - nat (tb_cap t)" by linarith
    with True show ?thesis by (auto simp: lastn_def)
  next
    case False
    then have "length xs \<le> nat (int (length xs) - tb_cap t)" by linarith
    with False show ?thesis by (simp add: lastn_def)
  qed
  finally show "tb_buf (tail_Write p t) = lastn (nat (tb_cap t)) (tb_buf t @ p)" by (simp add: xs_def)
qed (simp add: tail_Write_def Let_def)

text \<open>What the copy loop delivers, and what it leaves in the tail.\<close>

definition delivered :: "(nat \<Rightarrow> bool) \<Rightarrow> 'a list \<Rightarrow> 'a list" where
  "delivered ok cs = take (length (takeWhile ok [0..<length cs])) cs"

lemma copy_chunks_fold:
  "copy_chunks ok i cs t = (out, t') \<Longrightarrow> t' = fold tail_Write out t \<and> out = delivered (\<lambda>j. ok (i + j)) cs"
proof (induction cs arbitrary: i t out t')
  case (Cons c cs)
  have up: "[0..<Suc (length cs)] = 0 # map Suc [0..<length cs]" by (simp add: map_Suc_upt upt_conv_Cons del: upt_Suc)
  show ?case
  proof (cases "ok i")
    case True
    then obtain out' where o: "copy_chunks ok (Suc i) cs (tail_Write c t) = (out', t')" "out = c # out'"
      using Cons.prems by (auto split: prod.splits)
    from Cons.IH [OF o(1)] o(2) True show ?thesis
      by (simp add: delivered_def up takeWhile_map comp_def del: upt_Suc)
  next
    case False
    with Cons.prems show ?thesis by (simp add: delivered_def up del: upt_Suc)
  qed
qed (simp add: delivered_def)

lemma streamResponse_window_lemma:
  "\<exists>t. streamResponse ok h resp =
     (\<lparr>rs_status = resp_StatusCode resp, rs_header = add_all upstreamSkipHeaders (resp_Header resp) h,
       rs_body = delivered ok (resp_Chunks resp)\<rparr>, t)
   \<and> tb_buf t = lastn (2 * 1024 * 1024) (concat (delivered ok (resp_Chunks resp)))"
proof -
  obtain out t where c: "copy_chunks ok 0 (resp_Chunks resp) (newTailBuffer captureMax) = (out, t)"
    by (cases "copy_chunks ok 0 (resp_Chunks resp) (newTailBuffer captureMax)")
  have out: "t = fold tail_Write out (newTailBuffer captureMax)" "out = delivered ok (resp_Chunks resp)"
    using copy_chunks_fold [OF c] by simp_all
  have "tb_buf t = lastn (2 * 1024 * 1024) (concat out)"
    using tail.contents_puts [of "newTailBuffer captureMax" "[]" out]
    by (simp add: out(1) newTailBuffer_def captureMax_def)
  with c out(2) show ?thesis by (simp add: streamResponse_def)
qed

text \<open>C11: the client receives the upstream's body chunk by chunk up to the first failed write, and the tail buffer then
  holds exactly the last two MiB of what was delivered.\<close>

theorem streamResponse_window:
  "\<exists>t. streamResponse ok h resp =
     (\<lparr>rs_status = resp_StatusCode resp, rs_header = add_all upstreamSkipHeaders (resp_Header resp) h,
       rs_body = delivered ok (resp_Chunks resp)\<rparr>, t)
   \<and> tb_buf t = lastn (2 * 1024 * 1024) (concat (delivered ok (resp_Chunks resp)))"
  by (rule streamResponse_window_lemma)

section \<open>Headers\<close>

lemma header_Values_fold_Add:
  "header_Values (fold (header_Add k) vs h) k' =
     (if CanonicalHeaderKey k' = CanonicalHeaderKey k then header_Values h k' @ vs else header_Values h k')"
proof (induction vs arbitrary: h)
  case (Cons v vs)
  then show ?case by (auto simp: header_Values_Add) (simp_all add: header_Values_def)
qed simp

lemma header_Values_cong: "CanonicalHeaderKey k = CanonicalHeaderKey k' \<Longrightarrow> header_Values h k = header_Values h k'"
  by (simp add: header_Values_def)

text \<open>Headers as the server delivers them: every key canonical, none twice.\<close>

definition header_ok :: "header \<Rightarrow> bool" where
  "header_ok h \<longleftrightarrow> distinct (map fst h) \<and> (\<forall>(k, vs) \<in> set h. CanonicalHeaderKey k = k)"

lemma add_all_Cons:
  "add_all skip ((k, vs) # src) dst = add_all skip src (if skip (CanonicalHeaderKey k) then dst else fold (header_Add k) vs dst)"
  by (simp add: add_all_def)

lemma header_Values_add_all_skip:
  "skip (CanonicalHeaderKey k) \<Longrightarrow> header_Values (add_all skip src dst) k = header_Values dst k"
proof (induction src arbitrary: dst)
  case (Cons x src)
  obtain k' vs where x: "x = (k', vs)" by (cases x)
  show ?case using Cons by (auto simp: x add_all_Cons header_Values_fold_Add)
qed (simp add: add_all_def)

lemma header_Values_add_all:
  assumes "header_ok src" "\<not> skip (CanonicalHeaderKey k)"
  shows "header_Values (add_all skip src dst) k = header_Values dst k @ header_Values src k"
  using assms
proof (induction src arbitrary: dst)
  case (Cons x src)
  obtain k' vs where x: "x = (k', vs)" by (cases x)
  have ok: "header_ok src" "CanonicalHeaderKey k' = k'" "k' \<notin> fst ` set src" using Cons.prems(1) by (auto simp: header_ok_def x)
  have "map_of src k' = None" using ok(3) by (simp add: map_of_eq_None_iff)
  with ok(2) have "header_Values src k = []" if "CanonicalHeaderKey k = k'"
    using that by (simp add: header_Values_def)
  then show ?case
    using Cons.IH [OF ok(1) Cons.prems(2)] Cons.prems(2) ok(2)
    by (auto simp: x add_all_Cons header_Values_fold_Add) (auto simp: header_Values_def)
qed (simp add: add_all_def header_Values_def)

text \<open>The keys the proxy itself decides about; everything else is end to end.\<close>

definition rewritten :: "string \<Rightarrow> bool" where
  "rewritten k \<longleftrightarrow> hopByHop k \<or> k \<in> {''X-Forwarded-For'', ''X-Forwarded-Host'', ''Accept-Encoding''}"

lemma canonical_keys:
  "CanonicalHeaderKey ''Authorization'' = ''Authorization''" "CanonicalHeaderKey ''X-Forwarded-For'' = ''X-Forwarded-For''"
  "CanonicalHeaderKey ''X-Forwarded-Host'' = ''X-Forwarded-Host''" "CanonicalHeaderKey ''Accept-Encoding'' = ''Accept-Encoding''"
  "CanonicalHeaderKey ''Content-Length'' = ''Content-Length''" "CanonicalHeaderKey ''Content-Type'' = ''Content-Type''"
  "CanonicalHeaderKey ''Proxy-Authorization'' = ''Proxy-Authorization''"
  by code_simp+

lemma forwarded_header_lemma:
  assumes "header_ok (Header r)" and "CanonicalHeaderKey k = k"
  shows "header_Values (build_header upstreamKey r len modified) k =
     (if k = ''Authorization'' then [''Bearer '' @ upstreamKey]
      else if k = ''Content-Length'' \<and> modified then [FormatInt len]
      else if rewritten k then []
      else header_Values (Header r) k)"
proof -
  have e: "header_Values ([] :: header) k = []" by (simp add: header_Values_def)
  have c: "header_Values (copyHeaders [] (Header r)) k = (if hopByHop k then [] else header_Values (Header r) k)"
    using header_Values_add_all [OF assms(1), of hopByHop k "[]"] header_Values_add_all_skip [of hopByHop k "Header r" "[]"]
    by (simp add: copyHeaders_def assms(2) e)
  have h: "hopByHop ''Authorization''" "\<not> hopByHop ''Content-Length''" by code_simp+
  show ?thesis
    unfolding build_header_def Let_def
    by (auto simp: header_Values_simps canonical_keys assms(2) c rewritten_def h)
qed


section \<open>Nothing is forwarded without an accepted key\<close>

lemma validateKey_None [simp]: "fst (validateKey e None w) = Some ErrInvalid"
  by (simp add: validateKey_def)

lemma Verify_not_nil: "fst (Verify e s plain w) \<noteq> (None, None)"
  by (auto simp: Verify_def verify_db_def validateKey_def Let_def split: sum.splits prod.splits rval.splits if_splits option.splits)

lemma Bearer_iff:
  "CutPrefix a ''Bearer '' = (plain, True) \<longleftrightarrow> a = ''Bearer '' @ plain"
  by (auto simp: CutPrefix_def HasPrefix_def prefix_def)

lemma authenticate_cases:
  assumes "authenticate e d r w = ((k, err), w')"
  obtains "k = None" "err = Some ErrInvalid" "w' = w"
  | plain where "header_Get (Header r) ''Authorization'' = ''Bearer '' @ plain" "plain \<noteq> []"
      "Verify e (KeySvc d) plain w = ((k, err), w')"
proof -
  obtain plain ok where c: "CutPrefix (header_Get (Header r) ''Authorization'') ''Bearer '' = (plain, ok)"
    by (cases "CutPrefix (header_Get (Header r) ''Authorization'') ''Bearer ''")
  show thesis
  proof (cases "\<not> ok \<or> plain = []")
    case True
    with assms c show thesis by (intro that(1)) (auto simp: authenticate_def)
  next
    case False
    with assms c show thesis by (intro that(2) [of plain]) (auto simp: authenticate_def Bearer_iff)
  qed
qed

text \<open>The state in which the quota is checked.\<close>

definition after_rate :: "env \<Rightarrow> Key \<Rightarrow> world \<Rightarrow> world" where
  "after_rate e key w = (case RPMLimit key of None \<Rightarrow> w | Some limit \<Rightarrow> snd (AllowRate e (ID key) limit w))"

lemma checkLimits_pass:
  assumes "checkLimits e h key r start w = (None, w')"
  shows "(\<forall>limit. RPMLimit key = Some limit \<longrightarrow> fst (AllowRate e (ID key) limit w) \<noteq> Inr False)
     \<and> fst (AllowQuota e (ID key) (TokenQuota key) (DollarQuota key) (after_rate e key w)) \<noteq> Inr False"
  using assms
  by (auto simp: checkLimits_def check_rate_def check_quota_def after_rate_def split: option.splits prod.splits sum.splits if_splits)

text \<open>C14: the handler never dereferences a missing key, whatever fails.\<close>

theorem ServeHTTP_no_panic: "fst (ServeHTTP e n d h r w) \<noteq> Panicked"
proof -
  have "fst (authenticate e d r v) \<noteq> (None, None)" for v
    using Verify_not_nil by (auto simp: authenticate_def split: prod.splits)
  then show ?thesis
    by (auto simp: ServeHTTP_def forward_def Let_def time_Now_def split: prod.splits option.splits sum.splits) (metis fst_conv)+
qed

lemma ServeHTTP_forwarded:
  assumes "ServeHTTP e n d h r w = (Served resp (Some req), w')"
  obtains plain key w1 w2 where "header_Get (Header r) ''Authorization'' = ''Bearer '' @ plain"
    "Verify e (KeySvc d) plain (tick w) = ((Some key, None), w1)"
    "checkLimits e h key r (clock e (ev w)) w1 = (None, w2)"
    "forward e n d h key r (clock e (ev w)) w2 = (Served resp (Some req), w')"
proof -
  obtain k err w1 where a: "authenticate e d r (tick w) = ((k, err), w1)" by (cases "authenticate e d r (tick w)") auto
  with assms obtain key where k: "k = Some key" "err = None"
    by (auto simp: ServeHTTP_def time_Now_def split: option.splits)
  obtain c w2 where c: "checkLimits e h key r (clock e (ev w)) w1 = (c, w2)" by (cases "checkLimits e h key r (clock e (ev w)) w1")
  from a k assms c have c': "c = None" "forward e n d h key r (clock e (ev w)) w2 = (Served resp (Some req), w')"
    by (auto simp: ServeHTTP_def time_Now_def split: option.splits)
  from a show thesis
  proof (cases rule: authenticate_cases)
    case 1
    with k show thesis by simp
  next
    case (2 plain)
    with k c c' show thesis by (intro that) auto
  qed
qed

lemma forward_request:
  assumes "forward e n d h key r start w = (Served resp (Some req), w')"
  shows "\<exists>i len modified. up_Header req = build_header (UpstreamKey d i) r len modified \<and> up_Method req = Method r \<and> up_Host req = u_Host (Upstream_URL d)"
  using assms
  by (auto simp: forward_def buildUpstreamRequest_def Let_def split: sum.splits prod.splits option.splits) blast+

text \<open>C1: a request reaches the upstream service only after its bearer token was accepted by \<open>Verify\<close> and neither the
  rate check nor the quota check refused it, whatever calls fail; and it is sent with the proxy's own key.\<close>

theorem forwarded_only_if_allowed:
  assumes "ServeHTTP e n d h r w = (Served resp (Some req), w')"
  shows "\<exists>plain key w1. header_Get (Header r) ''Authorization'' = ''Bearer '' @ plain
     \<and> Verify e (KeySvc d) plain (tick w) = ((Some key, None), w1)
     \<and> (\<forall>limit. RPMLimit key = Some limit \<longrightarrow> fst (AllowRate e (ID key) limit w1) \<noteq> Inr False)
     \<and> fst (AllowQuota e (ID key) (TokenQuota key) (DollarQuota key) (after_rate e key w1)) \<noteq> Inr False
     \<and> (\<exists>i len modified. up_Header req = build_header (UpstreamKey d i) r len modified)"
  using assms
proof (cases rule: ServeHTTP_forwarded)
  case (1 plain key w1 w2)
  from checkLimits_pass [OF 1(3)] forward_request [OF 1(4)] 1(1,2) show ?thesis by blast
qed

section \<open>Refusals\<close>

lemma Verify_ev:
  assumes "no_faults e"
  shows "ev w \<le> ev (snd (Verify e s plain w)) \<and> ev (snd (Verify e s plain w)) \<le> ev w + 4"
proof -
  have v: "ev (snd (validateKey e k v)) \<le> ev v + 1" "ev v \<le> ev (snd (validateKey e k v))" for k v
    using validateKey_world [of e k v] by auto
  have v': "snd (case validateKey e k v of (err, w') \<Rightarrow> ((x, err), w')) = snd (validateKey e k v)"
    for k v and x :: "Key option" by (simp split: prod.splits)
  have db: "ev (snd (verify_db e s plain pre v)) \<le> ev v + 3 \<and> ev v \<le> ev (snd (verify_db e s plain pre v))" for pre v
  proof (cases "find_prefix pre v")
    case (Some row)
    let ?v = "rput (verify_key pre) (REntry \<lparr>ce_Key = Some (scan_key e row), ce_Plain = plain\<rparr>,
        set_expiry (clock e (Suc (ev v))) (cacheTTL s) (rget (clock e (Suc (ev v))) v (verify_key pre))) (tick (tick v))"
    have "ev ?v = ev v + 2" by simp
    with v [where k = "Some (scan_key e row)" and v = ?v] Some assms show ?thesis by (simp add: verify_db_nf v' del: rput_fields)
  qed (use assms in \<open>simp add: verify_db_nf\<close>)
  show ?thesis
  proof (cases "HasPrefix plain (prefix_of_service s)")
    case True
    have t: "ev (tick w) = ev w + 1" by simp
    have "snd (Verify e s plain w) = snd (verify_db e s plain (prefixOf s plain) (tick w))
      \<or> (\<exists>k. snd (Verify e s plain w) = snd (validateKey e k (tick w)))"
      using True assms by (auto simp: Verify_nf v' split: option.splits rval.splits)
    then show ?thesis
    proof
      assume "snd (Verify e s plain w) = snd (verify_db e s plain (prefixOf s plain) (tick w))"
      with db [of "prefixOf s plain" "tick w"] t show ?thesis by simp
    next
      assume "\<exists>k. snd (Verify e s plain w) = snd (validateKey e k (tick w))"
      then obtain k where "snd (Verify e s plain w) = snd (validateKey e k (tick w))" by blast
      with v [where k = k and v = "tick w"] t show ?thesis by simp
    qed
  qed (use assms in \<open>simp add: Verify_nf\<close>)
qed

text \<open>Once a key has been deactivated, a request with it is answered 401 and nothing is sent upstream.\<close>

lemma revoked_key_refused:
  assumes "no_faults e" "fresh_uuids e" "reach e (KeySvc d) w" and "SetActive e i False w = (None, w1)"
    and "header_Get (Header r) ''Authorization'' = ''Bearer '' @ plain" "plain \<noteq> []"
    and "Verify e (KeySvc d) plain (tick w1) = ((Some k, err), w2)" "ID k = i"
  shows "ServeHTTP e n d h r w1 = (Served (writeOpenAIError h 401 ''key_inactive'' ''this key has been revoked'') None, w2)"
proof -
  from SetActive_state [OF assms(1-4)] obtain row
    where "cache_inv e (KeySvc d) w1" "find_id i w1 = Some row" "\<not> Active (row_key row)" by auto
  then have "err = Some ErrInactive"
    using Verify_inactive_row [OF assms(1) cache_inv_tick _ _ assms(7,8), of row] by simp
  then have "authenticate e d r (tick w1) = ((Some k, Some ErrInactive), w2)"
    using assms(5-7) Bearer_iff [of "header_Get (Header r) ''Authorization''" plain] by (simp add: authenticate_def)
  then show ?thesis by (simp add: ServeHTTP_def time_Now_def writeAuthError_def)
qed


section \<open>Billing\<close>

lemma record_usage_quota [simp]: "quota_totals (record_usage e key r m s u c st start msg w) = quota_totals w"
  by (auto simp: record_usage_def time_Now_def RecordRequest_def db_call_def insert_usage_def Let_def
      split: option.splits sum.splits prod.splits)

lemma Touch_quota [simp]: "quota_totals (TouchLastUsed e i w) = quota_totals w"
  by (auto simp: TouchLastUsed_def db_call_def update_rows_def split: option.splits)

lemma ids_Touch [simp]: "ids (TouchLastUsed e i w) = ids w"
  by (auto simp: TouchLastUsed_def db_call_def ids_update split: option.splits)

text \<open>The new totals fit their columns.\<close>

definition bill_fits :: "env \<Rightarrow> world \<Rightarrow> uuid \<Rightarrow> int \<Rightarrow> rat \<Rightarrow> bool" where
  "bill_fits e w i tokens cost \<longleftrightarrow>
     i \<in> ids w \<and>
     (case numeric_14_8 (pg_decimal e cost) of
        None \<Rightarrow> False
      | Some c \<Rightarrow>
         (case quota_totals w i of
            None \<Rightarrow> True
          | Some q \<Rightarrow> numeric_14_8 (total_cost_usd q + c) \<noteq> None \<and> int64_range (total_tokens q + tokens)))"

lemma AddUsage_db_tokens:
  assumes "no_faults e" "bill_fits e w i t c"
  shows "db_tokens (snd (AddUsage e i t c w)) i = db_tokens w i + t"
proof (cases "t = 0 \<and> c = 0")
  case False
  have "\<not> isl (fst (upsert_quota e i t c (clock e (ev w)) (tick w)))"
    using assms(2) find_id_None [of i w] by (auto simp: bill_fits_def upsert_quota_def split: option.splits)
  then obtain w1 where u: "upsert_quota e i t c (clock e (ev w)) (tick w) = (Inr (), w1)"
    "db_tokens w1 i = db_tokens (tick w) i + t" by (rule upsert_quota_ok)
  have "same_tables w1 (snd (AddUsage e i t c w))"
    using AddUsage_nf [OF assms(1) False u(1)] rdb_tables(4,6) same_tables_trans by simp blast
  with u(2) show ?thesis by (simp add: db_tokens_def same_tables_def)
qed (simp add: AddUsage_def)

lemma delivered_all: "(\<And>i. ok i) \<Longrightarrow> delivered ok cs = cs"
proof -
  assume "\<And>i. ok i"
  then have "takeWhile ok [0..<length cs] = [0..<length cs]" by (simp add: takeWhile_eq_all_conv)
  then show ?thesis unfolding delivered_def by (simp only: length_upt) simp
qed

text \<open>The usage a complete answer reports.\<close>

definition reported :: "bool \<Rightarrow> UpResponse \<Rightarrow> streamUsage" where
  "reported isStream resp =
     (if isStream \<or> Contains (header_Get (resp_Header resp) ''Content-Type'') ''event-stream''
      then fst (ParseSSEUsage (concat (resp_Chunks resp))) else fst (ParseJSONUsage (concat (resp_Chunks resp))))"

text \<open>C2: when the client takes the whole answer and the answer fits the window, the client receives it unchanged and the
  key is billed exactly the tokens the answer reports, at the price of the model it names.\<close>

theorem forward_bills:
  assumes "no_faults e" and "readBody r = Inr (pb, body, len)"
    and "buildUpstreamRequest n d r body len (pb_Modified pb) w = Inr req"
    and "client_Do n (ev w) req = Inr resp" "\<And>i. client_write_ok n (ev w) i"
    and "length (concat (resp_Chunks resp)) \<le> 2 * 1024 * 1024"
    and "u = reported (pb_IsStream pb) resp" "0 < su_InputTokens u \<or> 0 < su_OutputTokens u"
    and "tokens = wrap64 (su_InputTokens u + su_OutputTokens u)"
    and "cost = Cost (PriceTable d) (if su_Model u \<noteq> [] then su_Model u else pb_Model pb)
           (su_InputTokens u) (su_OutputTokens u) (su_CachedTokens u)"
    and "bill_fits e w (ID key) tokens cost"
  shows "\<exists>out. fst (forward e n d h key r start w) = Served out (Some req)
     \<and> rs_status out = resp_StatusCode resp \<and> rs_body out = resp_Chunks resp
     \<and> db_tokens (snd (forward e n d h key r start w)) (ID key) = db_tokens w (ID key) + tokens"
proof -
  obtain out t where s: "streamResponse (client_write_ok n (ev w)) h resp = (out, t)"
    and out: "rs_status out = resp_StatusCode resp" "rs_body out = resp_Chunks resp"
    and t: "tb_buf t = concat (resp_Chunks resp)"
    using streamResponse_window_lemma [of "client_write_ok n (ev w)" h resp] assms(6)
    by (auto simp: delivered_all [of "client_write_ok n (ev w)", OF assms(5)])
  have u: "extractUsage (pb_IsStream pb) (header_Get (resp_Header resp) ''Content-Type'') t = u"
    by (simp add: extractUsage_def t assms(7) reported_def)
  let ?w1 = "TouchLastUsed e (ID key) (tick w)"
  have fits: "bill_fits e ?w1 (ID key) tokens cost" using assms(11) by (simp add: bill_fits_def split: option.splits)
  have w': "snd (forward e n d h key r start w) = settle e d key r pb resp t start (tick w)"
    "fst (forward e n d h key r start w) = Served out (Some req)"
    using assms(2-4) s by (simp_all add: forward_def Let_def)
  have "quota_totals (settle e d key r pb resp t start (tick w)) = quota_totals (snd (AddUsage e (ID key) tokens cost ?w1))"
    using assms(8) by (simp add: settle_def u Let_def assms(9,10))
  then have "db_tokens (settle e d key r pb resp t start (tick w)) (ID key) = db_tokens ?w1 (ID key) + tokens"
    using AddUsage_db_tokens [OF assms(1) fits] by (simp add: db_tokens_def)
  then show ?thesis using w' out by (simp add: db_tokens_def)
qed

text \<open>C23: a client that is gone before the first byte is delivered is billed nothing, whatever the upstream answered and
  charged for.\<close>

theorem gone_client_unbilled:
  assumes "\<not> client_write_ok n (ev w) 0"
  shows "quota_totals (snd (forward e n d h key r start w)) = quota_totals w"
proof -
  have del: "delivered (client_write_ok n (ev w)) cs = []" for cs :: "string list"
    using assms by (cases cs) (simp_all add: delivered_def upt_conv_Cons del: upt_Suc)
  have sse: "ParseSSEUsage [] = (no_usage, False)" "ParseJSONUsage [] = (no_usage, False)" by code_simp+
  have "extractUsage s c t = no_usage" if "tb_buf t = []" for s c t
    using that by (simp add: extractUsage_def sse)
  then have st: "quota_totals (settle e d key r pb resp t start w1) = quota_totals w1" if "tb_buf t = []" for pb resp t w1
    using that by (simp add: settle_def Let_def no_usage_def)
  have "tb_buf (snd (streamResponse (client_write_ok n (ev w)) h resp)) = []" for resp
    using streamResponse_window_lemma [of "client_write_ok n (ev w)" h resp] del by (auto simp: lastn_def)
  then show ?thesis
    using st by (auto simp: forward_def Let_def split: sum.splits prod.splits) (metis snd_conv tick_fields(3))+
qed

section \<open>Usage in an event stream\<close>

text \<open>The document on a line of the stream, if there is one.\<close>

definition sse_doc :: "string \<Rightarrow> usageEnvelope option" where
  "sse_doc line =
     (if \<not> HasPrefix line ''data:'' then None else
      let payload = TrimSpace (drop 5 line) in
      if payload = [] \<or> payload = ''[DONE]'' then None else Unmarshal_envelope payload)"

definition sse_usage :: "string \<Rightarrow> usage_block option" where
  "sse_usage line = (case sse_doc line of None \<Rightarrow> None | Some doc \<Rightarrow> ue_Usage doc)"

lemma sse_line_usage:
  "sse_usage line = Some b \<Longrightarrow>
     snd (sse_line line st) \<and> su_InputTokens (fst (sse_line line st)) = ub_PromptTokens b
     \<and> su_OutputTokens (fst (sse_line line st)) = ub_CompletionTokens b"
  by (auto simp: sse_usage_def sse_doc_def sse_line_def Let_def split: if_splits option.splits prod.splits)

lemma sse_line_no_usage:
  "sse_usage line = None \<Longrightarrow>
     snd (sse_line line st) = snd st \<and> su_InputTokens (fst (sse_line line st)) = su_InputTokens (fst st)
     \<and> su_OutputTokens (fst (sse_line line st)) = su_OutputTokens (fst st)"
  by (auto simp: sse_usage_def sse_doc_def sse_line_def Let_def split: if_splits option.splits prod.splits)

text \<open>The last usage block of a list of lines.\<close>

fun last_usage :: "string list \<Rightarrow> usage_block option" where
  "last_usage [] = None"
| "last_usage (l # ls) = (case last_usage ls of Some b \<Rightarrow> Some b | None \<Rightarrow> sse_usage l)"

lemma fold_sse:
  "case last_usage ls of
     None \<Rightarrow> snd (fold sse_line ls st) = snd st
       \<and> su_InputTokens (fst (fold sse_line ls st)) = su_InputTokens (fst st)
       \<and> su_OutputTokens (fst (fold sse_line ls st)) = su_OutputTokens (fst st)
   | Some b \<Rightarrow> snd (fold sse_line ls st)
       \<and> su_InputTokens (fst (fold sse_line ls st)) = ub_PromptTokens b
       \<and> su_OutputTokens (fst (fold sse_line ls st)) = ub_CompletionTokens b"
proof (induction ls arbitrary: st)
  case (Cons l ls)
  from Cons.IH [of "sse_line l st"] show ?case
    using sse_line_usage [of l _ st] sse_line_no_usage [of l st]
    by (cases "last_usage ls"; cases "sse_usage l") auto
qed simp


lemma Split_concat: "Split (a @ c # b) c = Split a c @ Split b c"
  by (induction a) (auto split: list.splits)

lemma Split_length: "x \<in> set (Split s c) \<Longrightarrow> length x \<le> length s"
  by (induction s arbitrary: x) (auto split: list.splits if_splits, force+)

lemma scan_lines_append:
  assumes "int (length (a @ [CHR 0x0A] @ b)) < 4 * 1024 * 1024"
  shows "scan_lines (a @ [CHR 0x0A] @ b) = map dropCR (Split a (CHR 0x0A)) @ scan_lines b"
proof -
  have len: "length l \<le> length (a @ [CHR 0x0A] @ b)" if "l \<in> set (Split (a @ [CHR 0x0A] @ b) (CHR 0x0A))" for l
    using Split_length [OF that] .
  have all: "takeWhile (\<lambda>l. int (length l) < 4 * 1024 * 1024) ls = ls" if "set ls \<subseteq> set (Split (a @ [CHR 0x0A] @ b) (CHR 0x0A))" for ls
    unfolding takeWhile_eq_all_conv using that len assms by fastforce
  have sp: "Split (a @ [CHR 0x0A] @ b) (CHR 0x0A) = Split a (CHR 0x0A) @ Split b (CHR 0x0A)" using Split_concat by simp
  have sub: "set (butlast (Split b (CHR 0x0A))) \<subseteq> set (Split b (CHR 0x0A))" by (meson in_set_butlastD subsetI)
  show ?thesis
    unfolding scan_lines_def Let_def sp
    using all [unfolded sp, of "Split b (CHR 0x0A)"] all [unfolded sp, of "butlast (Split b (CHR 0x0A))"]
      all [unfolded sp, of "Split a (CHR 0x0A) @ Split b (CHR 0x0A)"]
      all [unfolded sp, of "Split a (CHR 0x0A) @ butlast (Split b (CHR 0x0A))"] sub
    by (auto simp: butlast_append)
qed

lemma last_usage_append: "last_usage (xs @ ys) = (case last_usage ys of Some b \<Rightarrow> Some b | None \<Rightarrow> last_usage xs)"
  by (induction xs) (auto split: option.splits)

lemma ParseSSEUsage_tail:
  assumes "int (length (a @ [CHR 0x0A] @ b)) < 4 * 1024 * 1024" "snd (ParseSSEUsage b)"
  shows "snd (ParseSSEUsage (a @ [CHR 0x0A] @ b))
     \<and> su_InputTokens (fst (ParseSSEUsage (a @ [CHR 0x0A] @ b))) = su_InputTokens (fst (ParseSSEUsage b))
     \<and> su_OutputTokens (fst (ParseSSEUsage (a @ [CHR 0x0A] @ b))) = su_OutputTokens (fst (ParseSSEUsage b))"
proof -
  note f = fold_sse [of _ "(no_usage, False)", folded ParseSSEUsage_def]
  obtain u where u: "last_usage (scan_lines b) = Some u"
    using assms(2) fold_sse [of "scan_lines b" "(no_usage, False)"] by (auto simp: ParseSSEUsage_def split: option.splits)
  then have "last_usage (scan_lines (a @ [CHR 0x0A] @ b)) = Some u"
    unfolding scan_lines_append [OF assms(1)] by (simp add: last_usage_append)
  with u fold_sse [of "scan_lines b" "(no_usage, False)"] fold_sse [of "scan_lines (a @ [CHR 0x0A] @ b)" "(no_usage, False)"]
  show ?thesis by (simp add: ParseSSEUsage_def)
qed


section \<open>A concrete exchange\<close>

text \<open>A client with the key of the earlier run, an upstream that answers with a usage block, and the proxy between them.\<close>

definition demo_answer :: UpResponse where
  \<open>demo_answer = \<lparr>resp_StatusCode = 200, resp_Header = [(''Content-Type'', [''application/json''])],
     resp_Chunks = [''{"model":"gpt-4o",'', ''"usage":{"prompt_tokens":3,"completion_tokens":4}}'']\<rparr>\<close>

definition demo_net :: "bool \<Rightarrow> net" where
  "demo_net present = \<lparr>new_request_err = (\<lambda>_. None), client_Do = (\<lambda>_ _. Inr demo_answer), client_write_ok = (\<lambda>_ _. present)\<rparr>"

definition demo_deps :: Deps where
  "demo_deps = \<lparr>Upstream_URL = \<lparr>u_Scheme = ''https'', u_Host = ''api.openai.com'', u_Path = [], u_RawQuery = []\<rparr>,
     UpstreamKey = (\<lambda>_. ''sk-real''), KeySvc = demo_service, PriceTable = Map.empty, Timeout = 0\<rparr>"

definition demo_request :: Request where
  \<open>demo_request =
     \<lparr>Method = ''POST'', URL_Path = ''/v1/chat/completions'', URL_EscapedPath = ''/v1/chat/completions'', URL_RawQuery = [], URL_Query = (\<lambda>_. []), PathValue = (\<lambda>_. []),
      Header = [(''Authorization'', [''Bearer pk-AAAAAAAAAAAAAAAAAAAAAAAAAAAAAAAA'']), (''Content-Type'', [''application/json'']),
                (''X-Forwarded-For'', [''10.0.0.1''])],
      Body = (''{"model":"gpt-4o","stream":true}'', None), ContentLength = 32\<rparr>\<close>

definition demo_prepared :: preparedBody where
  \<open>demo_prepared = \<lparr>pb_Body = ''{"model":"gpt-4o","stream":true,"stream_options":{"include_usage":true}}'', pb_IsStream = True,
     pb_Model = ''gpt-4o'', pb_Modified = True, pb_WasJSON = True\<rparr>\<close>

lemma demo_readBody: "readBody demo_request = Inr (demo_prepared, (pb_Body demo_prepared, None), 72)"
  by code_simp

lemma demo_bearer: "header_Get (Header demo_request) ''Authorization'' = ''Bearer '' @ demo_plain"
  by code_simp

lemma demo_header_ok: "header_ok (Header demo_request)"
  unfolding header_ok_def by code_simp

lemma demo_hit:
  assumes "redis v (verify_key ''pk-AAAAAAAA'') = Some demo_entry" "ev v < 1000"
  shows "Verify demo_env demo_service demo_plain v = ((Some demo_key, None), tick v)"
proof -
  have "live (clock demo_env (ev v)) demo_entry" using assms(2) by (simp add: demo_entry_def demo_clock)
  with assms(1) show ?thesis
    by (simp add: Verify_nf demo_has_prefix demo_prefix rget_def) (simp add: demo_entry_def validateKey_def)
qed

lemma demo_cached_fields [simp]:
  "redis demo_cached (verify_key ''pk-AAAAAAAA'') = Some demo_entry" "ev demo_cached = 9"
  "redis demo_cached (rate_key i b) = None" "redis demo_cached (tok_key i) = None"
  by (simp_all add: demo_cached_def redis_keys_distinct redis_keys_distinct [symmetric])


lemma demo_quota: "quota_totals demo_cached ''2'' = Some \<lparr>total_tokens = 0, total_cost_usd = 0, updated_at = 1700000040004000000\<rparr>"
  by (simp add: demo_cached_def demo_world_def)

lemma demo_minute: "n < 1000 \<Longrightarrow> minute 28333334 (clock demo_env n)"
  by (simp add: minute_def demo_clock Second_def)

lemma demo_limits: "RPMLimit demo_key = Some 2" "TokenQuota demo_key = Some 100" "DollarQuota demo_key = None"
  by (simp_all add: demo_key_def demo_row_def issued_row_def scan_key_def demo_params_def)

lemma demo_served_any:
  "\<exists>resp req w'. ServeHTTP demo_env (demo_net True) (demo_deps\<lparr>UpstreamKey := key\<rparr>) [] demo_request demo_cached = (Served resp (Some req), w')"
proof -
  let ?w1 = "tick (tick demo_cached)"
  have V: "Verify demo_env demo_service demo_plain (tick demo_cached) = ((Some demo_key, None), ?w1)" by (rule demo_hit) simp_all
  then have a: "authenticate demo_env (demo_deps\<lparr>UpstreamKey := key\<rparr>) demo_request (tick demo_cached) = ((Some demo_key, None), ?w1)"
    using Bearer_iff [of "header_Get (Header demo_request) ''Authorization''" demo_plain]
    by (simp add: authenticate_def demo_bearer) (simp add: demo_plain_def demo_deps_def)
  have "counter ?w1 ''2'' 28333334 0" by (simp add: counter_def)
  then have R: "fst (AllowRate demo_env ''2'' 2 ?w1) = Inr True"
    using AllowRate_counts [OF demo_no_faults, of 28333334 2 0 ?w1 "''2''"] by (simp add: demo_minute)
  obtain r2 w2 where R2: "AllowRate demo_env ''2'' 2 ?w1 = (r2, w2)" by (cases "AllowRate demo_env ''2'' 2 ?w1")
  have "qframe ?w1 w2" using AllowRate_qframe [of ?w1 demo_env "''2''" 2] R2 by simp
  then have "redis w2 (tok_key ''2'') = None" "quota_totals w2 ''2'' \<noteq> None" "db_tokens w2 ''2'' = 0"
    by (auto simp: qframe_def still_def db_tokens_def demo_quota)
  then have Q: "fst (AllowQuota demo_env ''2'' (Some 100) None w2) = Inr True"
    by (auto simp: AllowQuota_def quotaTotals_def nofault rdb_Get_def rget_def cmd_Int64_def cmd_Float64_def redis_nil_def db_tokens_def)
  obtain q3 w3 where Q3: "AllowQuota demo_env ''2'' (Some 100) None w2 = (q3, w3)" by (cases "AllowQuota demo_env ''2'' (Some 100) None w2")
  have "checkLimits demo_env [] demo_key demo_request (clock demo_env 9) ?w1 = (None, w3)"
    using R R2 Q Q3 by (simp add: checkLimits_def check_rate_def check_quota_def demo_limits)
  then show ?thesis
    using a by (simp add: ServeHTTP_def time_Now_def forward_def demo_readBody buildUpstreamRequest_def demo_net_def)
      (auto split: prod.splits)
qed

lemma demo_served:
  "\<exists>resp req w'. ServeHTTP demo_env (demo_net True) demo_deps [] demo_request demo_cached = (Served resp (Some req), w')"
proof -
  have "demo_deps\<lparr>UpstreamKey := (\<lambda>_. ''sk-real'')\<rparr> = demo_deps" by (simp add: demo_deps_def)
  with demo_served_any [of "\<lambda>_. ''sk-real''"] show ?thesis by simp
qed

theorem forwarded_only_if_allowed_witness:
  "\<exists>resp req w' key w1. ServeHTTP demo_env (demo_net True) demo_deps [] demo_request demo_cached = (Served resp (Some req), w')
     \<and> Verify demo_env demo_service demo_plain (tick demo_cached) = ((Some key, None), w1)
     \<and> fst (AllowQuota demo_env (ID key) (TokenQuota key) (DollarQuota key) (after_rate demo_env key w1)) \<noteq> Inr False
     \<and> (\<exists>len modified. up_Header req = build_header ''sk-real'' demo_request len modified)"
proof -
  obtain resp req w' where s: "ServeHTTP demo_env (demo_net True) demo_deps [] demo_request demo_cached = (Served resp (Some req), w')"
    using demo_served by blast
  from forwarded_only_if_allowed [OF s] s show ?thesis
    unfolding demo_bearer by (auto simp: demo_deps_def)
qed
text \<open>The state after two requests of the current minute.\<close>

definition demo_busy :: world where
  "demo_busy = rput (rate_key ''2'' 28333334) (RInt 2, Some 1700000110000000000) demo_cached"


lemma demo_usage:
  "su_InputTokens (reported True demo_answer) = 0" "su_InputTokens (reported False demo_answer) = 3"
  "su_OutputTokens (reported False demo_answer) = 4" "su_CachedTokens (reported False demo_answer) = 0"
  "su_Model (reported False demo_answer) = ''gpt-4o''"
  by code_simp+

text \<open>The same request without streaming.\<close>

definition demo_plain_request :: Request where
  \<open>demo_plain_request = demo_request\<lparr>Body := (''{"model":"gpt-4o"}'', None)\<rparr>\<close>

theorem forward_bills_witness:
  "\<exists>out req. fst (forward demo_env (demo_net True) demo_deps [] demo_key demo_plain_request 0 demo_cached) = Served out (Some req)
     \<and> rs_body out = resp_Chunks demo_answer
     \<and> db_tokens (snd (forward demo_env (demo_net True) demo_deps [] demo_key demo_plain_request 0 demo_cached)) ''2'' = 7"
proof -
  let ?pb = "\<lparr>pb_Body = fst (Body demo_plain_request), pb_IsStream = False, pb_Model = ''gpt-4o'', pb_Modified = False, pb_WasJSON = True\<rparr>"
  have rb: "readBody demo_plain_request = Inr (?pb, (pb_Body ?pb, None), 18)" by code_simp
  obtain req where req: "buildUpstreamRequest (demo_net True) demo_deps demo_plain_request (pb_Body ?pb, None) 18 (pb_Modified ?pb) demo_cached = Inr req"
    by (simp add: buildUpstreamRequest_def demo_net_def)
  have cost: "Cost (PriceTable demo_deps) ''gpt-4o'' 3 4 0 = 0" by code_simp
  have n: "numeric_14_8 (pg_decimal demo_env 0) = Some 0" "numeric_14_8 0 = Some 0" by code_simp+
  have fits: "bill_fits demo_env demo_cached (ID demo_key) 7 0"
    by (simp add: bill_fits_def demo_quota n int64_range_def)
  have len: "length (concat (resp_Chunks demo_answer)) \<le> 2 * 1024 * 1024" by (simp add: demo_answer_def)
  have D: "client_Do (demo_net True) (ev demo_cached) req = Inr demo_answer" "\<And>i. client_write_ok (demo_net True) (ev demo_cached) i"
    by (simp_all add: demo_net_def)
  have "wrap64 7 = 7" by code_simp
  moreover have "db_tokens demo_cached ''2'' = 0" by (simp add: db_tokens_def demo_quota)
  ultimately show ?thesis
    using forward_bills [OF demo_no_faults rb req D len refl _ refl refl, where key = demo_key and h = "[]" and start = 0] fits
    by (auto simp: demo_usage cost)
qed

theorem gone_client_unbilled_witness:
  "quota_totals (snd (forward demo_env (demo_net False) demo_deps [] demo_key demo_request 0 demo_cached)) = quota_totals demo_cached
   \<and> su_InputTokens (reported False demo_answer) = 3"
  using gone_client_unbilled [of "demo_net False" demo_cached] by (simp add: demo_net_def demo_usage)

definition demo_event :: string where
  \<open>demo_event = ''data: {"usage":{"prompt_tokens":3,"completion_tokens":4}}''\<close>


end
